(* ===== verification/Fork_Prelude.thy ===== *)
theory Fork_Prelude
  imports Main "HOL-Library.Monad_Syntax" "HOL-Library.Word"
begin

section \<open>Shared vocabulary of the development\<close>

text \<open>
  What every component uses: machine integers and doubles, C++'s \<open>std::unordered_map\<close> as an
  association list, decimal printing and LLVM's renaming of a taken name, and the predicate
  \<open>outs\<close> with its rules, the small calculus in which facts about whole visitors are derived
  from facts about the primitive state updates.

  Code that may abort has a result in \<open>option\<close>: \<open>None\<close> is the abnormal end of the program
  (a failed \<open>assert\<close>, a dereferenced null pointer, a read of uninitialised memory), and
  \<open>Some (v, s)\<close> is a normal return with the value and the new state. The compiler's own
  diagnosed errors are not aborts: they are an ordinary return with the error flag raised.
\<close>

subsection \<open>Machine values\<close>

text \<open>
  An \<open>int64_t\<close> is a 64-bit word. A \<open>double\<close> is its 64-bit pattern; no operation of the
  compiler computes with doubles, it only carries their bits into the generated code.
\<close>

type_synonym int64 = "64 word"
type_synonym double = "64 word"

subsection \<open>Aborting checks\<close>

definition check :: "bool \<Rightarrow> unit option" where
  "check b = (if b then Some () else None)"

lemma check_eq_Some [simp]: "check b = Some u \<longleftrightarrow> b"
  by (simp add: check_def)

lemma check_eq_None [simp]: "check b = None \<longleftrightarrow> \<not> b"
  by (simp add: check_def)

lemma check_True [simp]: "check True = Some ()"
  by (simp add: check_def)

subsection \<open>std::unordered_map\<close>

text \<open>
  An unordered map is an association list with distinct keys. \<open>um_insert\<close> is
  \<open>unordered_map::insert\<close>, which leaves an existing key alone; \<open>um_index\<close> is the state after
  \<open>m[k]\<close>, which creates a missing key with the default value. The standard leaves the
  iteration order open; the model iterates in the order of insertion.
\<close>

type_synonym ('k, 'v) umap = "('k \<times> 'v) list"

definition um_insert :: "'k \<Rightarrow> 'v \<Rightarrow> ('k, 'v) umap \<Rightarrow> ('k, 'v) umap" where
  "um_insert k v m = (if map_of m k = None then m @ [(k, v)] else m)"

definition um_erase :: "'k \<Rightarrow> ('k, 'v) umap \<Rightarrow> ('k, 'v) umap" where
  "um_erase k m = filter (\<lambda>p. fst p \<noteq> k) m"

definition um_count :: "'k \<Rightarrow> ('k, 'v) umap \<Rightarrow> nat" where
  "um_count k m = (if map_of m k = None then 0 else 1)"

definition um_wf :: "('k, 'v) umap \<Rightarrow> bool" where
  "um_wf m \<longleftrightarrow> distinct (map fst m)"

lemma um_wf_Nil [simp]: "um_wf []"
  by (simp add: um_wf_def)

lemma um_wf_insert [simp]: "um_wf m \<Longrightarrow> um_wf (um_insert k v m)"
  by (auto simp: um_wf_def um_insert_def map_of_eq_None_iff)

lemma um_wf_erase [simp]: "um_wf m \<Longrightarrow> um_wf (um_erase k m)"
  by (simp add: um_wf_def um_erase_def distinct_map_filter)

lemma map_of_um_insert [simp]:
  "map_of (um_insert k v m) k' =
     (if k' = k \<and> map_of m k = None then Some v else map_of m k')"
  by (auto simp: um_insert_def map_add_def split: option.splits)

lemma map_of_um_erase [simp]:
  "map_of (um_erase k m) k' = (if k' = k then None else map_of m k')"
  by (induction m) (auto simp: um_erase_def)

lemma um_count_0 [simp]: "um_count k m = 0 \<longleftrightarrow> map_of m k = None"
  by (simp add: um_count_def)

lemma um_count_1 [simp]: "um_count k m = Suc 0 \<longleftrightarrow> (\<exists>v. map_of m k = Some v)"
  by (auto simp: um_count_def)

lemma length_um_insert_new [simp]:
  "map_of m k = None \<Longrightarrow> length (um_insert k v m) = Suc (length m)"
  by (simp add: um_insert_def)

subsection \<open>Printing numbers and renaming\<close>

fun digits_rev :: "nat \<Rightarrow> nat \<Rightarrow> string" where
  "digits_rev 0 n = []"
| "digits_rev (Suc fuel) n =
     char_of (48 + n mod 10) # (if n < 10 then [] else digits_rev fuel (n div 10))"

definition show_nat :: "nat \<Rightarrow> string" where
  "show_nat n = rev (digits_rev (Suc n) n)"

definition digits_value :: "string \<Rightarrow> nat" where
  "digits_value ds = foldr (\<lambda>c acc. (of_char c - 48) + 10 * acc) ds 0"

lemma digits_value_rev: "n < fuel \<Longrightarrow> digits_value (digits_rev fuel n) = n"
proof (induction fuel arbitrary: n)
  case (Suc fuel)
  have d: "(of_char (char_of (48 + n mod 10) :: char) :: nat) = 48 + n mod 10"
    by (simp add: of_char_of) linarith?
  show ?case
  proof (cases "n < 10")
    case True
    then show ?thesis by (simp add: digits_value_def d)
  next
    case False
    then have "n div 10 < fuel" using Suc.prems by linarith
    then have "digits_value (digits_rev fuel (n div 10)) = n div 10" by (rule Suc.IH)
    with False show ?thesis by (simp add: digits_value_def d)
  qed
qed simp

lemma inj_show_nat: "inj show_nat"
  by (rule inj_on_inverseI [of _ "\<lambda>ds. digits_value (rev ds)"]) (simp add: show_nat_def digits_value_rev del: digits_rev.simps)

text \<open>
  LLVM makes a taken name unique by appending a counter until the result is free; both
  \<open>StructType::setName\<close> and \<open>ValueSymbolTable::createValueName\<close> loop this way. The model's
  loop carries fuel; \<open>first_free_enough\<close> shows that one step more than the number of names in
  use always suffices.
\<close>

fun first_free :: "nat \<Rightarrow> (nat \<Rightarrow> 'a) \<Rightarrow> 'a list \<Rightarrow> nat \<Rightarrow> nat option" where
  "first_free 0 f used n = None"
| "first_free (Suc fuel) f used n =
     (if f n \<in> set used then first_free fuel f used (Suc n) else Some n)"

lemma first_free_Some:
  "first_free fuel f used n = Some k \<Longrightarrow> n \<le> k \<and> f k \<notin> set used"
  by (induction fuel f used n rule: first_free.induct) (auto split: if_splits)

lemma first_free_None:
  "first_free fuel f used n = None \<Longrightarrow> f ` {n..<n + fuel} \<subseteq> set used"
proof (induction fuel f used n rule: first_free.induct)
  case (1 f used n)
  then show ?case by simp
next
  case (2 fuel f used n)
  then have "f n \<in> set used" and "f ` {Suc n..<Suc n + fuel} \<subseteq> set used"
    by (auto split: if_splits)
  moreover have "{n..<n + Suc fuel} = insert n {Suc n..<Suc n + fuel}"
    by auto
  ultimately show ?case by simp
qed

lemma first_free_enough:
  assumes "inj f"
  shows "\<exists>k. first_free (Suc (length used)) f used n = Some k"
proof (rule ccontr)
  assume "\<not> ?thesis"
  then have "f ` {n..<n + Suc (length used)} \<subseteq> set used"
    by (intro first_free_None) simp
  then have "card (f ` {n..<n + Suc (length used)}) \<le> card (set used)"
    by (intro card_mono) auto
  also have "\<dots> \<le> length used" by (rule card_length)
  finally show False
    using assms by (simp add: card_image inj_on_subset)
qed

subsection \<open>A calculus for state invariants\<close>

text \<open>
  \<open>outs P m\<close>: every state in which \<open>m\<close> returns satisfies \<open>P\<close>. The rules in \<open>outs_intros\<close>
  follow the structure of a definition (bind, if, case, let), so that a visitor is shown to
  preserve \<open>P\<close> from the facts that its primitive steps do.
\<close>

named_theorems outs_intros "rules that push an invariant through a definition"

definition outs :: "('s \<Rightarrow> bool) \<Rightarrow> ('a \<times> 's) option \<Rightarrow> bool" where
  "outs P m \<longleftrightarrow> (\<forall>a s. m = Some (a, s) \<longrightarrow> P s)"

lemma outsD: "outs P m \<Longrightarrow> m = Some (a, s) \<Longrightarrow> P s"
  by (simp add: outs_def)

lemma outs_None [simp, outs_intros]: "outs P None"
  by (simp add: outs_def)

lemma outs_Some [simp]: "outs P (Some (a, s)) \<longleftrightarrow> P s"
  by (simp add: outs_def)

lemma outs_SomeI [outs_intros]: "P s \<Longrightarrow> outs P (Some (a, s))"
  by simp

lemma outs_bind [outs_intros]:
  assumes "outs P m" and "\<And>a s. P s \<Longrightarrow> outs P (f a s)"
  shows "outs P (Option.bind m (\<lambda>(a, s). f a s))"
  using assms by (cases m) (auto simp: outs_def)

lemma outs_bind_check [outs_intros]:
  "(b \<Longrightarrow> outs P (k ())) \<Longrightarrow> outs P (Option.bind (check b) k)"
  by (cases b) (auto simp: check_def)

lemma outs_bind_value:
  "(\<And>a. m = Some a \<Longrightarrow> outs P (k a)) \<Longrightarrow> outs P (Option.bind m k)"
  by (cases m) auto

lemma outs_if [outs_intros]:
  "(b \<Longrightarrow> outs P m) \<Longrightarrow> (\<not> b \<Longrightarrow> outs P m') \<Longrightarrow> outs P (if b then m else m')"
  by simp

lemma outs_case_option [outs_intros]:
  "outs P m \<Longrightarrow> (\<And>a. outs P (f a)) \<Longrightarrow>
     outs P (case v of None \<Rightarrow> m | Some a \<Rightarrow> f a)"
  by (cases v) auto

lemma outs_case_prod [outs_intros]:
  "(\<And>a b. outs P (f a b)) \<Longrightarrow> outs P (case p of (a, b) \<Rightarrow> f a b)"
  by (cases p) auto

lemma outs_Let [outs_intros]: "(\<And>x. x = t \<Longrightarrow> outs P (f x)) \<Longrightarrow> outs P (Let t f)"
  by simp

lemma outs_Some_pair: "P (snd p) \<Longrightarrow> outs P (Some p)"
  by (cases p) simp

lemma outs_case_state:
  "P (snd p) \<Longrightarrow> (\<And>a s. P s \<Longrightarrow> outs P (f a s)) \<Longrightarrow> outs P (case p of (a, s) \<Rightarrow> f a s)"
  by (cases p) simp

lemma outs_case_prod_app:
  "(\<And>a b. outs P (f a b s)) \<Longrightarrow> outs P ((case p of (a, b) \<Rightarrow> f a b) s)"
  by (cases p) simp

lemma outs_map_option:
  "outs P m \<Longrightarrow> outs P (map_option (\<lambda>(a, s). (f a, s)) m)"
  by (cases m) auto

text \<open>\<open>keeps P f\<close>: the operation \<open>f\<close> preserves \<open>P\<close>.\<close>

definition keeps :: "('s \<Rightarrow> bool) \<Rightarrow> ('s \<Rightarrow> ('a \<times> 's) option) \<Rightarrow> bool" where
  "keeps P f \<longleftrightarrow> (\<forall>s. P s \<longrightarrow> outs P (f s))"

lemma keepsI: "(\<And>s. P s \<Longrightarrow> outs P (f s)) \<Longrightarrow> keeps P f"
  by (simp add: keeps_def)

lemma keepsD: "keeps P f \<Longrightarrow> P s \<Longrightarrow> outs P (f s)"
  by (simp add: keeps_def)

end
