(* ===== verification/Fork_AST.thy ===== *)
theory Fork_AST
  imports Fork_Prelude
begin

section \<open>The abstract syntax tree (node.h, node.cpp, statementVisitor.cpp)\<close>

text \<open>
  The classes of \<^verbatim>\<open>node.h\<close> as two datatypes, expressions and statements. A pointer that the
  code tests against \<open>nullptr\<close> is an \<open>option\<close>; an \<open>Identifier*\<close> or \<open>Keyword*\<close> inside another
  node is its \<open>name\<close>, the only field those classes have, so the constructors' assertions that
  such a pointer is not null hold by typing. Each statement carries the \<open>commit\<close> flag of the
  base class \<open>Statement\<close>. \<open>VariableDefinition\<close> and its subclass \<open>StructureDeclaration\<close> are one
  datatype, because a \<open>VariableDefinition*\<close> of an argument list may be either.

  The three virtual methods that decide how a statement is scheduled (\<open>setCommit\<close>,
  \<open>statementCommits\<close>, \<open>lambdable\<close>) are modelled by a record of overrides per class, as the
  classes override them. The \<open>describe\<close> methods only print in a debug build and are left out.
\<close>

subsection \<open>Nodes\<close>

datatype expression =
    Integer int64
  | Float double
  | Identifier string
  | UnaryOperator string expression
  | BinaryOperator expression string expression
  | FunctionCall string "expression list"
  | NullLiteral
  | PointerExpression string "expression option" "string option"
  | AddressOfExpression string "expression option"
  | StructureExpression string string

type_synonym keyword = string

datatype variableDefinition =
    VariableDefinition keyword string "expression option" bool
  | StructureDeclaration string string bool

datatype statement =
    VariableStatement bool variableDefinition
  | StructureDefinition bool string block
  | FunctionDefinition bool "keyword option" "string option" string
      "variableDefinition list" block bool
  | ExpressionStatement bool expression
  | ReturnStatement bool "expression option"
  | AssignStatement bool expression expression
  | IfStatement bool expression block "block option"
  | ExternStatement bool keyword string "variableDefinition list" bool
and block = Block "statement list option"

subsection \<open>Fields and plain methods\<close>

fun vd_ident :: "variableDefinition \<Rightarrow> string" where
  "vd_ident (VariableDefinition ty i e p) = i"
| "vd_ident (StructureDeclaration ty i p) = i"

fun vd_exp :: "variableDefinition \<Rightarrow> expression option" where
  "vd_exp (VariableDefinition ty i e p) = e"
| "vd_exp (StructureDeclaration ty i p) = None"

fun hasPointerType :: "variableDefinition \<Rightarrow> bool" where
  "hasPointerType (VariableDefinition ty i e p) = p"
| "hasPointerType (StructureDeclaration ty i p) = p"

fun stringType :: "variableDefinition \<Rightarrow> string" where
  "stringType (VariableDefinition ty i e p) = ty"
| "stringType (StructureDeclaration ty i p) = ty"

fun usesDirectValue :: "expression \<Rightarrow> bool" where
  "usesDirectValue (PointerExpression i off f) \<longleftrightarrow> off = None"
| "usesDirectValue _ \<longleftrightarrow> False"

fun referencingStruct :: "expression \<Rightarrow> bool" where
  "referencingStruct (PointerExpression i off f) \<longleftrightarrow> f \<noteq> None"
| "referencingStruct _ \<longleftrightarrow> False"

fun statements :: "block \<Rightarrow> statement list option" where
  "statements (Block ss) = ss"

subsection \<open>Virtual methods of statements\<close>

text \<open>
  \<open>vt_setCommit c old\<close> is the flag after \<open>setCommit(c)\<close> on an object whose flag is \<open>old\<close>;
  \<open>vt_statementCommits c\<close> is the answer of an object whose flag is \<open>c\<close>.
\<close>

record vtable =
  vt_setCommit :: "bool \<Rightarrow> bool \<Rightarrow> bool"
  vt_statementCommits :: "bool \<Rightarrow> bool"
  vt_lambdable :: bool

definition Statement_vt :: vtable where
  "Statement_vt = \<lparr>vt_setCommit = (\<lambda>c old. c), vt_statementCommits = (\<lambda>c. c),
     vt_lambdable = False\<rparr>"

definition VariableDefinition_vt :: "expression option \<Rightarrow> vtable" where
  "VariableDefinition_vt exp = Statement_vt
     \<lparr>vt_statementCommits := (\<lambda>c. exp = None \<or> c), vt_lambdable := (exp \<noteq> None)\<rparr>"

definition StructureDefinition_vt :: vtable where
  "StructureDefinition_vt = Statement_vt
     \<lparr>vt_setCommit := (\<lambda>c old. old), vt_statementCommits := (\<lambda>c. True),
      vt_lambdable := False\<rparr>"

definition FunctionDefinition_vt :: vtable where
  "FunctionDefinition_vt = Statement_vt
     \<lparr>vt_setCommit := (\<lambda>c old. old), vt_statementCommits := (\<lambda>c. True),
      vt_lambdable := False\<rparr>"

definition StructureDeclaration_vt :: vtable where
  "StructureDeclaration_vt = (VariableDefinition_vt None)
     \<lparr>vt_setCommit := (\<lambda>c old. old), vt_statementCommits := (\<lambda>c. True),
      vt_lambdable := False\<rparr>"

definition ExpressionStatement_vt :: vtable where
  "ExpressionStatement_vt = Statement_vt\<lparr>vt_lambdable := True\<rparr>"

definition ReturnStatement_vt :: vtable where
  "ReturnStatement_vt = Statement_vt
     \<lparr>vt_setCommit := (\<lambda>c old. old), vt_statementCommits := (\<lambda>c. True),
      vt_lambdable := False\<rparr>"

definition AssignStatement_vt :: vtable where
  "AssignStatement_vt = Statement_vt\<lparr>vt_lambdable := True\<rparr>"

definition IfStatement_vt :: vtable where
  "IfStatement_vt = Statement_vt
     \<lparr>vt_setCommit := (\<lambda>c old. old), vt_statementCommits := (\<lambda>c. True),
      vt_lambdable := False\<rparr>"

definition ExternStatement_vt :: vtable where
  "ExternStatement_vt = Statement_vt
     \<lparr>vt_setCommit := (\<lambda>c old. old), vt_statementCommits := (\<lambda>c. True),
      vt_lambdable := False\<rparr>"

lemmas vt_defs = Statement_vt_def VariableDefinition_vt_def StructureDefinition_vt_def
  FunctionDefinition_vt_def StructureDeclaration_vt_def ExpressionStatement_vt_def
  ReturnStatement_vt_def AssignStatement_vt_def IfStatement_vt_def ExternStatement_vt_def

fun vd_vt :: "variableDefinition \<Rightarrow> vtable" where
  "vd_vt (VariableDefinition ty i e p) = VariableDefinition_vt e"
| "vd_vt (StructureDeclaration ty i p) = StructureDeclaration_vt"

fun vtable_of :: "statement \<Rightarrow> vtable" where
  "vtable_of (VariableStatement c v) = vd_vt v"
| "vtable_of (StructureDefinition c i b) = StructureDefinition_vt"
| "vtable_of (FunctionDefinition c t u i as b p) = FunctionDefinition_vt"
| "vtable_of (ExpressionStatement c e) = ExpressionStatement_vt"
| "vtable_of (ReturnStatement c e) = ReturnStatement_vt"
| "vtable_of (AssignStatement c t v) = AssignStatement_vt"
| "vtable_of (IfStatement c e b eb) = IfStatement_vt"
| "vtable_of (ExternStatement c t i as p) = ExternStatement_vt"

fun commit :: "statement \<Rightarrow> bool" where
  "commit (VariableStatement c v) = c"
| "commit (StructureDefinition c i b) = c"
| "commit (FunctionDefinition c t u i as b p) = c"
| "commit (ExpressionStatement c e) = c"
| "commit (ReturnStatement c e) = c"
| "commit (AssignStatement c t v) = c"
| "commit (IfStatement c e b eb) = c"
| "commit (ExternStatement c t i as p) = c"

fun set_commit_field :: "bool \<Rightarrow> statement \<Rightarrow> statement" where
  "set_commit_field d (VariableStatement c v) = VariableStatement d v"
| "set_commit_field d (StructureDefinition c i b) = StructureDefinition d i b"
| "set_commit_field d (FunctionDefinition c t u i as b p) = FunctionDefinition d t u i as b p"
| "set_commit_field d (ExpressionStatement c e) = ExpressionStatement d e"
| "set_commit_field d (ReturnStatement c e) = ReturnStatement d e"
| "set_commit_field d (AssignStatement c t v) = AssignStatement d t v"
| "set_commit_field d (IfStatement c e b eb) = IfStatement d e b eb"
| "set_commit_field d (ExternStatement c t i as p) = ExternStatement d t i as p"

definition setCommit :: "bool \<Rightarrow> statement \<Rightarrow> statement" where
  "setCommit d s = set_commit_field (vt_setCommit (vtable_of s) d (commit s)) s"

definition statementCommits :: "statement \<Rightarrow> bool" where
  "statementCommits s = vt_statementCommits (vtable_of s) (commit s)"

definition lambdable :: "statement \<Rightarrow> bool" where
  "lambdable s = vt_lambdable (vtable_of s)"

subsection \<open>The table of user-defined types\<close>

record typeTable =
  types :: "string list"

definition TypeTable :: typeTable where
  "TypeTable = \<lparr>types = []\<rparr>"

definition tt_insert :: "string \<Rightarrow> typeTable \<Rightarrow> typeTable" where
  "tt_insert ident t = t\<lparr>types := types t @ [ident]\<rparr>"

definition tt_check :: "string \<Rightarrow> typeTable \<Rightarrow> bool" where
  "tt_check ident t \<longleftrightarrow> ident \<in> set (types t)"

definition StructureDefinition_validate :: "string \<Rightarrow> typeTable \<Rightarrow> bool \<times> typeTable" where
  "StructureDefinition_validate ident t =
     (if tt_check ident t then (False, t) else (True, tt_insert ident t))"

definition FunctionDefinition_validate :: "string option \<Rightarrow> typeTable \<Rightarrow> bool" where
  "FunctionDefinition_validate user_type t =
     (case user_type of None \<Rightarrow> True | Some u \<Rightarrow> tt_check u t)"

definition StructureDeclaration_validate :: "string \<Rightarrow> typeTable \<Rightarrow> bool" where
  "StructureDeclaration_validate user_type t =
     (if \<not> tt_check user_type t then False else True)"

subsection \<open>StatementVisitor: the fields of a structure\<close>

text \<open>
  \<open>StatementVisitor::visitBlock\<close> dereferences \<open>b->statements\<close> without a test, so an empty
  structure body (a \<open>Block\<close> with a null statement vector) aborts.
\<close>

record statementVisitor =
  varList :: "variableDefinition list"
  structList :: "variableDefinition list"

definition StatementVisitor :: statementVisitor where
  "StatementVisitor = \<lparr>varList = [], structList = []\<rparr>"

definition sv_visitVariableDefinition ::
  "variableDefinition \<Rightarrow> statementVisitor \<Rightarrow> statementVisitor" where
  "sv_visitVariableDefinition v sv = sv\<lparr>varList := varList sv @ [v]\<rparr>"

definition sv_visitStructureDeclaration ::
  "variableDefinition \<Rightarrow> statementVisitor \<Rightarrow> statementVisitor" where
  "sv_visitStructureDeclaration s sv = sv\<lparr>structList := structList sv @ [s]\<rparr>"

definition sv_visitStatement :: "statement \<Rightarrow> statementVisitor \<Rightarrow> statementVisitor" where
  "sv_visitStatement s sv = sv"

definition sv_visitStructureDefinition :: "statement \<Rightarrow> statementVisitor \<Rightarrow> statementVisitor" where
  "sv_visitStructureDefinition s sv = sv"

fun sv_accept :: "statement \<Rightarrow> statementVisitor \<Rightarrow> statementVisitor" where
  "sv_accept (VariableStatement c (VariableDefinition ty i e p)) sv =
     sv_visitVariableDefinition (VariableDefinition ty i e p) sv"
| "sv_accept (VariableStatement c (StructureDeclaration ty i p)) sv =
     sv_visitStructureDeclaration (StructureDeclaration ty i p) sv"
| "sv_accept (StructureDefinition c i b) sv = sv_visitStructureDefinition (StructureDefinition c i b) sv"
| "sv_accept s sv = sv_visitStatement s sv"

definition sv_visitBlock :: "block \<Rightarrow> statementVisitor \<Rightarrow> statementVisitor option" where
  "sv_visitBlock b sv = map_option (\<lambda>ss. fold sv_accept ss sv) (statements b)"

definition getVariables :: "block \<Rightarrow> variableDefinition list option" where
  "getVariables b = map_option varList (sv_visitBlock b StatementVisitor)"

definition getStructs :: "block \<Rightarrow> variableDefinition list option" where
  "getStructs b = map_option structList (sv_visitBlock b StatementVisitor)"

subsection \<open>Facts\<close>

lemma commit_set_commit_field [simp]: "commit (set_commit_field d s) = d"
  by (cases s) auto

lemma vtable_of_set_commit_field [simp]: "vtable_of (set_commit_field d s) = vtable_of s"
  by (cases s) auto

lemma statementCommits_simps [simp]:
  "statementCommits (VariableStatement c (VariableDefinition ty i e p)) \<longleftrightarrow> e = None \<or> c"
  "statementCommits (VariableStatement c (StructureDeclaration ty' i p)) \<longleftrightarrow> True"
  "statementCommits (StructureDefinition c i b) \<longleftrightarrow> True"
  "statementCommits (FunctionDefinition c t u i as b p) \<longleftrightarrow> True"
  "statementCommits (ExpressionStatement c ex) \<longleftrightarrow> c"
  "statementCommits (ReturnStatement c eo) \<longleftrightarrow> True"
  "statementCommits (AssignStatement c tg v) \<longleftrightarrow> c"
  "statementCommits (IfStatement c ex b eb) \<longleftrightarrow> True"
  "statementCommits (ExternStatement c ty i as p) \<longleftrightarrow> True"
  by (simp_all add: statementCommits_def vt_defs)

fun is_var :: "statement \<Rightarrow> variableDefinition option" where
  "is_var (VariableStatement c (VariableDefinition ty i e p)) = Some (VariableDefinition ty i e p)"
| "is_var _ = None"

fun is_struct_decl :: "statement \<Rightarrow> variableDefinition option" where
  "is_struct_decl (VariableStatement c (StructureDeclaration ty i p)) =
     Some (StructureDeclaration ty i p)"
| "is_struct_decl _ = None"

lemmas sv_defs = sv_visitVariableDefinition_def sv_visitStructureDeclaration_def
  sv_visitStatement_def sv_visitStructureDefinition_def

lemma sv_accept_varList [simp]:
  "varList (sv_accept s sv) = varList sv @ (case is_var s of None \<Rightarrow> [] | Some v \<Rightarrow> [v])"
  by (cases "(s, sv)" rule: sv_accept.cases) (auto simp: sv_defs)

lemma sv_accept_structList [simp]:
  "structList (sv_accept s sv) =
     structList sv @ (case is_struct_decl s of None \<Rightarrow> [] | Some v \<Rightarrow> [v])"
  by (cases "(s, sv)" rule: sv_accept.cases) (auto simp: sv_defs)

lemma fold_sv_accept:
  "varList (fold sv_accept ss sv) = varList sv @ List.map_filter is_var ss"
  "structList (fold sv_accept ss sv) = structList sv @ List.map_filter is_struct_decl ss"
  by (induction ss arbitrary: sv) (auto simp: map_filter_simps split: option.splits)

text \<open>
  A statement that is told to commit answers that it commits, whatever its class.
\<close>

lemma statementCommits_setCommit: "statementCommits (setCommit True s)"
proof (cases s)
  case (VariableStatement c v)
  then show ?thesis
    by (cases v) (simp_all add: setCommit_def statementCommits_def vt_defs)
qed (simp_all add: setCommit_def statementCommits_def vt_defs)

text \<open>
  Only statements that can become a closure can answer that they do not commit.
\<close>

lemma not_commit_lambdable: "\<not> statementCommits s \<Longrightarrow> lambdable s"
proof (cases s)
  case (VariableStatement c v)
  then show "\<not> statementCommits s \<Longrightarrow> lambdable s"
    by (cases v) (simp_all add: lambdable_def vt_defs)
qed (simp_all add: lambdable_def vt_defs)

end
