(* ===== verification/LLVM_IR.thy ===== *)
theory LLVM_IR
  imports Fork_Prelude
begin

section \<open>What the compiler uses of LLVM\<close>

text \<open>
  The objects of LLVM that \<^verbatim>\<open>codeGenVisitor.cpp\<close> creates and asks about, translated from the
  LLVM sources in the repository: types, values, instructions, basic blocks, functions, named
  structure types and the methods of \<open>IRBuilder<true, NoFolder>\<close>.

  LLVM compares types by address, and every \<open>LLVMContext\<close> has its own type objects. The
  compiler owns two contexts (one for the main module, one for closures) and mixes their
  types, so a type carries its context: the 64-bit integer of the main context and that of
  the lambda context are different types, as they are for the code. An instruction carries a
  number (its identity), its type and its operands. The assertions of LLVM's constructors
  are \<open>check\<close>s: the build keeps them (\<open>Release+Asserts\<close>), so a violated one aborts.

  A builder appends to the block of its insertion point. With no insertion point LLVM creates
  the instruction and inserts it nowhere; so does \<open>Insert\<close>.
\<close>

subsection \<open>Types\<close>

datatype ctx = MainCtx | LambdaCtx

datatype lltype =
    TVoid ctx
  | TInt ctx nat
  | TDouble ctx
  | TPtr lltype
  | TStruct ctx nat

fun typeContext :: "lltype \<Rightarrow> ctx" where
  "typeContext (TVoid c) = c"
| "typeContext (TInt c w) = c"
| "typeContext (TDouble c) = c"
| "typeContext (TPtr t) = typeContext t"
| "typeContext (TStruct c i) = c"

fun isVoidTy :: "lltype \<Rightarrow> bool" where
  "isVoidTy (TVoid c) = True" | "isVoidTy _ = False"

fun isIntegerTy :: "lltype \<Rightarrow> bool" where
  "isIntegerTy (TInt c w) = True" | "isIntegerTy _ = False"

fun isDoubleTy :: "lltype \<Rightarrow> bool" where
  "isDoubleTy (TDouble c) = True" | "isDoubleTy _ = False"

fun isPointerTy :: "lltype \<Rightarrow> bool" where
  "isPointerTy (TPtr t) = True" | "isPointerTy _ = False"

fun isStructTy :: "lltype \<Rightarrow> bool" where
  "isStructTy (TStruct c i) = True" | "isStructTy _ = False"

text \<open>
  \<open>getContainedType(0)\<close>: the code asks it of pointer types only; for a scalar LLVM's assertion
  fails.
\<close>

fun getContainedType :: "lltype \<Rightarrow> lltype option" where
  "getContainedType (TPtr t) = Some t" | "getContainedType _ = None"

fun getPrimitiveSizeInBits :: "lltype \<Rightarrow> nat" where
  "getPrimitiveSizeInBits (TInt c w) = w"
| "getPrimitiveSizeInBits (TDouble c) = 64"
| "getPrimitiveSizeInBits _ = 0"

definition isFirstClassType :: "lltype \<Rightarrow> bool" where
  "isFirstClassType t \<longleftrightarrow> \<not> isVoidTy t"

abbreviation int64Ty :: "ctx \<Rightarrow> lltype" where "int64Ty c \<equiv> TInt c 64"
abbreviation int1Ty :: "ctx \<Rightarrow> lltype" where "int1Ty c \<equiv> TInt c 1"
abbreviation int64PtrTy :: "ctx \<Rightarrow> lltype" where "int64PtrTy c \<equiv> TPtr (TInt c 64)"
abbreviation doublePtrTy :: "ctx \<Rightarrow> lltype" where "doublePtrTy c \<equiv> TPtr (TDouble c)"

subsection \<open>Values and instructions\<close>

datatype binop = Add | Sub | Mul | SDiv | FAdd | FSub | FMul | FDiv | And | Or | Xor
datatype icmp_pred = ICMP_EQ | ICMP_NE | ICMP_SGT | ICMP_SGE | ICMP_SLT | ICMP_SLE
datatype fcmp_pred = FCMP_OEQ | FCMP_ONE | FCMP_OGT | FCMP_OGE | FCMP_OLT | FCMP_OLE
datatype castop = ZExt | SIToFP | PtrToInt | IntToPtr | BitCast

datatype llvalue =
    ConstantInt lltype int
  | ConstantFP lltype double
  | ConstantPointerNull lltype
  | ConstantAggregateZero lltype
  | VoidValue ctx
  | Argument string nat lltype
  | Inst nat lltype instr
and instr =
    Alloca lltype string
  | Load llvalue
  | Store llvalue llvalue
  | BinOp binop llvalue llvalue
  | ICmp icmp_pred llvalue llvalue
  | FCmp fcmp_pred llvalue llvalue
  | Cast castop llvalue lltype
  | GEP llvalue llvalue
  | StructGEP llvalue nat
  | Call string "llvalue list"
  | Ret "llvalue option"
  | Br nat
  | CondBr llvalue nat nat

fun getType :: "llvalue \<Rightarrow> lltype" where
  "getType (ConstantInt t i) = t"
| "getType (ConstantFP t d) = t"
| "getType (ConstantPointerNull t) = t"
| "getType (ConstantAggregateZero t) = t"
| "getType (VoidValue c) = TVoid c"
| "getType (Argument f i t) = t"
| "getType (Inst i t ins) = t"

fun getPointerOperand :: "llvalue \<Rightarrow> llvalue option" where
  "getPointerOperand (Inst i t (Load p)) = Some p" | "getPointerOperand _ = None"

fun is_terminator :: "instr \<Rightarrow> bool" where
  "is_terminator (Ret v) = True"
| "is_terminator (Br b) = True"
| "is_terminator (CondBr v b b') = True"
| "is_terminator _ = False"

subsection \<open>Modules, functions, blocks and structure types\<close>

record basicblock =
  bb_parent :: "(ctx \<times> string) option"
  bb_name :: string
  bb_insts :: "llvalue list"

record lfunction =
  fn_ret :: lltype
  fn_args :: "(string \<times> lltype) list"
  fn_blocks :: "nat list"

record structtype =
  st_name :: string
  st_body :: "lltype list option"

record llvm =
  nextId :: nat
  bbs :: "nat \<Rightarrow> basicblock option"
  modules :: "ctx \<Rightarrow> (string \<times> lfunction) list"
  insertPt :: "ctx \<Rightarrow> nat option"
  structTys :: "nat \<Rightarrow> structtype option"
  structNames :: "ctx \<Rightarrow> string list"
  structUnique :: "ctx \<Rightarrow> nat"

definition isSized :: "'a llvm_scheme \<Rightarrow> lltype \<Rightarrow> bool" where
  "isSized s t = (case t of
       TVoid c \<Rightarrow> False
     | TStruct c i \<Rightarrow>
         (case structTys s i of None \<Rightarrow> False | Some st \<Rightarrow> st_body st \<noteq> None)
     | _ \<Rightarrow> True)"

definition getFunction :: "ctx \<Rightarrow> string \<Rightarrow> 'a llvm_scheme \<Rightarrow> lfunction option" where
  "getFunction c name s = map_of (modules s c) name"

definition update_function ::
  "ctx \<Rightarrow> string \<Rightarrow> (lfunction \<Rightarrow> lfunction) \<Rightarrow> 'a llvm_scheme \<Rightarrow> 'a llvm_scheme" where
  "update_function c name f s = s\<lparr>modules := (modules s)
     (c := map (\<lambda>(n, g). if n = name then (n, f g) else (n, g)) (modules s c))\<rparr>"

text \<open>\<open>StructType::create\<close>, with the renaming of \<open>StructType::setName\<close>; \<open>StructType::setBody\<close>.\<close>

definition struct_unique_name :: "ctx \<Rightarrow> string \<Rightarrow> 'a llvm_scheme \<Rightarrow> (string \<times> nat) option" where
  "struct_unique_name c name s =
     (if name \<notin> set (structNames s c) then Some (name, structUnique s c)
      else map_option (\<lambda>k. (name @ ''.'' @ show_nat k, Suc k))
             (first_free (Suc (length (structNames s c))) (\<lambda>k. name @ ''.'' @ show_nat k)
                (structNames s c) (structUnique s c)))"

definition StructType_create ::
  "ctx \<Rightarrow> string \<Rightarrow> 'a llvm_scheme \<Rightarrow> (nat \<times> 'a llvm_scheme) option" where
  "StructType_create c name s = do {
     (n, u) \<leftarrow> struct_unique_name c name s;
     Some (nextId s, s\<lparr>nextId := Suc (nextId s),
       structTys := (structTys s)(nextId s \<mapsto> \<lparr>st_name = n, st_body = None\<rparr>),
       structNames := (structNames s)(c := n # structNames s c),
       structUnique := (structUnique s)(c := u)\<rparr>)
   }"

definition StructType_setBody ::
  "nat \<Rightarrow> lltype list \<Rightarrow> 'a llvm_scheme \<Rightarrow> (unit \<times> 'a llvm_scheme) option" where
  "StructType_setBody i ts s = do {
     st \<leftarrow> structTys s i;
     check (st_body st = None);
     Some ((), s\<lparr>structTys := (structTys s)(i \<mapsto> st\<lparr>st_body := Some ts\<rparr>)\<rparr>)
   }"

definition getStructName :: "lltype \<Rightarrow> 'a llvm_scheme \<Rightarrow> string option" where
  "getStructName t s =
     (case t of TStruct c i \<Rightarrow> map_option st_name (structTys s i) | _ \<Rightarrow> None)"

text \<open>\<open>FunctionType::get\<close>, \<open>Function::Create\<close> and the naming of its arguments.\<close>

definition createValueName ::
  "string list \<Rightarrow> nat \<Rightarrow> string \<Rightarrow> (string \<times> nat) option" where
  "createValueName used u name =
     (if name \<notin> set used then Some (name, u)
      else map_option (\<lambda>k. (name @ show_nat k, k))
             (first_free (Suc (length used)) (\<lambda>k. name @ show_nat k) used (Suc u)))"

fun setArgNames :: "string list \<Rightarrow> nat \<Rightarrow> string list \<Rightarrow> string list option" where
  "setArgNames used u [] = Some []"
| "setArgNames used u (n # ns) = do {
     (n', u') \<leftarrow> createValueName used u n;
     ns' \<leftarrow> setArgNames (n' # used) u' ns;
     Some (n' # ns')
   }"

definition Function_Create ::
  "ctx \<Rightarrow> string \<Rightarrow> lltype \<Rightarrow> (string \<times> lltype) list \<Rightarrow> 'a llvm_scheme \<Rightarrow>
     (lfunction \<times> 'a llvm_scheme) option" where
  "Function_Create c name ret args s = do {
     check (list_all (\<lambda>a. isFirstClassType (snd a)) args);
     let f = \<lparr>fn_ret = ret, fn_args = args, fn_blocks = []\<rparr>;
     Some (f, s\<lparr>modules := (modules s)(c := modules s c @ [(name, f)])\<rparr>)
   }"

text \<open>\<open>BasicBlock::Create\<close> and \<open>getBasicBlockList().push_back\<close>.\<close>

definition BasicBlock_Create ::
  "string \<Rightarrow> 'a llvm_scheme \<Rightarrow> nat \<times> 'a llvm_scheme" where
  "BasicBlock_Create name s = (nextId s, s\<lparr>nextId := Suc (nextId s),
     bbs := (bbs s)(nextId s \<mapsto> \<lparr>bb_parent = None, bb_name = name, bb_insts = []\<rparr>)\<rparr>)"

definition push_block ::
  "ctx \<Rightarrow> string \<Rightarrow> nat \<Rightarrow> 'a llvm_scheme \<Rightarrow> 'a llvm_scheme" where
  "push_block c f b s =
     (let s' = update_function c f (\<lambda>g. g\<lparr>fn_blocks := fn_blocks g @ [b]\<rparr>) s
      in s'\<lparr>bbs := (bbs s')
           (b := map_option (\<lambda>bb. bb\<lparr>bb_parent := Some (c, f)\<rparr>) (bbs s' b))\<rparr>)"

definition SetInsertPoint :: "ctx \<Rightarrow> nat option \<Rightarrow> 'a llvm_scheme \<Rightarrow> 'a llvm_scheme" where
  "SetInsertPoint c b s = s\<lparr>insertPt := (insertPt s)(c := b)\<rparr>"

text \<open>\<open>getBuilder()->GetInsertBlock()->getParent()\<close>: a null block is dereferenced.\<close>

definition insert_function :: "ctx \<Rightarrow> 'a llvm_scheme \<Rightarrow> (ctx \<times> string) option" where
  "insert_function c s = do {
     b \<leftarrow> insertPt s c;
     bb \<leftarrow> bbs s b;
     bb_parent bb
   }"

subsection \<open>The builder\<close>

definition Insert :: "ctx \<Rightarrow> lltype \<Rightarrow> instr \<Rightarrow> 'a llvm_scheme \<Rightarrow> llvalue \<times> 'a llvm_scheme" where
  "Insert c t i s =
     (let v = Inst (nextId s) t i; s' = s\<lparr>nextId := Suc (nextId s)\<rparr> in
      case insertPt s c of
        None \<Rightarrow> (v, s')
      | Some b \<Rightarrow> (v, s'\<lparr>bbs := (bbs s')
          (b := map_option (\<lambda>bb. bb\<lparr>bb_insts := bb_insts bb @ [v]\<rparr>) (bbs s' b))\<rparr>))"

text \<open>The temporary builder of \<open>createAlloca\<close> inserts at the start of the entry block.\<close>

definition InsertEntry ::
  "ctx \<times> string \<Rightarrow> lltype \<Rightarrow> instr \<Rightarrow> 'a llvm_scheme \<Rightarrow> (llvalue \<times> 'a llvm_scheme) option" where
  "InsertEntry f t i s = do {
     g \<leftarrow> getFunction (fst f) (snd f) s;
     b \<leftarrow> (case fn_blocks g of [] \<Rightarrow> None | b # bs \<Rightarrow> Some b);
     let v = Inst (nextId s) t i;
     Some (v, s\<lparr>nextId := Suc (nextId s), bbs := (bbs s)
       (b := map_option (\<lambda>bb. bb\<lparr>bb_insts := v # bb_insts bb\<rparr>) (bbs s b))\<rparr>)
   }"

definition CreateAlloca ::
  "ctx \<times> string \<Rightarrow> lltype \<Rightarrow> string \<Rightarrow> 'a llvm_scheme \<Rightarrow> (llvalue \<times> 'a llvm_scheme) option" where
  "CreateAlloca f t name s = do {
     check (\<not> isVoidTy t);
     InsertEntry f (TPtr t) (Alloca t name) s
   }"

fun int_binop :: "binop \<Rightarrow> bool" where
  "int_binop Add = True" | "int_binop Sub = True" | "int_binop Mul = True"
| "int_binop SDiv = True" | "int_binop And = True" | "int_binop Or = True"
| "int_binop Xor = True" | "int_binop _ = False"

text \<open>The operand assertions of \<open>BinaryOperator::init\<close>.\<close>

definition binop_ok :: "binop \<Rightarrow> llvalue \<Rightarrow> llvalue \<Rightarrow> bool" where
  "binop_ok b l r \<longleftrightarrow> getType l = getType r \<and>
     (if int_binop b then isIntegerTy (getType l) else isDoubleTy (getType l))"

definition CreateBinOp ::
  "ctx \<Rightarrow> binop \<Rightarrow> llvalue \<Rightarrow> llvalue \<Rightarrow> 'a llvm_scheme \<Rightarrow> (llvalue \<times> 'a llvm_scheme) option" where
  "CreateBinOp c b l r s = do {
     check (binop_ok b l r);
     Some (Insert c (getType l) (BinOp b l r) s)
   }"

fun is_constant :: "llvalue \<Rightarrow> bool" where
  "is_constant (ConstantInt t i) = True"
| "is_constant (ConstantFP t d) = True"
| "is_constant (ConstantPointerNull t) = True"
| "is_constant (ConstantAggregateZero t) = True"
| "is_constant _ = False"

fun isNullValue :: "llvalue \<Rightarrow> bool" where
  "isNullValue (ConstantInt t i) = (i = 0)"
| "isNullValue (ConstantFP t d) = (d = 0)"
| "isNullValue (ConstantPointerNull t) = True"
| "isNullValue (ConstantAggregateZero t) = True"
| "isNullValue _ = False"

fun isAllOnesValue :: "llvalue \<Rightarrow> bool" where
  "isAllOnesValue (ConstantInt (TInt c w) i) = ((i + 1) mod 2 ^ w = 0)"
| "isAllOnesValue _ = False"

text \<open>\<open>CreateAnd\<close> and \<open>CreateOr\<close> drop a neutral constant on the right.\<close>

definition CreateAnd ::
  "ctx \<Rightarrow> llvalue \<Rightarrow> llvalue \<Rightarrow> 'a llvm_scheme \<Rightarrow> (llvalue \<times> 'a llvm_scheme) option" where
  "CreateAnd c l r s = (if isAllOnesValue r then Some (l, s) else CreateBinOp c And l r s)"

definition CreateOr ::
  "ctx \<Rightarrow> llvalue \<Rightarrow> llvalue \<Rightarrow> 'a llvm_scheme \<Rightarrow> (llvalue \<times> 'a llvm_scheme) option" where
  "CreateOr c l r s =
     (if is_constant r \<and> isNullValue r then Some (l, s) else CreateBinOp c Or l r s)"

definition CreateNot ::
  "ctx \<Rightarrow> llvalue \<Rightarrow> 'a llvm_scheme \<Rightarrow> (llvalue \<times> 'a llvm_scheme) option" where
  "CreateNot c v s = CreateBinOp c Xor v (ConstantInt (getType v) (- 1)) s"

definition CreateICmp ::
  "ctx \<Rightarrow> icmp_pred \<Rightarrow> llvalue \<Rightarrow> llvalue \<Rightarrow> 'a llvm_scheme \<Rightarrow>
     (llvalue \<times> 'a llvm_scheme) option" where
  "CreateICmp c p l r s = do {
     check (getType l = getType r);
     check (isIntegerTy (getType l) \<or> isPointerTy (getType l));
     Some (Insert c (int1Ty (typeContext (getType l))) (ICmp p l r) s)
   }"

definition CreateFCmp ::
  "ctx \<Rightarrow> fcmp_pred \<Rightarrow> llvalue \<Rightarrow> llvalue \<Rightarrow> 'a llvm_scheme \<Rightarrow>
     (llvalue \<times> 'a llvm_scheme) option" where
  "CreateFCmp c p l r s = do {
     check (getType l = getType r);
     check (isDoubleTy (getType l));
     Some (Insert c (int1Ty (typeContext (getType l))) (FCmp p l r) s)
   }"

fun castIsValid :: "castop \<Rightarrow> lltype \<Rightarrow> lltype \<Rightarrow> bool" where
  "castIsValid ZExt a b \<longleftrightarrow> isIntegerTy a \<and> isIntegerTy b \<and>
     getPrimitiveSizeInBits a < getPrimitiveSizeInBits b"
| "castIsValid SIToFP a b \<longleftrightarrow> isIntegerTy a \<and> isDoubleTy b"
| "castIsValid PtrToInt a b \<longleftrightarrow> isPointerTy a \<and> isIntegerTy b"
| "castIsValid IntToPtr a b \<longleftrightarrow> isIntegerTy a \<and> isPointerTy b"
| "castIsValid BitCast a b \<longleftrightarrow>
     isFirstClassType a \<and> isFirstClassType b \<and> \<not> isStructTy a \<and> \<not> isStructTy b \<and>
     isPointerTy a = isPointerTy b \<and>
     (\<not> isPointerTy a \<longrightarrow> getPrimitiveSizeInBits a = getPrimitiveSizeInBits b)"

definition CreateCast ::
  "ctx \<Rightarrow> castop \<Rightarrow> llvalue \<Rightarrow> lltype \<Rightarrow> 'a llvm_scheme \<Rightarrow> (llvalue \<times> 'a llvm_scheme) option" where
  "CreateCast c op v t s =
     (if getType v = t then Some (v, s) else do {
        check (castIsValid op (getType v) t);
        Some (Insert c t (Cast op v t) s)
      })"

definition CreateZExtOrBitCast ::
  "ctx \<Rightarrow> llvalue \<Rightarrow> lltype \<Rightarrow> 'a llvm_scheme \<Rightarrow> (llvalue \<times> 'a llvm_scheme) option" where
  "CreateZExtOrBitCast c v t s =
     (if getType v = t then Some (v, s)
      else if getPrimitiveSizeInBits (getType v) = getPrimitiveSizeInBits t
      then CreateCast c BitCast v t s
      else CreateCast c ZExt v t s)"

definition CreateBitOrPointerCast ::
  "ctx \<Rightarrow> llvalue \<Rightarrow> lltype \<Rightarrow> 'a llvm_scheme \<Rightarrow> (llvalue \<times> 'a llvm_scheme) option" where
  "CreateBitOrPointerCast c v t s =
     (if getType v = t then Some (v, s)
      else if isPointerTy (getType v) \<and> isIntegerTy t then CreateCast c PtrToInt v t s
      else if isIntegerTy (getType v) \<and> isPointerTy t then CreateCast c IntToPtr v t s
      else CreateCast c BitCast v t s)"

definition CreateLoad ::
  "ctx \<Rightarrow> llvalue \<Rightarrow> 'a llvm_scheme \<Rightarrow> (llvalue \<times> 'a llvm_scheme) option" where
  "CreateLoad c p s = do {
     t \<leftarrow> getContainedType (getType p);
     Some (Insert c t (Load p) s)
   }"

definition CreateStore ::
  "ctx \<Rightarrow> llvalue \<Rightarrow> llvalue \<Rightarrow> 'a llvm_scheme \<Rightarrow> (llvalue \<times> 'a llvm_scheme) option" where
  "CreateStore c v p s = do {
     check (getType p = TPtr (getType v));
     Some (Insert c (TVoid (typeContext (getType v))) (Store v p) s)
   }"

definition CreateGEP ::
  "ctx \<Rightarrow> llvalue \<Rightarrow> llvalue option \<Rightarrow> 'a llvm_scheme \<Rightarrow> (llvalue \<times> 'a llvm_scheme) option" where
  "CreateGEP c p idx s = do {
     t \<leftarrow> getContainedType (getType p);
     check (isSized s t);
     i \<leftarrow> idx;
     Some (Insert c (TPtr t) (GEP p i) s)
   }"

definition CreateStructGEP ::
  "ctx \<Rightarrow> lltype \<Rightarrow> llvalue \<Rightarrow> nat \<Rightarrow> 'a llvm_scheme \<Rightarrow> (llvalue \<times> 'a llvm_scheme) option" where
  "CreateStructGEP c st p idx s = do {
     check (getType p = TPtr st);
     i \<leftarrow> (case st of TStruct c' i \<Rightarrow> Some i | _ \<Rightarrow> None);
     d \<leftarrow> structTys s i;
     body \<leftarrow> st_body d;
     check (idx < length body);
     Some (Insert c (TPtr (body ! idx)) (StructGEP p idx) s)
   }"

definition CreateCall ::
  "ctx \<Rightarrow> string \<Rightarrow> lfunction \<Rightarrow> llvalue list \<Rightarrow> 'a llvm_scheme \<Rightarrow>
     (llvalue \<times> 'a llvm_scheme) option" where
  "CreateCall c name f args s = do {
     check (map snd (fn_args f) = map getType args);
     Some (Insert c (fn_ret f) (Call name args) s)
   }"

definition CreateRet ::
  "ctx \<Rightarrow> llvalue option \<Rightarrow> 'a llvm_scheme \<Rightarrow> llvalue \<times> 'a llvm_scheme" where
  "CreateRet c v s = Insert c (TVoid c) (Ret v) s"

definition CreateBr :: "ctx \<Rightarrow> nat \<Rightarrow> 'a llvm_scheme \<Rightarrow> llvalue \<times> 'a llvm_scheme" where
  "CreateBr c b s = Insert c (TVoid c) (Br b) s"

definition CreateCondBr ::
  "ctx \<Rightarrow> llvalue \<Rightarrow> nat \<Rightarrow> nat \<Rightarrow> 'a llvm_scheme \<Rightarrow> (llvalue \<times> 'a llvm_scheme) option" where
  "CreateCondBr c v b b' s = do {
     check (isIntegerTy (getType v) \<and> getPrimitiveSizeInBits (getType v) = 1);
     Some (Insert c (TVoid c) (CondBr v b b') s)
   }"

end
