(* ===== verification/CG_State.thy ===== *)
theory CG_State
  imports Fork_AST LLVM_IR
begin

section \<open>The code generator: state and helpers (codeGenVisitor.h, codeGenVisitor.cpp 1--271)\<close>

text \<open>
  The fields of \<open>CodeGenVisitor\<close> extend the record of the LLVM objects it owns. A method that
  returns a pointer and may change the visitor is a function from the state to
  \<open>('a option \<times> cg) option\<close>: the outer \<open>None\<close> is an abort, the inner \<open>None\<close> the null pointer.

  \<open>mainContext\<close>/\<open>lambdaContext\<close>, the two builders and the two modules are selected by
  \<open>insideLambda\<close>; the model indexes the LLVM objects by the context they belong to.
  \<open>lambdaKeyword\<close> is \<open>None\<close> while the freshly allocated buffer has not been written.
  The first component of every pair in \<open>reconVector\<close> is a null pointer, so the vector is kept as
  the list of second components. \<open>marked\<close> logs the statements on which \<open>visitBlock\<close> has called
  \<open>setCommit(true)\<close>: the call mutates the tree, and nothing reads the flag afterwards.
  \<open>jitAddress\<close> stands for the addresses the JIT hands out, which the sources do not determine.
\<close>

subsection \<open>State\<close>

datatype Binops = BOP_PLUS | BOP_MINUS | BOP_MULT | BOP_DIV | BOP_GTE | BOP_LTE | BOP_LT
  | BOP_GT | BOP_NEQ | BOP_EQ | BOP_OR | BOP_AND

type_synonym fn_module = "(string \<times> lfunction) list"

record cg = llvm +
  lambdaNum :: nat
  insideLambda :: bool
  currCid :: "llvalue option"
  currId :: int
  executeCommit :: bool
  lambdaKeyword :: "string option"
  error :: bool
  justReturned :: bool
  recon :: bool
  reconVector :: "llvalue option list"
  lambdaJIT :: "(string \<times> fn_module) list"
  namedValues :: "(string, llvalue option) umap"
  structTypes :: "(string, lltype \<times> string list) umap"
  errLog :: "string list"
  outLog :: "string list"
  marked :: "statement list"
  jitAddress :: "string \<Rightarrow> int"

type_synonym 'a cgm = "cg \<Rightarrow> ('a option \<times> cg) option"
type_synonym visitor = "cg \<Rightarrow> (llvalue option \<times> cg) option"

definition CodeGenVisitor :: "(string \<Rightarrow> int) \<Rightarrow> cg" where
  "CodeGenVisitor addr = \<lparr>
     nextId = 0, bbs = Map.empty, modules = (\<lambda>c. []), insertPt = (\<lambda>c. None),
     structTys = Map.empty, structNames = (\<lambda>c. []), structUnique = (\<lambda>c. 0),
     lambdaNum = 0, insideLambda = False, currCid = None, currId = 0,
     executeCommit = True, lambdaKeyword = None, error = False, justReturned = False,
     recon = False, reconVector = [], lambdaJIT = [], namedValues = [], structTypes = [],
     errLog = [], outLog = [], marked = [], jitAddress = addr\<rparr>"

definition ErrorV :: "string \<Rightarrow> 'a cgm" where
  "ErrorV str st = Some (None, st\<lparr>error := True, errLog := errLog st @ [str]\<rparr>)"

definition switchMap :: "(string, Binops) umap" where
  "switchMap = [(''+'', BOP_PLUS), (''-'', BOP_MINUS), (''*'', BOP_MULT), (''/'', BOP_DIV),
     (''>='', BOP_GTE), (''<='', BOP_LTE), (''>'', BOP_GT), (''<'', BOP_LT),
     (''!='', BOP_NEQ), (''=='', BOP_EQ), (''||'', BOP_OR), (''&&'', BOP_AND)]"

subsection \<open>Selecting the context\<close>

definition getContext :: "cg \<Rightarrow> ctx" where
  "getContext st = (if insideLambda st then LambdaCtx else MainCtx)"

definition getBuilder :: "cg \<Rightarrow> ctx" where
  "getBuilder st = (if insideLambda st then LambdaCtx else MainCtx)"

definition getModule :: "cg \<Rightarrow> ctx" where
  "getModule st = (if insideLambda st then LambdaCtx else MainCtx)"

definition getVoidValue :: "cg \<Rightarrow> llvalue" where
  "getVoidValue st = (if insideLambda st then VoidValue LambdaCtx else VoidValue MainCtx)"

definition getIntNullPointer :: "cg \<Rightarrow> llvalue" where
  "getIntNullPointer st =
     (if insideLambda st then ConstantPointerNull (int64PtrTy LambdaCtx)
      else ConstantPointerNull (int64PtrTy MainCtx))"

definition getFloatNullPointer :: "cg \<Rightarrow> llvalue" where
  "getFloatNullPointer st =
     (if insideLambda st then ConstantPointerNull (doublePtrTy LambdaCtx)
      else ConstantPointerNull (doublePtrTy MainCtx))"

subsection \<open>Casts\<close>

definition castIntToFloat :: "llvalue \<Rightarrow> cg \<Rightarrow> (llvalue \<times> cg) option" where
  "castIntToFloat v st = CreateCast (getBuilder st) SIToFP v (TDouble (getBuilder st)) st"

definition castIntToBoolean :: "llvalue \<Rightarrow> cg \<Rightarrow> (llvalue \<times> cg) option" where
  "castIntToBoolean v st =
     CreateICmp (getBuilder st) ICMP_NE v (ConstantInt (int64Ty (getContext st)) 0) st"

definition castFloatToBoolean :: "llvalue \<Rightarrow> cg \<Rightarrow> (llvalue \<times> cg) option" where
  "castFloatToBoolean v st =
     CreateFCmp (getBuilder st) FCMP_ONE v (ConstantFP (TDouble (getContext st)) 0) st"

definition castBooleantoInt :: "llvalue \<Rightarrow> cg \<Rightarrow> (llvalue \<times> cg) option" where
  "castBooleantoInt v st = CreateZExtOrBitCast (getBuilder st) v (int64Ty (getBuilder st)) st"

definition castPointerToInt :: "llvalue \<Rightarrow> cg \<Rightarrow> (llvalue \<times> cg) option" where
  "castPointerToInt v st = CreateCast (getBuilder st) PtrToInt v (int64Ty (getBuilder st)) st"

definition castIntToPointer :: "llvalue \<Rightarrow> cg \<Rightarrow> (llvalue \<times> cg) option" where
  "castIntToPointer v st = CreateCast (getBuilder st) IntToPtr v (int64PtrTy (getContext st)) st"

definition getPointedType :: "llvalue \<Rightarrow> lltype option" where
  "getPointedType v = getContainedType (getType v)"

definition getAllocaType :: "llvalue \<Rightarrow> lltype option" where
  "getAllocaType v = (case v of Inst i t (Alloca t' n) \<Rightarrow> Some t' | _ \<Rightarrow> None)"

subsection \<open>Types by name\<close>

definition getNullPointer :: "string \<Rightarrow> llvalue cgm" where
  "getNullPointer typeName st =
     (case map_of (structTypes st) typeName of
        Some (tempStruct, flds) \<Rightarrow> Some (Some (ConstantPointerNull (TPtr tempStruct)), st)
      | None \<Rightarrow> ErrorV ''Attempt to create null pointer of undeclared struct type'' st)"

fun field_index :: "string \<Rightarrow> string list \<Rightarrow> nat option" where
  "field_index f [] = None"
| "field_index f (x # xs) = (if f = x then Some 0 else map_option Suc (field_index f xs))"

definition getStructField :: "string \<Rightarrow> string \<Rightarrow> llvalue \<Rightarrow> llvalue cgm" where
  "getStructField typeString fieldName var st =
     (case map_of (structTypes st) typeString of
        None \<Rightarrow> ErrorV ''Unable to access undeclared struct with dot operator'' st
      | Some (currStruct, flds) \<Rightarrow>
          (case field_index fieldName flds of
             None \<Rightarrow> ErrorV ''Unable to evaluate field that does not belong to struct'' st
           | Some index \<Rightarrow> do {
               (ld, st) \<leftarrow> CreateLoad (getBuilder st) var st;
               varptr \<leftarrow> getPointerOperand ld;
               (gep, st) \<leftarrow> CreateStructGEP (getBuilder st) currStruct varptr index st;
               (v, st) \<leftarrow> CreateLoad (getBuilder st) gep st;
               Some (Some v, st)
             }))"

definition getTypeFromString :: "string \<Rightarrow> bool \<Rightarrow> bool \<Rightarrow> lltype cgm" where
  "getTypeFromString typeName isPointer allowsVoid st =
     (if isPointer then
        (if typeName = ''float'' then Some (Some (doublePtrTy (getContext st)), st)
         else if typeName = ''int'' then Some (Some (int64PtrTy (getContext st)), st)
         else if typeName = ''void'' then Some (Some (int64PtrTy (getContext st)), st)
         else (case map_of (structTypes st) typeName of
             Some (tempStruct, flds) \<Rightarrow> Some (Some (TPtr tempStruct), st)
           | None \<Rightarrow> ErrorV ''Invalid pointer type detected'' st))
      else
        (if typeName = ''float'' then Some (Some (TDouble (getBuilder st)), st)
         else if typeName = ''int'' then Some (Some (int64Ty (getBuilder st)), st)
         else if typeName = ''void'' then
           (if allowsVoid then Some (Some (TVoid (getBuilder st)), st)
            else ErrorV ''Invalid type void detected'' st)
         else (case map_of (structTypes st) typeName of
             Some (tempStruct, flds) \<Rightarrow> Some (Some tempStruct, st)
           | None \<Rightarrow> ErrorV ''Invalid type detected'' st)))"

definition makeSched :: "lltype \<Rightarrow> llvalue cgm" where
  "makeSched type st =
     (if isIntegerTy type then Some (None, st\<lparr>lambdaKeyword := Some ''int''\<rparr>)
      else if isDoubleTy type then Some (None, st\<lparr>lambdaKeyword := Some ''float''\<rparr>)
      else ErrorV ''Not yet implemented closure assignment to pointer or struct types'' st)"

subsection \<open>Functions and stack variables\<close>

fun argTypes :: "variableDefinition list \<Rightarrow> lltype list cgm" where
  "argTypes [] st = Some (Some [], st)"
| "argTypes (a # as) st = do {
     (type, st) \<leftarrow> getTypeFromString (stringType a) (hasPointerType a) False st;
     (case type of
        None \<Rightarrow> ErrorV ''Invalid argument for function definition'' st
      | Some t \<Rightarrow> do {
          (ts, st) \<leftarrow> argTypes as st;
          Some (map_option ((#) t) ts, st)
        })
   }"

definition generateFunction ::
  "bool \<Rightarrow> string \<Rightarrow> string \<Rightarrow> variableDefinition list \<Rightarrow> lfunction cgm" where
  "generateFunction hasPtr returnType name arguments st = do {
     (inputArgs, st) \<leftarrow> argTypes arguments st;
     (case inputArgs of
        None \<Rightarrow> Some (None, st)
      | Some ts \<Rightarrow> do {
          (type, st) \<leftarrow> getTypeFromString returnType hasPtr True st;
          (case type of
             None \<Rightarrow> ErrorV ''Invalid return for function definition'' st
           | Some t \<Rightarrow> do {
               names \<leftarrow> setArgNames [] 0 (map vd_ident arguments);
               (f, st) \<leftarrow> Function_Create (getModule st) name t (zip names ts) st;
               Some (Some f, st)
             })
        })
   }"

definition createAlloca :: "ctx \<times> string \<Rightarrow> lltype \<Rightarrow> string \<Rightarrow> cg \<Rightarrow> (llvalue \<times> cg) option" where
  "createAlloca func type name st = CreateAlloca func type name st"

subsection \<open>Running and printing the result\<close>

text \<open>
  \<open>executeMain\<close> hands the module to the JIT only when no error was diagnosed, and asserts that
  the JIT finds \<open>main\<close>: \<open>findSymbol\<close> is the JIT's lookup, which also searches the process and
  is a parameter here. The boolean result tells whether the compiled program is called.
\<close>

definition executeMain :: "(fn_module \<Rightarrow> string \<Rightarrow> bool) \<Rightarrow> cg \<Rightarrow> (bool \<times> cg) option" where
  "executeMain findSymbol st =
     (if \<not> error st then do {
        check (findSymbol (modules st MainCtx) ''main'');
        Some (True, st\<lparr>modules := (modules st)(MainCtx := []),
          outLog := outLog st @ [''Executing main function...'', ''---> main() returns: void'']\<rparr>)
      }
      else Some (False, st\<lparr>outLog := outLog st @ [''Main execution halted due to errors'']\<rparr>))"

definition printModule :: "cg \<Rightarrow> string + fn_module" where
  "printModule st =
     (if \<not> error st then Inr (modules st MainCtx) else Inl ''IR dump prevented due to errors'')"

end
