(* ===== verification/CG_Expr.thy ===== *)
theory CG_Expr
  imports CG_State
begin

section \<open>Code generation for expressions (codeGenVisitor.cpp 288--504, 709--769, 1140--1210)\<close>

text \<open>
  One definition per \<open>visit\<close> method. A method that visits sub-expressions takes the visitors of
  those sub-expressions as arguments; \<open>visitExpr\<close> ties the knot along the tree and is the
  dynamic dispatch of \<open>acceptVisitor\<close>. Where C++ leaves the order of evaluation of two call
  arguments open, the model evaluates the left one first.
\<close>

definition someV :: "(llvalue \<times> cg) option \<Rightarrow> (llvalue option \<times> cg) option" where
  "someV m = map_option (\<lambda>(v, st). (Some v, st)) m"

text \<open>\<open>namedValues[name]\<close>: a missing key is created with a null pointer.\<close>

definition namedValue :: "string \<Rightarrow> cg \<Rightarrow> llvalue option \<times> cg" where
  "namedValue n st = (case map_of (namedValues st) n of
       Some v \<Rightarrow> (v, st)
     | None \<Rightarrow> (None, st\<lparr>namedValues := um_insert n None (namedValues st)\<rparr>))"

subsection \<open>Leaves\<close>

definition visitInteger :: "int64 \<Rightarrow> visitor" where
  "visitInteger value st = Some (Some (ConstantInt (int64Ty (getContext st)) (sint value)), st)"

definition visitFloat :: "double \<Rightarrow> visitor" where
  "visitFloat value st = Some (Some (ConstantFP (TDouble (getContext st)) value), st)"

definition visitIdentifier :: "string \<Rightarrow> visitor" where
  "visitIdentifier name st =
     (case namedValue name st of
        (None, st) \<Rightarrow>
          ErrorV ''Attempt to generate code for not previously defined variable'' st
      | (Some val, st) \<Rightarrow> someV (CreateLoad (getBuilder st) val st))"

definition visitNullLiteral :: visitor where
  "visitNullLiteral st = Some (None, st)"

subsection \<open>Unary operators\<close>

definition op_char :: "string \<Rightarrow> char" where
  "op_char op = (case op of [] \<Rightarrow> CHR 0x00 | c # cs \<Rightarrow> c)"

text \<open>A value whose integer or double type is not that of the current context is converted.\<close>

definition toInt64 :: "llvalue \<Rightarrow> cg \<Rightarrow> (llvalue \<times> cg) option" where
  "toInt64 v st = (if isIntegerTy (getType v) \<and> getType v \<noteq> int64Ty (getBuilder st)
     then castBooleantoInt v st else Some (v, st))"

definition toDouble :: "llvalue \<Rightarrow> cg \<Rightarrow> (llvalue \<times> cg) option" where
  "toDouble v st = (if isDoubleTy (getType v) \<and> getType v \<noteq> TDouble (getBuilder st)
     then CreateZExtOrBitCast (getBuilder st) v (TDouble (getBuilder st)) st else Some (v, st))"

definition unaryPointer :: "char \<Rightarrow> llvalue \<Rightarrow> visitor" where
  "unaryPointer op expr st = do {
     (expr, st) \<leftarrow> castPointerToInt expr st;
     (if op = CHR ''-'' then do {
        (m, st) \<leftarrow> CreateBinOp (getBuilder st) Mul
                    (ConstantInt (int64Ty (getContext st)) (- 1)) expr st;
        someV (castIntToPointer m st)
      }
      else if op = CHR ''!'' then do {
        (b, st) \<leftarrow> castIntToBoolean expr st;
        (n, st) \<leftarrow> CreateNot (getBuilder st) b st;
        (i, st) \<leftarrow> castBooleantoInt n st;
        someV (castIntToPointer i st)
      }
      else ErrorV ''Invalid unary operator found applied to pointer type'' st)
   }"

definition unaryFloat :: "char \<Rightarrow> llvalue \<Rightarrow> visitor" where
  "unaryFloat op expr st =
     (if op = CHR ''-'' then
        someV (CreateBinOp (getBuilder st) FMul
                 (ConstantFP (TDouble (getContext st)) 0xBFF0000000000000) expr st)
      else if op = CHR ''!'' then do {
        (b, st) \<leftarrow> castFloatToBoolean expr st;
        (n, st) \<leftarrow> CreateNot (getBuilder st) b st;
        someV (castBooleantoInt n st)
      }
      else ErrorV ''Invalid unary operator found applied to float type'' st)"

definition unaryInt :: "char \<Rightarrow> llvalue \<Rightarrow> visitor" where
  "unaryInt op expr st =
     (if op = CHR ''-'' then
        someV (CreateBinOp (getBuilder st) Mul
                 (ConstantInt (int64Ty (getContext st)) (- 1)) expr st)
      else if op = CHR ''!'' then do {
        (b, st) \<leftarrow> castIntToBoolean expr st;
        (n, st) \<leftarrow> CreateNot (getBuilder st) b st;
        someV (castBooleantoInt n st)
      }
      else ErrorV ''Invalid unary operator found applied to integer type'' st)"

definition visitUnaryOperator :: "string \<Rightarrow> visitor \<Rightarrow> visitor" where
  "visitUnaryOperator op vexp st = do {
     (e, st) \<leftarrow> vexp st;
     let expr = (case e of None \<Rightarrow> getIntNullPointer st | Some v \<Rightarrow> v);
     (expr, st) \<leftarrow> toInt64 expr st;
     (expr, st) \<leftarrow> toDouble expr st;
     (if isVoidTy (getType expr) then ErrorV ''Unary operator applied to void type'' st
      else if isPointerTy (getType expr) then unaryPointer (op_char op) expr st
      else if isDoubleTy (getType expr) then unaryFloat (op_char op) expr st
      else if isIntegerTy (getType expr) then unaryInt (op_char op) expr st
      else ErrorV ''Unable to evaluate unary operator applied to struct type'' st)
   }"

subsection \<open>Binary operators\<close>

fun binopArith :: "Binops \<Rightarrow> binop option" where
  "binopArith BOP_PLUS = Some Add" | "binopArith BOP_MINUS = Some Sub"
| "binopArith BOP_MULT = Some Mul" | "binopArith BOP_DIV = Some SDiv"
| "binopArith _ = None"

fun binopFloat :: "Binops \<Rightarrow> binop option" where
  "binopFloat BOP_PLUS = Some FAdd" | "binopFloat BOP_MINUS = Some FSub"
| "binopFloat BOP_MULT = Some FMul" | "binopFloat BOP_DIV = Some FDiv"
| "binopFloat _ = None"

fun binopICmp :: "Binops \<Rightarrow> icmp_pred option" where
  "binopICmp BOP_NEQ = Some ICMP_NE" | "binopICmp BOP_EQ = Some ICMP_EQ"
| "binopICmp BOP_GTE = Some ICMP_SGE" | "binopICmp BOP_LTE = Some ICMP_SLE"
| "binopICmp BOP_GT = Some ICMP_SGT" | "binopICmp BOP_LT = Some ICMP_SLT"
| "binopICmp _ = None"

fun binopFCmp :: "Binops \<Rightarrow> fcmp_pred option" where
  "binopFCmp BOP_NEQ = Some FCMP_ONE" | "binopFCmp BOP_EQ = Some FCMP_OEQ"
| "binopFCmp BOP_GTE = Some FCMP_OGE" | "binopFCmp BOP_LTE = Some FCMP_OLE"
| "binopFCmp BOP_GT = Some FCMP_OGT" | "binopFCmp BOP_LT = Some FCMP_OLT"
| "binopFCmp _ = None"

text \<open>\<open>||\<close> and \<open>&&\<close>: both operands become booleans and are combined bitwise.\<close>

definition logical :: "Binops \<Rightarrow> (llvalue \<Rightarrow> cg \<Rightarrow> (llvalue \<times> cg) option) \<Rightarrow>
    llvalue \<Rightarrow> llvalue \<Rightarrow> cg \<Rightarrow> (llvalue \<times> cg) option" where
  "logical bop toBool left right st = do {
     (l, st) \<leftarrow> toBool left st;
     (r, st) \<leftarrow> toBool right st;
     (if bop = BOP_OR then CreateOr (getBuilder st) l r st
      else CreateAnd (getBuilder st) l r st)
   }"

definition binaryPointer :: "Binops \<Rightarrow> llvalue \<Rightarrow> llvalue \<Rightarrow> visitor" where
  "binaryPointer bop left right st =
     (case binopArith bop of
        Some b \<Rightarrow> do {
          (v, st) \<leftarrow> CreateBinOp (getBuilder st) b left right st;
          someV (castIntToPointer v st)
        }
      | None \<Rightarrow>
          (case binopICmp bop of
             Some p \<Rightarrow> do {
               (c, st) \<leftarrow> CreateICmp (getBuilder st) p left right st;
               (i, st) \<leftarrow> castBooleantoInt c st;
               someV (castIntToPointer i st)
             }
           | None \<Rightarrow> do {
               (v, st) \<leftarrow> logical bop castIntToBoolean left right st;
               someV (castIntToPointer v st)
             }))"

definition binaryFloat :: "Binops \<Rightarrow> llvalue \<Rightarrow> llvalue \<Rightarrow> visitor" where
  "binaryFloat bop left right st =
     (case binopFloat bop of
        Some b \<Rightarrow> someV (CreateBinOp (getBuilder st) b left right st)
      | None \<Rightarrow>
          (case binopFCmp bop of
             Some p \<Rightarrow> do {
               (c, st) \<leftarrow> CreateFCmp (getBuilder st) p left right st;
               someV (castBooleantoInt c st)
             }
           | None \<Rightarrow> do {
               (v, st) \<leftarrow> logical bop castFloatToBoolean left right st;
               someV (castBooleantoInt v st)
             }))"

definition binaryInt :: "Binops \<Rightarrow> llvalue \<Rightarrow> llvalue \<Rightarrow> visitor" where
  "binaryInt bop left right st =
     (case binopArith bop of
        Some b \<Rightarrow> someV (CreateBinOp (getBuilder st) b left right st)
      | None \<Rightarrow>
          (case binopICmp bop of
             Some p \<Rightarrow> do {
               (c, st) \<leftarrow> CreateICmp (getBuilder st) p left right st;
               someV (castBooleantoInt c st)
             }
           | None \<Rightarrow> someV (logical bop castIntToBoolean left right st)))"

text \<open>The conversions before the operation is chosen (lines 380--397).\<close>

definition promoteOperands ::
  "llvalue \<Rightarrow> llvalue \<Rightarrow> cg \<Rightarrow> ((llvalue \<times> llvalue) \<times> cg) option" where
  "promoteOperands left right st = do {
     ((left, right), st) \<leftarrow>
       (if isIntegerTy (getType left) \<and> isDoubleTy (getType right) then do {
          (l, st) \<leftarrow> castIntToFloat left st;
          Some ((l, right), st)
        }
        else if isDoubleTy (getType left) \<and> isIntegerTy (getType right) then do {
          (r, st) \<leftarrow> castIntToFloat right st;
          Some ((left, r), st)
        }
        else Some ((left, right), st));
     (left, st) \<leftarrow> toInt64 left st;
     (right, st) \<leftarrow> toInt64 right st;
     (left, st) \<leftarrow> toDouble left st;
     (right, st) \<leftarrow> toDouble right st;
     Some ((left, right), st)
   }"

definition pointerOperands ::
  "llvalue \<Rightarrow> llvalue \<Rightarrow> cg \<Rightarrow> ((llvalue \<times> llvalue) \<times> cg) option" where
  "pointerOperands left right st = do {
     (left, st) \<leftarrow> (if isPointerTy (getType left)
        then castPointerToInt left (st\<lparr>outLog := outLog st @ [''i thought so...'']\<rparr>)
        else Some (left, st));
     (right, st) \<leftarrow> (if isPointerTy (getType right)
        then castPointerToInt right (st\<lparr>outLog := outLog st @ [''it was him!'']\<rparr>)
        else Some (right, st));
     Some ((left, right), st)
   }"

text \<open>The operation is chosen by the types of the converted operands (lines 399--503).\<close>

definition binaryDispatch :: "string \<Rightarrow> llvalue \<Rightarrow> llvalue \<Rightarrow> visitor" where
  "binaryDispatch op left right st =
     (if isPointerTy (getType left) \<or> isPointerTy (getType right) then do {
        ((left, right), st) \<leftarrow> pointerOperands left right st;
        (if getType left \<noteq> getType right
         then ErrorV ''Binary operator applied to pointer and incorrect non-integer type'' st
         else do {
           bop \<leftarrow> map_of switchMap op;
           binaryPointer bop left right st
         })
      }
      else if getType left = TDouble (getBuilder st) \<and> getType right = TDouble (getBuilder st)
      then do {
        bop \<leftarrow> map_of switchMap op;
        binaryFloat bop left right st
      }
      else if getType left = int64Ty (getBuilder st) \<and> getType right = int64Ty (getBuilder st)
      then do {
        bop \<leftarrow> map_of switchMap op;
        binaryInt bop left right st
      }
      else if isStructTy (getType left) \<or> isStructTy (getType right)
      then ErrorV ''Unable to evaluate binary operator applied to struct type'' st
      else ErrorV
        ''Unexpected type found for evaluated operand applied to binary operator'' st)"

definition visitBinaryOperator :: "visitor \<Rightarrow> string \<Rightarrow> visitor \<Rightarrow> visitor" where
  "visitBinaryOperator vleft op vright st = do {
     (l, st) \<leftarrow> vleft st;
     (r, st) \<leftarrow> vright st;
     let left = (case l of None \<Rightarrow> getIntNullPointer st | Some v \<Rightarrow> v);
     let right = (case r of None \<Rightarrow> getIntNullPointer st | Some v \<Rightarrow> v);
     (if isVoidTy (getType left) \<or> isVoidTy (getType right)
      then ErrorV ''Binary operator applied to void type'' st
      else do {
        ((left, right), st) \<leftarrow> promoteOperands left right st;
        binaryDispatch op left right st
      })
   }"

subsection \<open>Calls\<close>

text \<open>The null pointer passed for a NULL argument of parameter type \<open>t\<close> (lines 728--746).\<close>

definition nullArgument :: "lltype \<Rightarrow> llvalue cgm" where
  "nullArgument t st =
     (case getContainedType t of
        None \<Rightarrow> ErrorV ''Attempt to input NULL to function argument of incorrect type'' st
      | Some p \<Rightarrow>
          (if isIntegerTy p then Some (Some (getIntNullPointer st), st)
           else if isDoubleTy p then Some (Some (getFloatNullPointer st), st)
           else if isStructTy p then do {
             n \<leftarrow> getStructName p st;
             (v, st) \<leftarrow> getNullPointer n st;
             v \<leftarrow> v;
             Some (Some v, st)
           }
           else ErrorV
             ''Attempt to input NULL to function argument of incorrect pointer type'' st))"

text \<open>The conversion of an argument to its parameter's type (lines 747--760).\<close>

definition convertArgument :: "lltype \<Rightarrow> llvalue \<Rightarrow> llvalue cgm" where
  "convertArgument t v st =
     (if getType v = t then Some (Some v, st)
      else if isIntegerTy (getType v) \<and> isDoubleTy t then someV (castIntToFloat v st)
      else if isIntegerTy (getType v) \<and> isIntegerTy t
      then someV (CreateZExtOrBitCast (getBuilder st) v t st)
      else if isDoubleTy (getType v) \<and> isDoubleTy t
      then someV (CreateZExtOrBitCast (getBuilder st) v t st)
      else ErrorV ''Invalid type as input for function args'' st)"

fun evalArgs :: "lltype list \<Rightarrow> visitor list \<Rightarrow> llvalue list cgm" where
  "evalArgs ts [] st = Some (Some [], st)"
| "evalArgs [] (v # vs) st = None"
| "evalArgs (t # ts) (v # vs) st = do {
     (argument, st) \<leftarrow> v st;
     (argument, st) \<leftarrow>
       (case argument of None \<Rightarrow> nullArgument t st | Some a \<Rightarrow> Some (Some a, st));
     (case argument of
        None \<Rightarrow> Some (None, st)
      | Some a \<Rightarrow> do {
          (a, st) \<leftarrow> convertArgument t a st;
          (case a of
             None \<Rightarrow> Some (None, st)
           | Some a \<Rightarrow> do {
               (rest, st) \<leftarrow> evalArgs ts vs st;
               Some (map_option ((#) a) rest, st)
             })
        })
   }"

definition visitFunctionCall :: "string \<Rightarrow> visitor list \<Rightarrow> visitor" where
  "visitFunctionCall name vargs st = do {
     (func, st) \<leftarrow>
       (case getFunction (getModule st) name st of
          Some f \<Rightarrow> Some (Some f, st)
        | None \<Rightarrow>
            (if insideLambda st then do {
               mainFunc \<leftarrow> getFunction MainCtx name st;
               (f, st) \<leftarrow> Function_Create (getModule st) name (fn_ret mainFunc)
                           (map (\<lambda>(n, t). ([], t)) (fn_args mainFunc)) st;
               Some (Some f, st)
             }
             else ErrorV ''Unknown function reference'' st));
     (case func of
        None \<Rightarrow> Some (None, st)
      | Some f \<Rightarrow>
          (if length (fn_args f) \<noteq> length vargs
           then ErrorV ''Wrong number of arguments passed to function'' st
           else do {
             (argVector, st) \<leftarrow> evalArgs (map snd (fn_args f)) vargs st;
             (case argVector of
                None \<Rightarrow> Some (None, st)
              | Some args \<Rightarrow> someV (CreateCall (getBuilder st) name f args st))
           }))
   }"

subsection \<open>Pointers and structures\<close>

definition visitPointerExpression :: "string \<Rightarrow> visitor option \<Rightarrow> string option \<Rightarrow> visitor" where
  "visitPointerExpression ident voffset field st =
     (case namedValue ident st of
        (None, st) \<Rightarrow> ErrorV ''Unable to evaluate variable'' st
      | (Some var, st) \<Rightarrow>
          (case voffset of
             None \<Rightarrow> visitIdentifier ident st
           | Some voff \<Rightarrow> do {
               (offset, st) \<leftarrow> voff st;
               (case offset of
                  None \<Rightarrow> ErrorV ''Unable to evaluate offset for Pointer Expression'' st
                | Some off \<Rightarrow>
                    (if \<not> isIntegerTy (getType off)
                     then ErrorV ''Unable to access relative address as a non-integer type'' st
                     else do {
                       (varPtr, st) \<leftarrow> CreateLoad (getBuilder st) var st;
                       (gep, st) \<leftarrow> CreateGEP (getBuilder st) varPtr (Some off) st;
                       (derefVar, st) \<leftarrow> CreateLoad (getBuilder st) gep st;
                       (case field of
                          None \<Rightarrow> Some (Some derefVar, st)
                        | Some fieldName \<Rightarrow> do {
                            ptr \<leftarrow> getPointerOperand derefVar;
                            type \<leftarrow> getPointedType ptr;
                            (if isStructTy type then do {
                               typeString \<leftarrow> getStructName type st;
                               getStructField typeString fieldName ptr st
                             }
                             else ErrorV
                               ''Unable to use dot operator on dereferenced non-struct type'' st)
                          })
                     }))
             }))"

definition visitAddressOfExpression :: "string \<Rightarrow> visitor option \<Rightarrow> visitor" where
  "visitAddressOfExpression ident voffset st =
     (case namedValue ident st of
        (None, st) \<Rightarrow> ErrorV ''Unable to evaluate variable'' st
      | (Some var, st) \<Rightarrow>
          (case voffset of
             None \<Rightarrow> Some (Some var, st)
           | Some voff \<Rightarrow> do {
               (offset, st) \<leftarrow> voff st;
               (case offset of
                  None \<Rightarrow> ErrorV ''Unable to evaluate offset for Address Expression'' st
                | Some off \<Rightarrow>
                    (if \<not> isIntegerTy (getType off)
                     then ErrorV ''Unable to access relative address as a non-integer type'' st
                     else do {
                       (varPtr, st) \<leftarrow> CreateLoad (getBuilder st) var st;
                       someV (CreateGEP (getBuilder st) varPtr (Some off) st)
                     }))
             }))"

definition visitStructureExpression :: "string \<Rightarrow> string \<Rightarrow> visitor" where
  "visitStructureExpression ident fieldName st =
     (case namedValue ident st of
        (None, st) \<Rightarrow> ErrorV ''Unable to evaluate variable'' st
      | (Some var, st) \<Rightarrow> do {
          t \<leftarrow> getAllocaType var;
          (if \<not> isStructTy t then ErrorV ''Unable to use dot operator on non-struct type'' st
           else do {
             typeString \<leftarrow> getStructName t st;
             getStructField typeString fieldName var st
           })
        })"

subsection \<open>Dispatch\<close>

fun visitExpr :: "expression \<Rightarrow> visitor" where
  "visitExpr (Integer v) = visitInteger v"
| "visitExpr (Float d) = visitFloat d"
| "visitExpr (Identifier n) = visitIdentifier n"
| "visitExpr (UnaryOperator op e) = visitUnaryOperator op (visitExpr e)"
| "visitExpr (BinaryOperator l op r) = visitBinaryOperator (visitExpr l) op (visitExpr r)"
| "visitExpr (FunctionCall f args) = visitFunctionCall f (map visitExpr args)"
| "visitExpr NullLiteral = visitNullLiteral"
| "visitExpr (PointerExpression i off f) =
     visitPointerExpression i (map_option visitExpr off) f"
| "visitExpr (AddressOfExpression i off) = visitAddressOfExpression i (map_option visitExpr off)"
| "visitExpr (StructureExpression i f) = visitStructureExpression i f"

end
