(* ===== verification/LLVM_APInt.thy ===== *)
theory LLVM_APInt
  imports Fork_Prelude "HOL-Library.Signed_Division"
begin

unbundle bit_operations_syntax

section \<open>LLVM's integers of arbitrary width (APInt.h, APInt.cpp)\<close>

text \<open>
  The integers that LLVM's interpreter computes with, at the widths the compiler uses (1 and 64
  bits), for which an \<open>APInt\<close> is a single machine word: a width and a \<open>uint64_t\<close> whose bits above the
  width are kept clear. Widths beyond one word are not modelled and give \<open>None\<close>, as do failed
  assertions (different widths, a zero divisor). The theory shows that the operations at 64 bits are
  the ones of machine words, and that \<open>sdiv\<close>, which divides magnitudes and negates, rounds towards
  zero and wraps only for the smallest number divided by minus one.
\<close>

record apint =
  BitWidth :: nat
  VAL :: int64

subsection \<open>Construction\<close>

definition clearUnusedBits :: "apint \<Rightarrow> apint" where
  "clearUnusedBits a = (let wordBits = BitWidth a mod 64 in
     if wordBits = 0 then a
     else a\<lparr>VAL := VAL a AND drop_bit (64 - wordBits) (NOT 0)\<rparr>)"

definition APInt :: "nat \<Rightarrow> int64 \<Rightarrow> apint option" where
  "APInt numBits v = do {
     check (0 < numBits \<and> numBits \<le> 64);
     Some (clearUnusedBits \<lparr>BitWidth = numBits, VAL = v\<rparr>)
   }"

subsection \<open>Arithmetic\<close>

definition ap_add :: "apint \<Rightarrow> apint \<Rightarrow> apint option" where
  "ap_add a b = do { check (BitWidth a = BitWidth b); APInt (BitWidth a) (VAL a + VAL b) }"

definition ap_sub :: "apint \<Rightarrow> apint \<Rightarrow> apint option" where
  "ap_sub a b = do { check (BitWidth a = BitWidth b); APInt (BitWidth a) (VAL a - VAL b) }"

definition ap_mul :: "apint \<Rightarrow> apint \<Rightarrow> apint option" where
  "ap_mul a b = do { check (BitWidth a = BitWidth b); APInt (BitWidth a) (VAL a * VAL b) }"

definition ap_and :: "apint \<Rightarrow> apint \<Rightarrow> apint option" where
  "ap_and a b = do { check (BitWidth a = BitWidth b); APInt (BitWidth a) (VAL a AND VAL b) }"

definition ap_or :: "apint \<Rightarrow> apint \<Rightarrow> apint option" where
  "ap_or a b = do { check (BitWidth a = BitWidth b); APInt (BitWidth a) (VAL a OR VAL b) }"

definition ap_xor :: "apint \<Rightarrow> apint \<Rightarrow> apint option" where
  "ap_xor a b = do { check (BitWidth a = BitWidth b); APInt (BitWidth a) (VAL a XOR VAL b) }"

definition ap_neg :: "apint \<Rightarrow> apint option" where
  "ap_neg a = do { z \<leftarrow> APInt (BitWidth a) 0; ap_sub z a }"

definition isNegative :: "apint \<Rightarrow> bool" where
  "isNegative a = bit (VAL a) (BitWidth a - 1)"

definition ap_udiv :: "apint \<Rightarrow> apint \<Rightarrow> apint option" where
  "ap_udiv a b = do {
     check (BitWidth a = BitWidth b);
     check (VAL b \<noteq> 0);
     APInt (BitWidth a) (VAL a div VAL b)
   }"

definition ap_sdiv :: "apint \<Rightarrow> apint \<Rightarrow> apint option" where
  "ap_sdiv a b =
     (if isNegative a then
        (if isNegative b then do { x \<leftarrow> ap_neg a; y \<leftarrow> ap_neg b; ap_udiv x y }
         else do { x \<leftarrow> ap_neg a; q \<leftarrow> ap_udiv x b; ap_neg q })
      else if isNegative b then do { y \<leftarrow> ap_neg b; q \<leftarrow> ap_udiv a y; ap_neg q }
      else ap_udiv a b)"

subsection \<open>Comparison and resizing\<close>

definition ap_eq :: "apint \<Rightarrow> apint \<Rightarrow> bool option" where
  "ap_eq a b = do { check (BitWidth a = BitWidth b); Some (VAL a = VAL b) }"

definition ap_ne :: "apint \<Rightarrow> apint \<Rightarrow> bool option" where
  "ap_ne a b = map_option Not (ap_eq a b)"

text \<open>\<open>(int64_t(VAL) << (64-BitWidth)) >> (64-BitWidth)\<close>\<close>

definition ap_sext :: "apint \<Rightarrow> int64" where
  "ap_sext a = signed_drop_bit (64 - BitWidth a) (push_bit (64 - BitWidth a) (VAL a))"

definition ap_slt :: "apint \<Rightarrow> apint \<Rightarrow> bool option" where
  "ap_slt a b = do { check (BitWidth a = BitWidth b); Some (sint (ap_sext a) < sint (ap_sext b)) }"

definition ap_sgt :: "apint \<Rightarrow> apint \<Rightarrow> bool option" where
  "ap_sgt a b = do { l \<leftarrow> ap_slt a b; e \<leftarrow> ap_eq a b; Some (\<not> l \<and> \<not> e) }"

definition ap_sle :: "apint \<Rightarrow> apint \<Rightarrow> bool option" where
  "ap_sle a b = do { l \<leftarrow> ap_slt a b; e \<leftarrow> ap_eq a b; Some (l \<or> e) }"

definition ap_sge :: "apint \<Rightarrow> apint \<Rightarrow> bool option" where
  "ap_sge a b = map_option Not (ap_slt a b)"

definition ap_zext :: "nat \<Rightarrow> apint \<Rightarrow> apint option" where
  "ap_zext width a = do { check (width > BitWidth a); APInt width (VAL a) }"

definition ap_zextOrTrunc :: "nat \<Rightarrow> apint \<Rightarrow> apint option" where
  "ap_zextOrTrunc width a =
     (if BitWidth a < width then ap_zext width a
      else if BitWidth a > width then APInt width (VAL a)
      else Some a)"

lemmas apint_defs = ap_add_def ap_sub_def ap_mul_def ap_and_def ap_or_def ap_xor_def ap_neg_def
  ap_udiv_def ap_eq_def ap_ne_def ap_slt_def ap_sgt_def ap_sle_def ap_sge_def ap_zext_def

subsection \<open>The two widths of the compiler\<close>

abbreviation i64 :: "int64 \<Rightarrow> apint" where "i64 w \<equiv> \<lparr>BitWidth = 64, VAL = w\<rparr>"

definition i1 :: "bool \<Rightarrow> apint" where
  "i1 b = \<lparr>BitWidth = 1, VAL = of_bool b\<rparr>"

lemma i1_fields [simp]: "BitWidth (i1 b) = Suc 0" "VAL (i1 b) = of_bool b"
  by (simp_all add: i1_def)

lemma i1_eq_iff [simp]: "i1 p = i1 q \<longleftrightarrow> p = q"
  by (simp add: i1_def)

lemma APInt_64 [simp]: "APInt 64 v = Some (i64 v)"
  by (simp add: APInt_def clearUnusedBits_def)

lemma APInt_1 [simp]: "APInt (Suc 0) v = Some (i1 (odd v))"
proof -
  have "drop_bit 63 (NOT 0 :: int64) = 1"
    by (simp add: bit_eq_iff bit_simps)
  then show ?thesis
    by (simp add: APInt_def clearUnusedBits_def and_one_eq mod_2_eq_odd i1_def)
qed

lemma ap_sext_64 [simp]: "ap_sext (i64 w) = w"
  by (simp add: ap_sext_def)

lemma ap_compare_64 [simp]:
  "ap_eq (i64 a) (i64 b) = Some (a = b)" "ap_ne (i64 a) (i64 b) = Some (a \<noteq> b)"
  "ap_slt (i64 a) (i64 b) = Some (sint a < sint b)" "ap_sge (i64 a) (i64 b) = Some (sint b \<le> sint a)"
  by (auto simp: apint_defs not_less)

lemma sint_eq_iff: "sint a = sint b \<longleftrightarrow> a = (b :: int64)"
proof
  assume "sint a = sint b"
  then have "uint a = uint b" by (simp add: uint_sint)
  then show "a = b" by (simp add: word_uint_eq_iff)
qed simp

lemma ap_compare_more_64 [simp]:
  "ap_sgt (i64 a) (i64 b) = Some (sint b < sint a)" "ap_sle (i64 a) (i64 b) = Some (sint a \<le> sint b)"
  by (auto simp: ap_sgt_def ap_sle_def simp flip: sint_eq_iff)

lemma ap_arith_64 [simp]:
  "ap_add (i64 a) (i64 b) = Some (i64 (a + b))" "ap_sub (i64 a) (i64 b) = Some (i64 (a - b))"
  "ap_mul (i64 a) (i64 b) = Some (i64 (a * b))"
  by (simp_all add: apint_defs)

lemma ap_logic_1 [simp]:
  "ap_and (i1 p) (i1 q) = Some (i1 (p \<and> q))" "ap_or (i1 p) (i1 q) = Some (i1 (p \<or> q))"
  "ap_xor (i1 p) (i1 q) = Some (i1 (p \<noteq> q))" "ap_zext 64 (i1 p) = Some (i64 (of_bool p))"
  by (cases p; cases q; simp add: apint_defs)+

subsection \<open>Signed division\<close>

lemma isNegative_64: "isNegative (i64 w) \<longleftrightarrow> sint w < 0"
  using bit_last_iff [of w] by (simp add: isNegative_def)

lemma uint_nonneg: "0 \<le> sint w \<Longrightarrow> uint w = sint (w :: int64)"
  using sint_lt [of w] by (simp add: uint_sint take_bit_int_eq_self)

lemma uint_neg: "sint w < 0 \<Longrightarrow> uint (- w) = - sint (w :: int64)"
proof -
  assume a: "sint w < 0"
  have "- w = word_of_int (- sint w)" by simp
  then have "uint (- w) = uint (word_of_int (- sint w) :: int64)" by (rule arg_cong)
  also have "\<dots> = take_bit 64 (- sint w)" by (simp only: uint_word_of_int_eq len_num0 len_bit0 len_num1) simp
  also have "\<dots> = - sint w" using a sint_ge [of w] by (simp add: take_bit_int_eq_self)
  finally show ?thesis .
qed

lemma ap_neg_64: "ap_neg (i64 w) = Some (i64 (- w))"
  by (simp add: ap_neg_def ap_sub_def)

lemma ap_udiv_64: "ap_udiv (i64 a) (i64 b) = (if b = 0 then None else Some (i64 (word_of_int (uint a div uint b))))"
  by (simp only: ap_udiv_def word_div_def) (simp add: check_def)

lemma ap_sdiv_64:
  "ap_sdiv (i64 a) (i64 b) =
     (if b = 0 then None else Some (i64 (word_of_int (sint a sdiv sint b))))"
proof -
  have z: "0 < sint b" if "b \<noteq> 0" "\<not> sint b < 0"
    using that uint_nonneg [of b] uint_0_iff [of b] by linarith
  show ?thesis
  proof (cases "sint a < 0")
    case True
    then show ?thesis
      using z by (cases "sint b < 0") (simp_all add: ap_sdiv_def isNegative_64 ap_neg_64 ap_udiv_64 uint_neg uint_nonneg signed_divide_int_def wi_hom_neg del: of_int_minus)
  next
    case False
    then show ?thesis
      using z by (cases "sint b < 0"; cases "sint a = 0") (simp_all add: ap_sdiv_def isNegative_64 ap_neg_64 ap_udiv_64 uint_neg uint_nonneg signed_divide_int_def wi_hom_neg del: of_int_minus)
  qed
qed

lemma sdiv_range:
  fixes a b :: int64
  assumes "b \<noteq> 0" and "\<not> (sint a = - (2 ^ 63) \<and> sint b = - 1)"
  shows "- (2 ^ 63) \<le> sint a sdiv sint b" and "sint a sdiv sint b < 2 ^ 63"
proof -
  have b: "sint b \<noteq> 0" using assms(1) sint_eq_iff [of b 0] by simp
  have a: "- (2 ^ 63) \<le> sint a" "sint a < 2 ^ 63" using sint_ge [of a] sint_lt [of a] by simp_all
  define q where "q = \<bar>sint a\<bar> div \<bar>sint b\<bar>"
  have q0: "0 \<le> q" "q \<le> \<bar>sint a\<bar>"
    using b zdiv_mono2 [of "\<bar>sint a\<bar>" 1 "\<bar>sint b\<bar>"] by (simp_all add: q_def pos_imp_zdiv_nonneg_iff)
  have sdiv: "sint a sdiv sint b = sgn (sint a) * sgn (sint b) * q" by (simp add: signed_divide_int_def q_def abs_mult)
  have cases: "sgn (sint a) * sgn (sint b) \<in> {-1, 0, 1}" by (auto simp: sgn_if)
  then show "- (2 ^ 63) \<le> sint a sdiv sint b" using q0 a unfolding sdiv by auto
  show "sint a sdiv sint b < 2 ^ 63"
  proof (cases "sint a = - (2 ^ 63)")
    case False
    then show ?thesis using q0 a cases unfolding sdiv by auto
  next
    case True
    then have "sint b \<noteq> - 1" using assms(2) by simp
    show ?thesis
    proof (cases "0 < sint b")
      case True
      then have "sgn (sint a) * sgn (sint b) = -1" using \<open>sint a = - (2 ^ 63)\<close> by simp
      then show ?thesis using q0 unfolding sdiv by simp
    next
      case False
      then have "2 \<le> \<bar>sint b\<bar>" using b \<open>sint b \<noteq> - 1\<close> by linarith
      then have "q \<le> \<bar>sint a\<bar> div 2" unfolding q_def by (simp add: zdiv_mono2)
      then show ?thesis using True q0 cases unfolding sdiv by auto
    qed
  qed
qed

text \<open>
  Claim C28. The interpreter's division of 64-bit integers, which divides magnitudes and
  negates, has no result exactly for a zero divisor; the result is the quotient rounded towards zero, except
  that the smallest number divided by minus one wraps around to itself.
\<close>

theorem signed_division_rounds_to_zero:
  "if b = 0 then ap_sdiv (i64 a) (i64 b) = None
   else \<exists>q. ap_sdiv (i64 a) (i64 b) = Some (i64 q) \<and>
     (if sint a = - (2 ^ 63) \<and> sint b = - 1 then q = a else sint q = sint a sdiv sint b)"
proof -
  have "word_of_int (sint a sdiv sint b) = a" if "sint a = - (2 ^ 63)" "sint b = - 1"
  proof -
    have "sint a sdiv sint b = - sint a" using that by (simp add: signed_divide_int_def)
    moreover have "- sint a = sint a + 2 ^ 64" using that by simp
    ultimately show ?thesis by (simp add: of_int_add)
  qed
  moreover have "sint (word_of_int (sint a sdiv sint b) :: int64) = sint a sdiv sint b"
    if "b \<noteq> 0" "\<not> (sint a = - (2 ^ 63) \<and> sint b = - 1)"
    using sdiv_range [OF that] by (simp add: sint_sbintrunc' signed_take_bit_int_eq_self)
  ultimately show ?thesis by (simp add: ap_sdiv_64)
qed

end
