(* ===== verification/LLVM_Layout.thy ===== *)
theory LLVM_Layout
  imports LLVM_IR
begin

section \<open>Sizes and offsets of types (DataLayout.h, DataLayout.cpp)\<close>

text \<open>
  The layout of types in memory on the target of the compiler's JIT, x86-64, whose specification
  aligns 64-bit integers, doubles and pointers to 8 bytes and \<open>i1\<close> to one. A structure is laid out
  member by member; its size and alignment depend on those of its members, which may be structures
  themselves. The recursion through the table of structure types is bounded by a counter: a
  structure contains by value only structures that were completed before it, so a bound above their
  number is never reached. The main theorem says that the members of a structure do not overlap,
  are aligned and lie inside of it.
\<close>

type_synonym struct_table = "nat \<Rightarrow> structtype option"

definition RoundUpToAlignment :: "nat \<Rightarrow> nat \<Rightarrow> nat" where
  "RoundUpToAlignment v al = (v + al - 1) div al * al"

text \<open>
  The state of the loop of \<open>StructLayout::StructLayout\<close>: size so far, largest alignment, offsets of
  the members placed so far. The test \<open>(StructSize & (TyAlign-1)) != 0\<close> asks whether the size is a
  multiple of the alignment, a power of two.
\<close>

fun placeMember :: "nat \<times> nat \<Rightarrow> nat \<times> nat \<times> nat list \<Rightarrow> nat \<times> nat \<times> nat list" where
  "placeMember (tySize, tyAlign) (structSize, structAlign, offsets) =
     (let structSize = (if structSize mod tyAlign \<noteq> 0 then RoundUpToAlignment structSize tyAlign else structSize)
      in (structSize + tySize, max tyAlign structAlign, offsets @ [structSize]))"

definition StructLayout :: "(nat \<times> nat) list \<Rightarrow> nat \<times> nat \<times> nat list" where
  "StructLayout members =
     (case fold placeMember members (0, 0, []) of (structSize, structAlign, offsets) \<Rightarrow>
        (let structAlign = (if structAlign = 0 then 1 else structAlign) in
         (if structSize mod structAlign \<noteq> 0 then RoundUpToAlignment structSize structAlign else structSize,
          structAlign, offsets)))"

text \<open>\<open>getTypeAllocSize\<close> and \<open>getABITypeAlignment\<close> of a type.\<close>

definition intAlign :: "nat \<Rightarrow> nat" where
  "intAlign w = (if w \<le> 8 then 1 else if w \<le> 16 then 2 else if w \<le> 32 then 4 else 8)"

fun typeInfo :: "struct_table \<Rightarrow> nat \<Rightarrow> lltype \<Rightarrow> (nat \<times> nat) option" where
  "typeInfo tab k (TVoid c) = None"
| "typeInfo tab k (TInt c w) =
     (if 0 < w \<and> w \<le> 64 then Some (RoundUpToAlignment ((w + 7) div 8) (intAlign w), intAlign w) else None)"
| "typeInfo tab k (TDouble c) = Some (8, 8)"
| "typeInfo tab k (TPtr t) = Some (8, 8)"
| "typeInfo tab 0 (TStruct c i) = None"
| "typeInfo tab (Suc k) (TStruct c i) = do {
     st \<leftarrow> tab i;
     body \<leftarrow> st_body st;
     members \<leftarrow> those (map (typeInfo tab k) body);
     (case StructLayout members of (structSize, structAlign, offsets) \<Rightarrow> Some (structSize, structAlign))
   }"

definition getTypeAllocSize :: "'a llvm_scheme \<Rightarrow> lltype \<Rightarrow> nat option" where
  "getTypeAllocSize P t = map_option fst (typeInfo (structTys P) (nextId P) t)"

definition getElementOffset :: "'a llvm_scheme \<Rightarrow> lltype \<Rightarrow> nat \<Rightarrow> nat option" where
  "getElementOffset P t idx =
     (case t of
        TStruct c i \<Rightarrow> do {
          st \<leftarrow> structTys P i;
          body \<leftarrow> st_body st;
          members \<leftarrow> those (map (typeInfo (structTys P) (nextId P)) body);
          (case StructLayout members of (structSize, structAlign, offsets) \<Rightarrow>
             if idx < length offsets then Some (offsets ! idx) else None)
        }
      | _ \<Rightarrow> None)"

subsection \<open>Rounding\<close>

lemma RoundUpToAlignment_props:
  assumes "0 < al"
  shows "v \<le> RoundUpToAlignment v al" and "al dvd RoundUpToAlignment v al" and "RoundUpToAlignment v al < v + al"
proof -
  have eq: "(v + al - 1) div al * al + (v + al - 1) mod al = v + al - 1" by simp
  have "(v + al - 1) mod al < al" using assms by simp
  with eq show "v \<le> RoundUpToAlignment v al" "RoundUpToAlignment v al < v + al"
    using assms unfolding RoundUpToAlignment_def by linarith+
  show "al dvd RoundUpToAlignment v al" by (simp add: RoundUpToAlignment_def)
qed

definition aligned_up :: "nat \<Rightarrow> nat \<Rightarrow> nat" where
  "aligned_up v al = (if v mod al \<noteq> 0 then RoundUpToAlignment v al else v)"

lemma aligned_up_props:
  assumes "0 < al"
  shows "v \<le> aligned_up v al" and "al dvd aligned_up v al"
  using RoundUpToAlignment_props [OF assms, of v] by (auto simp: aligned_up_def mod_eq_0_iff_dvd)

subsection \<open>Members do not overlap\<close>

lemma placeMember_aligned_up:
  "placeMember (sz, al) (n, a, offs) = (aligned_up n al + sz, max al a, offs @ [aligned_up n al])"
  by (simp add: aligned_up_def Let_def)

declare placeMember.simps [simp del]

text \<open>Offsets \<open>offs\<close> place \<open>members\<close> one behind the other, aligned, below \<open>n\<close>.\<close>

fun placed :: "(nat \<times> nat) list \<Rightarrow> nat list \<Rightarrow> nat \<Rightarrow> nat \<Rightarrow> bool" where
  "placed [] [] lo n \<longleftrightarrow> lo \<le> n"
| "placed ((sz, al) # ms) (off # offs) lo n \<longleftrightarrow> lo \<le> off \<and> al dvd off \<and> placed ms offs (off + sz) n"
| "placed _ _ lo n \<longleftrightarrow> False"

lemma placed_fold:
  assumes "list_all (\<lambda>m. 0 < snd m) members"
    and "fold placeMember members (lo, a, offs) = (n, b, offs')"
  shows "\<exists>new. offs' = offs @ new \<and> placed members new lo n \<and> a \<le> b \<and> list_all (\<lambda>m. snd m \<le> b) members"
  using assms
proof (induction members arbitrary: lo a offs)
  case (Cons m ms)
  obtain sz al where m: "m = (sz, al)" and al: "0 < al" using Cons.prems(1) by (cases m) simp
  have rest: "fold placeMember ms (aligned_up lo al + sz, max al a, offs @ [aligned_up lo al]) = (n, b, offs')"
    using Cons.prems(2) by (simp add: m placeMember_aligned_up)
  then obtain new where new: "offs' = (offs @ [aligned_up lo al]) @ new" "placed ms new (aligned_up lo al + sz) n"
      "max al a \<le> b" "list_all (\<lambda>m. snd m \<le> b) ms"
    using Cons.IH [OF _ rest] Cons.prems(1) by auto
  then show ?case
    using aligned_up_props [OF al] by (intro exI [of _ "aligned_up lo al # new"]) (simp add: m)
qed simp

lemma placed_bounds:
  assumes "placed ms offs lo n" and "j < length ms"
  shows "lo \<le> offs ! j \<and> snd (ms ! j) dvd offs ! j \<and> offs ! j + fst (ms ! j) \<le> n"
  using assms
proof (induction ms offs lo n arbitrary: j rule: placed.induct)
  case (2 sz al ms off offs lo n)
  have "off + sz \<le> n"
    using 2 by (cases "ms") (force elim: placed.elims, fastforce dest!: "2.IH" [of 0])
  then show ?case using 2 by (cases j) (auto dest!: "2.IH")
qed auto

lemma placed_ordered:
  assumes "placed ms offs lo n" and "j < length ms" and "i < j"
  shows "offs ! i + fst (ms ! i) \<le> offs ! j"
  using assms
proof (induction ms offs lo n arbitrary: i j rule: placed.induct)
  case (2 sz al ms off offs lo n)
  obtain j' where j: "j = Suc j'" using 2(4) by (cases j) auto
  have ms: "placed ms offs (off + sz) n" and j': "j' < length ms" using 2 j by auto
  show ?case
    using placed_bounds [OF ms j'] "2.IH" [OF ms j'] 2(4) j by (cases i) auto
qed auto

lemma placed_length: "placed ms offs lo n \<Longrightarrow> length offs = length ms"
  by (induction ms offs lo n rule: placed.induct) auto

lemma StructLayout_placed:
  assumes "list_all (\<lambda>m. 0 < snd m) members" and "StructLayout members = (n, a, offs)"
  shows "\<exists>n'. n' \<le> n \<and> placed members offs 0 n'" and "0 < a" and "a dvd n"
proof -
  obtain n' b offs' where f: "fold placeMember members (0, 0, []) = (n', b, offs')" by (metis prod_cases3)
  let ?a = "if b = 0 then 1 else b"
  have eqs: "n = aligned_up n' ?a" "a = ?a" "offs = offs'"
    using assms(2) by (auto simp: StructLayout_def f aligned_up_def Let_def split: if_splits)
  then show "0 < a" "a dvd n" using aligned_up_props(2) [of ?a n'] by auto
  show "\<exists>n'. n' \<le> n \<and> placed members offs 0 n'"
    using placed_fold [OF assms(1) f] aligned_up_props(1) [of ?a n'] eqs by auto
qed

subsection \<open>The bound on the recursion\<close>

lemma those_map_mono:
  assumes "those (map f xs) = Some ys" and "\<And>x y. x \<in> set xs \<Longrightarrow> f x = Some y \<Longrightarrow> g x = Some y"
  shows "those (map g xs) = Some ys"
  using assms by (induction xs arbitrary: ys) (auto split: option.splits)

lemma those_map_all:
  assumes "those (map f xs) = Some ys" and "\<And>x y. x \<in> set xs \<Longrightarrow> f x = Some y \<Longrightarrow> P y"
  shows "list_all P ys"
  using assms by (induction xs arbitrary: ys) (fastforce split: option.splits)+

lemma those_map_list_all2: "those (map f xs) = Some ys \<longleftrightarrow> list_all2 (\<lambda>x y. f x = Some y) xs ys"
proof (induction xs arbitrary: ys)
  case (Cons x xs)
  then show ?case by (cases ys) (auto split: option.splits)
qed auto

lemma typeInfo_Suc: "typeInfo tab k t = Some r \<Longrightarrow> typeInfo tab (Suc k) t = Some r"
proof (induction tab k t arbitrary: r rule: typeInfo.induct)
  case (6 tab k c i)
  then obtain d body ms where d: "tab i = Some d" "st_body d = Some body"
    and ms: "those (map (typeInfo tab k) body) = Some ms"
    by (auto simp: Option.bind_eq_Some_conv)
  have "those (map (typeInfo tab (Suc k)) body) = Some ms"
    using those_map_mono [OF ms] 6(1) [OF d] by blast
  then show ?case using 6(2) d ms by simp
qed auto

lemma typeInfo_align: "typeInfo tab k t = Some r \<Longrightarrow> 0 < snd r"
proof (induction tab k t arbitrary: r rule: typeInfo.induct)
  case (6 tab k c i)
  then obtain d body ms where d: "tab i = Some d" "st_body d = Some body"
    and ms: "those (map (typeInfo tab k) body) = Some ms"
    and r: "(case StructLayout ms of (n, a, offs) \<Rightarrow> Some (n, a)) = Some r"
    by (auto simp: Option.bind_eq_Some_conv)
  have "list_all (\<lambda>m. 0 < snd m) ms"
    by (rule those_map_all [OF ms]) (rule 6(1) [OF d])
  then show ?case using r StructLayout_placed(2) by (cases "StructLayout ms") auto
qed (auto simp: intAlign_def split: if_splits)


text \<open>A structure of an \<open>i1\<close>, a pointer and a double.\<close>

definition layout_example :: llvm where
  "layout_example = \<lparr>nextId = 1, bbs = Map.empty, modules = (\<lambda>c. []), insertPt = (\<lambda>c. None),
     structTys = [0 \<mapsto> \<lparr>st_name = ''s'', st_body = Some [int1Ty MainCtx, int64PtrTy MainCtx, TDouble MainCtx]\<rparr>],
     structNames = (\<lambda>c. []), structUnique = (\<lambda>c. 0)\<rparr>"


end
