(* ===== verification/LLVM_Interp.thy ===== *)
theory LLVM_Interp
  imports LLVM_APInt LLVM_Layout
begin

section \<open>The meaning of the emitted code: LLVM's interpreter (Execution.cpp, ExecutionEngine.cpp)\<close>

text \<open>
  LLVM defines the meaning of its intermediate code a second time beside the code generators, by
  the interpreter of \<open>lib/ExecutionEngine/Interpreter\<close>. This theory translates it for the
  instructions the compiler emits. Scalar values only: the compiler creates no vectors, and values of
  structure type are left out (the interpreter itself ignores a store and rejects a load of one).

  A \<open>GenericValue\<close> has a union of eight bytes, read as a pointer or as a double, and an \<open>APInt\<close>. Memory
  maps the allocated addresses to bytes; an access outside of it is \<open>None\<close>, as is a failed assertion.
  What the interpreter takes from the machine is a parameter, the record \<open>host\<close>: \<open>malloc\<close> and \<open>free\<close>, the
  arithmetic on doubles, and the functions that are only declared in the module, which act on memory
  and on a state of their own.
\<close>

subsection \<open>Values, memory and the machine\<close>

record genericvalue =
  Untyped :: int64
  IntVal :: apint

abbreviation DoubleVal :: "genericvalue \<Rightarrow> double" where "DoubleVal \<equiv> Untyped"
abbreviation PointerVal :: "genericvalue \<Rightarrow> int64" where "PointerVal \<equiv> Untyped"

definition GenericValue :: genericvalue where
  "GenericValue = \<lparr>Untyped = 0, IntVal = i1 False\<rparr>"

definition int_gv :: "apint \<Rightarrow> genericvalue" where
  "int_gv a = GenericValue\<lparr>IntVal := a\<rparr>"

definition PTOGV :: "int64 \<Rightarrow> genericvalue" where
  "PTOGV p = GenericValue\<lparr>Untyped := p\<rparr>"

type_synonym memory = "int64 \<Rightarrow> 8 word option"

record 'w host =
  h_malloc :: "nat \<Rightarrow> memory \<Rightarrow> int64 \<times> memory"
  h_free :: "int64 \<Rightarrow> memory \<Rightarrow> memory"
  h_external :: "string \<Rightarrow> genericvalue list \<Rightarrow> memory \<Rightarrow> 'w \<Rightarrow> (genericvalue \<times> memory \<times> 'w) option"
  f_add :: "double \<Rightarrow> double \<Rightarrow> double"
  f_sub :: "double \<Rightarrow> double \<Rightarrow> double"
  f_mul :: "double \<Rightarrow> double \<Rightarrow> double"
  f_div :: "double \<Rightarrow> double \<Rightarrow> double"
  f_eq :: "double \<Rightarrow> double \<Rightarrow> bool"
  f_lt :: "double \<Rightarrow> double \<Rightarrow> bool"
  f_le :: "double \<Rightarrow> double \<Rightarrow> bool"
  f_of_int :: "int64 \<Rightarrow> double"

subsection \<open>Loads and stores (ExecutionEngine.cpp)\<close>

fun bytes_of :: "nat \<Rightarrow> int64 \<Rightarrow> 8 word list" where
  "bytes_of 0 v = []"
| "bytes_of (Suc n) v = ucast v # bytes_of n (drop_bit 8 v)"

fun word_of_bytes :: "8 word list \<Rightarrow> int64" where
  "word_of_bytes [] = 0"
| "word_of_bytes (b # bs) = ucast b OR push_bit 8 (word_of_bytes bs)"

fun write_bytes :: "int64 \<Rightarrow> 8 word list \<Rightarrow> memory \<Rightarrow> memory option" where
  "write_bytes p [] m = Some m"
| "write_bytes p (b # bs) m = do { check (m p \<noteq> None); write_bytes (p + 1) bs (m(p \<mapsto> b)) }"

fun read_bytes :: "int64 \<Rightarrow> nat \<Rightarrow> memory \<Rightarrow> 8 word list option" where
  "read_bytes p 0 m = Some []"
| "read_bytes p (Suc n) m = do { b \<leftarrow> m p; bs \<leftarrow> read_bytes (p + 1) n m; Some (b # bs) }"

definition StoreIntToMemory :: "apint \<Rightarrow> int64 \<Rightarrow> nat \<Rightarrow> memory \<Rightarrow> memory option" where
  "StoreIntToMemory iv p storeBytes m = do {
     check (storeBytes \<le> (BitWidth iv + 7) div 8);
     write_bytes p (bytes_of storeBytes (VAL iv)) m
   }"

definition LoadIntFromMemory :: "apint \<Rightarrow> int64 \<Rightarrow> nat \<Rightarrow> memory \<Rightarrow> apint option" where
  "LoadIntFromMemory iv p loadBytes m = do {
     check (loadBytes \<le> (BitWidth iv + 7) div 8);
     bs \<leftarrow> read_bytes p loadBytes m;
     Some (iv\<lparr>VAL := word_of_bytes bs\<rparr>)
   }"

definition StoreValueToMemory :: "genericvalue \<Rightarrow> int64 \<Rightarrow> lltype \<Rightarrow> memory \<Rightarrow> memory option" where
  "StoreValueToMemory v p t m =
     (case t of
        TInt c w \<Rightarrow> StoreIntToMemory (IntVal v) p ((w + 7) div 8) m
      | TDouble c \<Rightarrow> write_bytes p (bytes_of 8 (DoubleVal v)) m
      | TPtr t' \<Rightarrow> write_bytes p (bytes_of 8 (PointerVal v)) m
      | _ \<Rightarrow> Some m)"

definition LoadValueFromMemory :: "int64 \<Rightarrow> lltype \<Rightarrow> memory \<Rightarrow> genericvalue option" where
  "LoadValueFromMemory p t m =
     (case t of
        TInt c w \<Rightarrow> do {
          z \<leftarrow> APInt w 0;
          iv \<leftarrow> LoadIntFromMemory z p ((w + 7) div 8) m;
          Some (int_gv iv)
        }
      | TDouble c \<Rightarrow> do { bs \<leftarrow> read_bytes p 8 m; Some (GenericValue\<lparr>Untyped := word_of_bytes bs\<rparr>) }
      | TPtr t' \<Rightarrow> do { bs \<leftarrow> read_bytes p 8 m; Some (GenericValue\<lparr>Untyped := word_of_bytes bs\<rparr>) }
      | _ \<Rightarrow> None)"

definition getConstantValue :: "llvalue \<Rightarrow> genericvalue option" where
  "getConstantValue c =
     (case c of
        ConstantInt (TInt x w) i \<Rightarrow> do { iv \<leftarrow> APInt w (word_of_int i); Some (int_gv iv) }
      | ConstantFP t d \<Rightarrow> Some (GenericValue\<lparr>Untyped := d\<rparr>)
      | ConstantPointerNull t \<Rightarrow> Some (PTOGV 0)
      | ConstantAggregateZero t \<Rightarrow> Some GenericValue
      | VoidValue x \<Rightarrow> Some GenericValue
      | _ \<Rightarrow> None)"

subsection \<open>Frames (Interpreter.h)\<close>

datatype vkey = KInst nat | KArg string nat

record ExecutionContext =
  CurFunction :: "ctx \<times> string"
  CurBB :: nat
  CurInst :: nat
  Caller :: "(nat \<times> lltype) option"
  Values :: "vkey \<Rightarrow> genericvalue option"
  Allocas :: "int64 list"

record 'w interp =
  ECStack :: "ExecutionContext list"
  ExitValue :: genericvalue
  mem :: memory
  world :: 'w

definition SetValue :: "vkey \<Rightarrow> genericvalue \<Rightarrow> ExecutionContext \<Rightarrow> ExecutionContext" where
  "SetValue k v SF = SF\<lparr>Values := (Values SF)(k \<mapsto> v)\<rparr>"

text \<open>\<open>SF.Values[V]\<close> creates a default value for a missing key.\<close>

definition lookupValue :: "vkey \<Rightarrow> ExecutionContext \<Rightarrow> genericvalue" where
  "lookupValue k SF = (case Values SF k of Some v \<Rightarrow> v | None \<Rightarrow> GenericValue)"

definition getOperandValue :: "llvalue \<Rightarrow> ExecutionContext \<Rightarrow> genericvalue option" where
  "getOperandValue v SF =
     (case v of
        Inst i t ins \<Rightarrow> Some (lookupValue (KInst i) SF)
      | Argument f i t \<Rightarrow> Some (lookupValue (KArg f i) SF)
      | c \<Rightarrow> getConstantValue c)"

subsection \<open>Operators\<close>

definition executeFAddInst :: "'w host \<Rightarrow> genericvalue \<Rightarrow> genericvalue \<Rightarrow> genericvalue" where
  "executeFAddInst H a b = GenericValue\<lparr>Untyped := f_add H (DoubleVal a) (DoubleVal b)\<rparr>"

definition executeFSubInst :: "'w host \<Rightarrow> genericvalue \<Rightarrow> genericvalue \<Rightarrow> genericvalue" where
  "executeFSubInst H a b = GenericValue\<lparr>Untyped := f_sub H (DoubleVal a) (DoubleVal b)\<rparr>"

definition executeFMulInst :: "'w host \<Rightarrow> genericvalue \<Rightarrow> genericvalue \<Rightarrow> genericvalue" where
  "executeFMulInst H a b = GenericValue\<lparr>Untyped := f_mul H (DoubleVal a) (DoubleVal b)\<rparr>"

definition executeFDivInst :: "'w host \<Rightarrow> genericvalue \<Rightarrow> genericvalue \<Rightarrow> genericvalue" where
  "executeFDivInst H a b = GenericValue\<lparr>Untyped := f_div H (DoubleVal a) (DoubleVal b)\<rparr>"

fun executeBinary :: "'w host \<Rightarrow> binop \<Rightarrow> lltype \<Rightarrow> genericvalue \<Rightarrow> genericvalue \<Rightarrow> genericvalue option" where
  "executeBinary H Add t a b = map_option int_gv (ap_add (IntVal a) (IntVal b))"
| "executeBinary H Sub t a b = map_option int_gv (ap_sub (IntVal a) (IntVal b))"
| "executeBinary H Mul t a b = map_option int_gv (ap_mul (IntVal a) (IntVal b))"
| "executeBinary H SDiv t a b = map_option int_gv (ap_sdiv (IntVal a) (IntVal b))"
| "executeBinary H And t a b = map_option int_gv (ap_and (IntVal a) (IntVal b))"
| "executeBinary H Or t a b = map_option int_gv (ap_or (IntVal a) (IntVal b))"
| "executeBinary H Xor t a b = map_option int_gv (ap_xor (IntVal a) (IntVal b))"
| "executeBinary H FAdd t a b = do { check (isDoubleTy t); Some (executeFAddInst H a b) }"
| "executeBinary H FSub t a b = do { check (isDoubleTy t); Some (executeFSubInst H a b) }"
| "executeBinary H FMul t a b = do { check (isDoubleTy t); Some (executeFMulInst H a b) }"
| "executeBinary H FDiv t a b = do { check (isDoubleTy t); Some (executeFDivInst H a b) }"

text \<open>Integers are compared by \<open>APInt\<close>, pointers as unsigned addresses.\<close>

definition icmpResult :: "(apint \<Rightarrow> apint \<Rightarrow> bool option) \<Rightarrow> (int64 \<Rightarrow> int64 \<Rightarrow> bool) \<Rightarrow> lltype \<Rightarrow>
    genericvalue \<Rightarrow> genericvalue \<Rightarrow> genericvalue option" where
  "icmpResult iop pop t a b =
     (case t of
        TInt c w \<Rightarrow> map_option (\<lambda>r. int_gv (i1 r)) (iop (IntVal a) (IntVal b))
      | TPtr t' \<Rightarrow> Some (int_gv (i1 (pop (PointerVal a) (PointerVal b))))
      | _ \<Rightarrow> None)"

definition executeICMP_EQ :: "lltype \<Rightarrow> genericvalue \<Rightarrow> genericvalue \<Rightarrow> genericvalue option" where
  "executeICMP_EQ = icmpResult ap_eq (=)"

definition executeICMP_NE :: "lltype \<Rightarrow> genericvalue \<Rightarrow> genericvalue \<Rightarrow> genericvalue option" where
  "executeICMP_NE = icmpResult ap_ne (\<noteq>)"

definition executeICMP_SLT :: "lltype \<Rightarrow> genericvalue \<Rightarrow> genericvalue \<Rightarrow> genericvalue option" where
  "executeICMP_SLT = icmpResult ap_slt (<)"

definition executeICMP_SGT :: "lltype \<Rightarrow> genericvalue \<Rightarrow> genericvalue \<Rightarrow> genericvalue option" where
  "executeICMP_SGT = icmpResult ap_sgt (>)"

definition executeICMP_SLE :: "lltype \<Rightarrow> genericvalue \<Rightarrow> genericvalue \<Rightarrow> genericvalue option" where
  "executeICMP_SLE = icmpResult ap_sle (\<le>)"

definition executeICMP_SGE :: "lltype \<Rightarrow> genericvalue \<Rightarrow> genericvalue \<Rightarrow> genericvalue option" where
  "executeICMP_SGE = icmpResult ap_sge (\<ge>)"

fun executeICmp :: "icmp_pred \<Rightarrow> lltype \<Rightarrow> genericvalue \<Rightarrow> genericvalue \<Rightarrow> genericvalue option" where
  "executeICmp ICMP_EQ = executeICMP_EQ" | "executeICmp ICMP_NE = executeICMP_NE"
| "executeICmp ICMP_SLT = executeICMP_SLT" | "executeICmp ICMP_SGT = executeICMP_SGT"
| "executeICmp ICMP_SLE = executeICMP_SLE" | "executeICmp ICMP_SGE = executeICMP_SGE"

text \<open>The C++ comparisons of doubles; \<open>!=\<close> is the negation of \<open>==\<close>, \<open>>\<close> and \<open>>=\<close> swap the operands.\<close>

definition fcmpResult :: "(double \<Rightarrow> double \<Rightarrow> bool) \<Rightarrow> lltype \<Rightarrow> genericvalue \<Rightarrow> genericvalue \<Rightarrow> genericvalue option" where
  "fcmpResult fop t a b =
     (if isDoubleTy t then Some (int_gv (i1 (fop (DoubleVal a) (DoubleVal b)))) else None)"

definition executeFCMP_OEQ :: "'w host \<Rightarrow> lltype \<Rightarrow> genericvalue \<Rightarrow> genericvalue \<Rightarrow> genericvalue option" where
  "executeFCMP_OEQ H = fcmpResult (f_eq H)"

definition executeFCMP_ONE :: "'w host \<Rightarrow> lltype \<Rightarrow> genericvalue \<Rightarrow> genericvalue \<Rightarrow> genericvalue option" where
  "executeFCMP_ONE H t a b =
     (if \<not> f_eq H (DoubleVal a) (DoubleVal a) \<or> \<not> f_eq H (DoubleVal b) (DoubleVal b)
      then Some (int_gv (i1 False)) else fcmpResult (\<lambda>x y. \<not> f_eq H x y) t a b)"

definition executeFCMP_OLE :: "'w host \<Rightarrow> lltype \<Rightarrow> genericvalue \<Rightarrow> genericvalue \<Rightarrow> genericvalue option" where
  "executeFCMP_OLE H = fcmpResult (f_le H)"

definition executeFCMP_OGE :: "'w host \<Rightarrow> lltype \<Rightarrow> genericvalue \<Rightarrow> genericvalue \<Rightarrow> genericvalue option" where
  "executeFCMP_OGE H = fcmpResult (\<lambda>x y. f_le H y x)"

definition executeFCMP_OLT :: "'w host \<Rightarrow> lltype \<Rightarrow> genericvalue \<Rightarrow> genericvalue \<Rightarrow> genericvalue option" where
  "executeFCMP_OLT H = fcmpResult (f_lt H)"

definition executeFCMP_OGT :: "'w host \<Rightarrow> lltype \<Rightarrow> genericvalue \<Rightarrow> genericvalue \<Rightarrow> genericvalue option" where
  "executeFCMP_OGT H = fcmpResult (\<lambda>x y. f_lt H y x)"

fun executeFCmp :: "'w host \<Rightarrow> fcmp_pred \<Rightarrow> lltype \<Rightarrow> genericvalue \<Rightarrow> genericvalue \<Rightarrow> genericvalue option" where
  "executeFCmp H FCMP_OEQ = executeFCMP_OEQ H" | "executeFCmp H FCMP_ONE = executeFCMP_ONE H"
| "executeFCmp H FCMP_OLT = executeFCMP_OLT H" | "executeFCmp H FCMP_OGT = executeFCMP_OGT H"
| "executeFCmp H FCMP_OLE = executeFCMP_OLE H" | "executeFCmp H FCMP_OGE = executeFCMP_OGE H"

subsection \<open>Conversions\<close>

definition executeZExtInst :: "lltype \<Rightarrow> genericvalue \<Rightarrow> genericvalue option" where
  "executeZExtInst dst v = (case dst of TInt c w \<Rightarrow> map_option int_gv (ap_zext w (IntVal v)) | _ \<Rightarrow> None)"

text \<open>\<open>APInt::roundToDouble(true)\<close> of a single word.\<close>

definition roundToDouble :: "'w host \<Rightarrow> apint \<Rightarrow> double" where
  "roundToDouble H a = f_of_int H (ap_sext a)"

definition executeSIToFPInst :: "'w host \<Rightarrow> lltype \<Rightarrow> genericvalue \<Rightarrow> genericvalue option" where
  "executeSIToFPInst H dst v =
     (if isDoubleTy dst then Some (GenericValue\<lparr>Untyped := roundToDouble H (IntVal v)\<rparr>) else None)"

definition executePtrToIntInst :: "lltype \<Rightarrow> genericvalue \<Rightarrow> genericvalue option" where
  "executePtrToIntInst dst v =
     (case dst of TInt c w \<Rightarrow> map_option int_gv (APInt w (PointerVal v)) | _ \<Rightarrow> None)"

definition executeIntToPtrInst :: "lltype \<Rightarrow> genericvalue \<Rightarrow> genericvalue option" where
  "executeIntToPtrInst dst v = do {
     check (isPointerTy dst);
     iv \<leftarrow> (if BitWidth (IntVal v) \<noteq> 64 then ap_zextOrTrunc 64 (IntVal v) else Some (IntVal v));
     Some (PTOGV (VAL iv))
   }"

definition executeBitCastInst :: "lltype \<Rightarrow> lltype \<Rightarrow> genericvalue \<Rightarrow> genericvalue option" where
  "executeBitCastInst src dst v =
     (case dst of
        TPtr t \<Rightarrow> if isPointerTy src then Some (PTOGV (PointerVal v)) else None
      | TInt c w \<Rightarrow>
          if isDoubleTy src then map_option int_gv (APInt 64 (DoubleVal v))
          else if isIntegerTy src then Some (int_gv (IntVal v))
          else None
      | TDouble c \<Rightarrow>
          if isIntegerTy src then Some (GenericValue\<lparr>Untyped := VAL (IntVal v)\<rparr>)
          else Some (GenericValue\<lparr>Untyped := DoubleVal v\<rparr>)
      | _ \<Rightarrow> None)"

fun executeCast :: "'w host \<Rightarrow> castop \<Rightarrow> lltype \<Rightarrow> lltype \<Rightarrow> genericvalue \<Rightarrow> genericvalue option" where
  "executeCast H ZExt src dst v = executeZExtInst dst v"
| "executeCast H SIToFP src dst v = executeSIToFPInst H dst v"
| "executeCast H PtrToInt src dst v = executePtrToIntInst dst v"
| "executeCast H IntToPtr src dst v = executeIntToPtrInst dst v"
| "executeCast H BitCast src dst v = executeBitCastInst src dst v"

subsection \<open>Instructions that stay in the current frame\<close>

definition i_visitBinaryOperator :: "'w host \<Rightarrow> nat \<Rightarrow> binop \<Rightarrow> llvalue \<Rightarrow> llvalue \<Rightarrow>
    ExecutionContext \<Rightarrow> ExecutionContext option" where
  "i_visitBinaryOperator H i op l r SF = do {
     src1 \<leftarrow> getOperandValue l SF;
     src2 \<leftarrow> getOperandValue r SF;
     R \<leftarrow> executeBinary H op (getType l) src1 src2;
     Some (SetValue (KInst i) R SF)
   }"

definition i_visitICmpInst :: "nat \<Rightarrow> icmp_pred \<Rightarrow> llvalue \<Rightarrow> llvalue \<Rightarrow>
    ExecutionContext \<Rightarrow> ExecutionContext option" where
  "i_visitICmpInst i p l r SF = do {
     src1 \<leftarrow> getOperandValue l SF;
     src2 \<leftarrow> getOperandValue r SF;
     R \<leftarrow> executeICmp p (getType l) src1 src2;
     Some (SetValue (KInst i) R SF)
   }"

definition i_visitFCmpInst :: "'w host \<Rightarrow> nat \<Rightarrow> fcmp_pred \<Rightarrow> llvalue \<Rightarrow> llvalue \<Rightarrow>
    ExecutionContext \<Rightarrow> ExecutionContext option" where
  "i_visitFCmpInst H i p l r SF = do {
     src1 \<leftarrow> getOperandValue l SF;
     src2 \<leftarrow> getOperandValue r SF;
     R \<leftarrow> executeFCmp H p (getType l) src1 src2;
     Some (SetValue (KInst i) R SF)
   }"

definition i_visitCastInst :: "'w host \<Rightarrow> nat \<Rightarrow> castop \<Rightarrow> llvalue \<Rightarrow> lltype \<Rightarrow>
    ExecutionContext \<Rightarrow> ExecutionContext option" where
  "i_visitCastInst H i op v t SF = do {
     src \<leftarrow> getOperandValue v SF;
     R \<leftarrow> executeCast H op (getType v) t src;
     Some (SetValue (KInst i) R SF)
   }"

definition i_visitAllocaInst :: "'w host \<Rightarrow> 'a llvm_scheme \<Rightarrow> nat \<Rightarrow> lltype \<Rightarrow>
    ExecutionContext \<times> memory \<Rightarrow> (ExecutionContext \<times> memory) option" where
  "i_visitAllocaInst H P i t s = (case s of (SF, m) \<Rightarrow> do {
     typeSize \<leftarrow> getTypeAllocSize P t;
     let memToAlloc = max 1 (typeSize mod 2 ^ 32);
     let (p, m) = h_malloc H memToAlloc m;
     check (p \<noteq> 0);
     let SF = SetValue (KInst i) (PTOGV p) SF;
     Some (SF\<lparr>Allocas := Allocas SF @ [p]\<rparr>, m)
   })"

text \<open>
  \<open>executeGEPOperation\<close>: with one index, which must be 64 bits wide; and with the indices 0 and \<open>k\<close> that
  \<open>CreateStructGEP\<close> emits.
\<close>

definition i_visitGEP :: "'a llvm_scheme \<Rightarrow> nat \<Rightarrow> llvalue \<Rightarrow> llvalue \<Rightarrow>
    ExecutionContext \<Rightarrow> ExecutionContext option" where
  "i_visitGEP P i p idx SF = do {
     t \<leftarrow> getContainedType (getType p);
     idxGV \<leftarrow> getOperandValue idx SF;
     check (isIntegerTy (getType idx) \<and> getPrimitiveSizeInBits (getType idx) = 64);
     sz \<leftarrow> getTypeAllocSize P t;
     ptr \<leftarrow> getOperandValue p SF;
     Some (SetValue (KInst i) (PTOGV (PointerVal ptr + of_nat sz * VAL (IntVal idxGV))) SF)
   }"

definition i_visitStructGEP :: "'a llvm_scheme \<Rightarrow> nat \<Rightarrow> llvalue \<Rightarrow> nat \<Rightarrow>
    ExecutionContext \<Rightarrow> ExecutionContext option" where
  "i_visitStructGEP P i p k SF = do {
     t \<leftarrow> getContainedType (getType p);
     off \<leftarrow> getElementOffset P t k;
     ptr \<leftarrow> getOperandValue p SF;
     Some (SetValue (KInst i) (PTOGV (PointerVal ptr + of_nat off)) SF)
   }"

definition i_visitLoadInst :: "nat \<Rightarrow> lltype \<Rightarrow> llvalue \<Rightarrow>
    ExecutionContext \<times> memory \<Rightarrow> (ExecutionContext \<times> memory) option" where
  "i_visitLoadInst i t p s = (case s of (SF, m) \<Rightarrow> do {
     src \<leftarrow> getOperandValue p SF;
     R \<leftarrow> LoadValueFromMemory (PointerVal src) t m;
     Some (SetValue (KInst i) R SF, m)
   })"

definition i_visitStoreInst :: "llvalue \<Rightarrow> llvalue \<Rightarrow>
    ExecutionContext \<times> memory \<Rightarrow> (ExecutionContext \<times> memory) option" where
  "i_visitStoreInst v p s = (case s of (SF, m) \<Rightarrow> do {
     val \<leftarrow> getOperandValue v SF;
     src \<leftarrow> getOperandValue p SF;
     m \<leftarrow> StoreValueToMemory val (PointerVal src) (getType v) m;
     Some (SF, m)
   })"

definition in_frame :: "(ExecutionContext \<Rightarrow> ExecutionContext option) \<Rightarrow>
    ExecutionContext \<times> memory \<Rightarrow> (ExecutionContext \<times> memory) option" where
  "in_frame f s = map_option (\<lambda>SF. (SF, snd s)) (f (fst s))"

fun is_local :: "instr \<Rightarrow> bool" where
  "is_local (Call f args) = False"
| "is_local ins = (\<not> is_terminator ins)"

fun visitLocal :: "'w host \<Rightarrow> 'a llvm_scheme \<Rightarrow> llvalue \<Rightarrow>
    ExecutionContext \<times> memory \<Rightarrow> (ExecutionContext \<times> memory) option" where
  "visitLocal H P (Inst i t (Alloca t' n)) s = i_visitAllocaInst H P i t' s"
| "visitLocal H P (Inst i t (Load p)) s = i_visitLoadInst i t p s"
| "visitLocal H P (Inst i t (Store v p)) s = i_visitStoreInst v p s"
| "visitLocal H P (Inst i t (BinOp op l r)) s = in_frame (i_visitBinaryOperator H i op l r) s"
| "visitLocal H P (Inst i t (ICmp p l r)) s = in_frame (i_visitICmpInst i p l r) s"
| "visitLocal H P (Inst i t (FCmp p l r)) s = in_frame (i_visitFCmpInst H i p l r) s"
| "visitLocal H P (Inst i t (Cast op v t')) s = in_frame (i_visitCastInst H i op v t') s"
| "visitLocal H P (Inst i t (GEP p idx)) s = in_frame (i_visitGEP P i p idx) s"
| "visitLocal H P (Inst i t (StructGEP p k)) s = in_frame (i_visitStructGEP P i p k) s"
| "visitLocal H P _ s = None"

subsection \<open>Control\<close>

definition SwitchToNewBasicBlock :: "nat \<Rightarrow> ExecutionContext \<Rightarrow> ExecutionContext" where
  "SwitchToNewBasicBlock dest SF = SF\<lparr>CurBB := dest, CurInst := 0\<rparr>"

definition i_visitBranchInst :: "(llvalue \<times> nat) option \<Rightarrow> nat \<Rightarrow> ExecutionContext \<Rightarrow> ExecutionContext option" where
  "i_visitBranchInst cond succ0 SF =
     (case cond of
        None \<Rightarrow> Some (SwitchToNewBasicBlock succ0 SF)
      | Some (c, succ1) \<Rightarrow> do {
          v \<leftarrow> getOperandValue c SF;
          Some (SwitchToNewBasicBlock (if VAL (IntVal v) = 0 then succ1 else succ0) SF)
        })"

text \<open>Popping a frame frees its allocations.\<close>

definition popStackAndReturnValueToCaller :: "'w host \<Rightarrow> lltype \<Rightarrow> genericvalue \<Rightarrow> 'w interp \<Rightarrow> 'w interp option" where
  "popStackAndReturnValueToCaller H retTy result s =
     (case ECStack s of
        [] \<Rightarrow> None
      | SF # frames \<Rightarrow>
          let s = s\<lparr>mem := fold (h_free H) (Allocas SF) (mem s)\<rparr> in
          (case frames of
             [] \<Rightarrow> Some (s\<lparr>ECStack := [],
                     ExitValue := (if \<not> isVoidTy retTy then result else (ExitValue s)\<lparr>Untyped := 0\<rparr>)\<rparr>)
           | callingSF # rest \<Rightarrow>
               (case Caller callingSF of
                  None \<Rightarrow> Some (s\<lparr>ECStack := callingSF # rest\<rparr>)
                | Some (i, t) \<Rightarrow>
                    let sf = (if \<not> isVoidTy t then SetValue (KInst i) result callingSF else callingSF)
                    in Some (s\<lparr>ECStack := sf\<lparr>Caller := None\<rparr> # rest\<rparr>))))"

definition i_visitReturnInst :: "'w host \<Rightarrow> llvalue option \<Rightarrow> 'w interp \<Rightarrow> 'w interp option" where
  "i_visitReturnInst H v s =
     (case ECStack s of
        [] \<Rightarrow> None
      | SF # frames \<Rightarrow>
          (case v of
             None \<Rightarrow> popStackAndReturnValueToCaller H (TVoid MainCtx) GenericValue s
           | Some r \<Rightarrow> do {
               result \<leftarrow> getOperandValue r SF;
               popStackAndReturnValueToCaller H (getType r) result s
             }))"

definition callFunction :: "'w host \<Rightarrow> 'a llvm_scheme \<Rightarrow> ctx \<times> string \<Rightarrow> genericvalue list \<Rightarrow>
    'w interp \<Rightarrow> 'w interp option" where
  "callFunction H P f args s = do {
     F \<leftarrow> getFunction (fst f) (snd f) P;
     let frame = \<lparr>CurFunction = f, CurBB = 0, CurInst = 0, Caller = None, Values = Map.empty, Allocas = []\<rparr>;
     (case fn_blocks F of
        [] \<Rightarrow> do {
          (result, m, w) \<leftarrow> h_external H (snd f) args (mem s) (world s);
          popStackAndReturnValueToCaller H (fn_ret F) result
            (s\<lparr>ECStack := frame # ECStack s, mem := m, world := w\<rparr>)
        }
      | b # bs \<Rightarrow> do {
          check (length args = length (fn_args F));
          Some (s\<lparr>ECStack := frame\<lparr>CurBB := b,
            Values := map_of (map (\<lambda>(k, v). (KArg (snd f) k, v)) (enumerate 0 args))\<rparr> # ECStack s\<rparr>)
        })
   }"

definition i_visitCallSite :: "'w host \<Rightarrow> 'a llvm_scheme \<Rightarrow> nat \<Rightarrow> lltype \<Rightarrow> string \<Rightarrow> llvalue list \<Rightarrow>
    'w interp \<Rightarrow> 'w interp option" where
  "i_visitCallSite H P i t name args s =
     (case ECStack s of
        [] \<Rightarrow> None
      | SF # frames \<Rightarrow> do {
          let SF = SF\<lparr>Caller := Some (i, t)\<rparr>;
          argVals \<leftarrow> those (map (\<lambda>a. getOperandValue a SF) args);
          callFunction H P (fst (CurFunction SF), name) argVals (s\<lparr>ECStack := SF # frames\<rparr>)
        })"

fun i_visit :: "'w host \<Rightarrow> 'a llvm_scheme \<Rightarrow> llvalue \<Rightarrow> 'w interp \<Rightarrow> 'w interp option" where
  "i_visit H P (Inst i t (Call name args)) s = i_visitCallSite H P i t name args s"
| "i_visit H P (Inst i t (Ret v)) s = i_visitReturnInst H v s"
| "i_visit H P (Inst i t (Br b)) s =
     (case ECStack s of [] \<Rightarrow> None | SF # fs \<Rightarrow>
        map_option (\<lambda>sf. s\<lparr>ECStack := sf # fs\<rparr>) (i_visitBranchInst None b SF))"
| "i_visit H P (Inst i t (CondBr c b b')) s =
     (case ECStack s of [] \<Rightarrow> None | SF # fs \<Rightarrow>
        map_option (\<lambda>sf. s\<lparr>ECStack := sf # fs\<rparr>) (i_visitBranchInst (Some (c, b')) b SF))"
| "i_visit H P I s =
     (case ECStack s of [] \<Rightarrow> None | SF # fs \<Rightarrow>
        map_option (\<lambda>(sf, m). s\<lparr>ECStack := sf # fs, mem := m\<rparr>) (visitLocal H P I (SF, mem s)))"

text \<open>
  One turn of the loop of \<open>run\<close>: fetch, advance the program counter, execute. Running off the end of a
  block is undefined. The loop itself takes a bound on the number of turns; \<open>None\<close> when it is
  exceeded.
\<close>

definition i_step :: "'w host \<Rightarrow> 'a llvm_scheme \<Rightarrow> 'w interp \<Rightarrow> 'w interp option" where
  "i_step H P s =
     (case ECStack s of
        [] \<Rightarrow> None
      | SF # fs \<Rightarrow> do {
          bb \<leftarrow> bbs P (CurBB SF);
          check (CurInst SF < length (bb_insts bb));
          i_visit H P (bb_insts bb ! CurInst SF) (s\<lparr>ECStack := SF\<lparr>CurInst := Suc (CurInst SF)\<rparr> # fs\<rparr>)
        })"

fun run :: "nat \<Rightarrow> 'w host \<Rightarrow> 'a llvm_scheme \<Rightarrow> 'w interp \<Rightarrow> 'w interp option" where
  "run 0 H P s = (if ECStack s = [] then Some s else None)"
| "run (Suc n) H P s = (if ECStack s = [] then Some s else do { s \<leftarrow> i_step H P s; run n H P s })"

text \<open>Executing a sequence of local instructions.\<close>

fun execs :: "'w host \<Rightarrow> 'a llvm_scheme \<Rightarrow> llvalue list \<Rightarrow>
    ExecutionContext \<times> memory \<Rightarrow> (ExecutionContext \<times> memory) option" where
  "execs H P [] s = Some s"
| "execs H P (I # Is) s = do { s \<leftarrow> visitLocal H P I s; execs H P Is s }"

end
