(* ===== verification/LLVM_Exec.thy ===== *)
theory LLVM_Exec
  imports LLVM_Interp
begin

section \<open>Facts about the interpreter\<close>

text \<open>
  Byte-wise loads and stores behave as a memory of 64-bit cells; sequences of local instructions
  compose and are what the interpreter's loop executes.
\<close>

subsection \<open>Words and bytes\<close>

lemma word_of_bytes_of: "word_of_bytes (bytes_of n v) = take_bit (8 * n) v"
proof (induction n arbitrary: v)
  case (Suc n)
  show ?case
    by (rule bit_word_eqI) (auto simp: Suc bit_simps)
qed simp

lemma word_of_bytes_8 [simp]: "word_of_bytes (bytes_of 8 v) = v"
  using word_of_bytes_of [of 8 v] by (simp add: take_bit_word_eq_self)

lemma length_bytes_of [simp]: "length (bytes_of n v) = n"
  by (induction n arbitrary: v) auto

subsection \<open>Spans of memory\<close>

definition span :: "int64 \<Rightarrow> nat \<Rightarrow> int64 set" where
  "span p n = (\<lambda>k. p + of_nat k) ` {..<n}"

definition mapped :: "memory \<Rightarrow> int64 \<Rightarrow> nat \<Rightarrow> bool" where
  "mapped m p n \<longleftrightarrow> span p n \<subseteq> dom m"

definition cell :: "memory \<Rightarrow> int64 \<Rightarrow> 8 word list \<Rightarrow> bool" where
  "cell m p bs \<longleftrightarrow> (\<forall>k < length bs. m (p + of_nat k) = Some (bs ! k))"

lemma small_spans: "span 16 8 = {16, 17, 18, 19, 20, 21, 22, 23}" "span 32 8 = {32, 33, 34, 35, 36, 37, 38, 39}"
  by (simp_all add: span_def eval_nat_numeral lessThan_Suc insert_commute)

lemma mapped_iff: "mapped m p n \<longleftrightarrow> (\<forall>k < n. m (p + of_nat k) \<noteq> None)"
  by (auto simp: mapped_def span_def dom_def)

lemma cell_mapped: "cell m p bs \<Longrightarrow> mapped m p (length bs)"
  by (simp add: cell_def mapped_iff)

lemma small_offset: "k \<le> 8 \<Longrightarrow> 0 < k \<Longrightarrow> (of_nat k :: int64) \<noteq> 0"
proof
  assume k: "k \<le> 8" "0 < k" and z: "(of_nat k :: int64) = 0"
  then have "unat (of_nat k :: int64) = 0" by simp
  moreover have "unat (of_nat k :: int64) = k"
    using k by (simp add: unat_of_nat take_bit_nat_eq_self)
  ultimately show False using k by simp
qed

lemma write_bytes_total:
  assumes "\<forall>k < length bs. m (p + of_nat k) \<noteq> None" and "length bs \<le> 8"
  shows "\<exists>m'. write_bytes p bs m = Some m' \<and> (\<forall>k < length bs. m' (p + of_nat k) = Some (bs ! k)) \<and>
    (\<forall>a. (\<forall>k < length bs. a \<noteq> p + of_nat k) \<longrightarrow> m' a = m a)"
  using assms
proof (induction bs arbitrary: p m)
  case (Cons b bs)
  have shift: "p + 1 + of_nat k = p + of_nat (Suc k)" for k by (simp add: algebra_simps)
  have "\<forall>k < length bs. (m(p \<mapsto> b)) (p + 1 + of_nat k) \<noteq> None"
    using Cons.prems(1) by (auto simp: shift simp del: of_nat_Suc)
  from Cons.IH [OF this] Cons.prems(2) obtain m' where m': "write_bytes (p + 1) bs (m(p \<mapsto> b)) = Some m'"
      "\<forall>k < length bs. m' (p + 1 + of_nat k) = Some (bs ! k)"
      "\<forall>a. (\<forall>k < length bs. a \<noteq> p + 1 + of_nat k) \<longrightarrow> m' a = (m(p \<mapsto> b)) a"
    by (metis Suc_leD length_Cons)
  have new: "p \<noteq> p + 1 + of_nat k" if "k < length bs" for k
    using that small_offset [of "Suc k"] Cons.prems(2) by (auto simp: algebra_simps)
  have first: "m' p = Some b" using m'(3) new by auto
  have "m p \<noteq> None" using Cons.prems(1) by force
  moreover have "\<forall>k < length (b # bs). m' (p + of_nat k) = Some ((b # bs) ! k)"
  proof (intro allI impI)
    fix k assume "k < length (b # bs)"
    then show "m' (p + of_nat k) = Some ((b # bs) ! k)"
      using first m'(2) by (cases k) (auto simp: algebra_simps)
  qed
  moreover have "m' a = m a" if "\<forall>k < length (b # bs). a \<noteq> p + of_nat k" for a
  proof -
    have "a \<noteq> p" using that by force
    moreover have "\<forall>k < length bs. a \<noteq> p + 1 + of_nat k"
      using that by (auto simp: shift simp del: of_nat_Suc)
    ultimately show ?thesis using m'(3) by simp
  qed
  ultimately show ?case using m'(1) by (simp add: check_def)
qed simp

lemma read_bytes_total:
  "\<forall>k < length bs. m (p + of_nat k) = Some (bs ! k) \<Longrightarrow> read_bytes p (length bs) m = Some bs"
proof (induction bs arbitrary: p)
  case (Cons b bs)
  have "m (p + 1 + of_nat k) = Some (bs ! k)" if "k < length bs" for k
    using that spec [OF Cons.prems, of "Suc k"] by (simp add: algebra_simps)
  moreover have "m p = Some b" using Cons.prems by force
  ultimately show ?case using Cons.IH [of "p + 1"] by simp
qed simp

lemma read_cell: "cell m p bs \<Longrightarrow> read_bytes p (length bs) m = Some bs"
  using read_bytes_total [of bs m p] by (simp add: cell_def)

lemma write_cell:
  assumes "mapped m p (length bs)" and "length bs \<le> 8"
  obtains m' where "write_bytes p bs m = Some m'" and "cell m' p bs" and "dom m' = dom m"
    and "\<And>a. a \<notin> span p (length bs) \<Longrightarrow> m' a = m a"
proof -
  obtain m' where m': "write_bytes p bs m = Some m'" "\<forall>k < length bs. m' (p + of_nat k) = Some (bs ! k)"
      "\<And>a. (\<forall>k < length bs. a \<noteq> p + of_nat k) \<Longrightarrow> m' a = m a"
    using write_bytes_total [of bs m p] assms by (auto simp: mapped_iff)
  have other: "m' a = m a" if "a \<notin> span p (length bs)" for a
    using that by (intro m'(3)) (auto simp: span_def)
  have "dom m' = dom m"
  proof (rule set_eqI)
    fix a show "a \<in> dom m' \<longleftrightarrow> a \<in> dom m"
      using m'(2) other assms(1) by (cases "a \<in> span p (length bs)") (auto simp: mapped_iff span_def dom_def)
  qed
  then show ?thesis using that m' other unfolding cell_def by blast
qed

lemma cell_other:
  assumes "\<And>a. a \<notin> span p n \<Longrightarrow> m' a = m a" and "span p n \<inter> span q (length bs) = {}" and "cell m q bs"
  shows "cell m' q bs"
  unfolding cell_def
proof (intro allI impI)
  fix k assume k: "k < length bs"
  then have "q + of_nat k \<in> span q (length bs)" by (simp add: span_def)
  then show "m' (q + of_nat k) = Some (bs ! k)" using assms k unfolding cell_def by (metis disjoint_iff)
qed

subsection \<open>Sequences\<close>

lemma execs_append [simp]:
  "execs H P (Is @ Js) s = do { s \<leftarrow> execs H P Is s; execs H P Js s }"
proof (induction Is arbitrary: s)
  case (Cons I Is)
  then show ?case by (cases "visitLocal H P I s") auto
qed simp


subsection \<open>The interpreter's loop\<close>

primrec steps :: "nat \<Rightarrow> 'w host \<Rightarrow> 'a llvm_scheme \<Rightarrow> 'w interp \<Rightarrow> 'w interp option" where
  "steps 0 H P s = Some s"
| "steps (Suc n) H P s = do { s \<leftarrow> i_step H P s; steps n H P s }"

definition reaches :: "'w host \<Rightarrow> 'a llvm_scheme \<Rightarrow> 'w interp \<Rightarrow> 'w interp \<Rightarrow> bool" where
  "reaches H P s s' \<longleftrightarrow> (\<exists>n. steps n H P s = Some s')"

lemma steps_add: "steps (n + k) H P s = do { s \<leftarrow> steps n H P s; steps k H P s }"
proof (induction n arbitrary: s)
  case (Suc n)
  then show ?case by (cases "i_step H P s") auto
qed simp

lemma reaches_refl [simp]: "reaches H P s s"
  unfolding reaches_def by (rule exI [of _ 0]) simp

lemma reaches_trans: "reaches H P s s' \<Longrightarrow> reaches H P s' s'' \<Longrightarrow> reaches H P s s''"
  unfolding reaches_def using steps_add [of _ _ H P s] by (metis Option.bind.bind_lunit)

lemma reaches_step: "i_step H P s = Some s' \<Longrightarrow> reaches H P s s'"
  unfolding reaches_def by (rule exI [of _ "Suc 0"]) simp

text \<open>\<open>run\<close> stops with the result of the steps it takes, given enough turns.\<close>

lemma run_steps: "steps n H P s = Some s' \<Longrightarrow> run (n + k) H P s = run k H P s'"
proof (induction n arbitrary: s)
  case (Suc n)
  then obtain t where t: "i_step H P s = Some t" "steps n H P t = Some s'" by (auto simp: Option.bind_eq_Some_conv)
  then have "ECStack s \<noteq> []" by (auto simp: i_step_def)
  then show ?case using Suc.IH [OF t(2)] t(1) by simp
qed simp

lemma run_reaches:
  assumes "reaches H P s s'" and "ECStack s' = []"
  shows "\<exists>n. run n H P s = Some s'"
proof -
  obtain n where "steps n H P s = Some s'" using assms(1) by (auto simp: reaches_def)
  then have "run (n + 0) H P s = Some s'" using run_steps [of n H P s s' 0] assms(2) by simp
  then show ?thesis by blast
qed

text \<open>A local instruction neither reads nor writes the program counter.\<close>

lemma getOperandValue_CurInst [simp]: "getOperandValue v (SF\<lparr>CurInst := n\<rparr>) = getOperandValue v SF"
  by (cases v) (simp_all add: getOperandValue_def lookupValue_def)

lemma SetValue_CurInst [simp]: "SetValue k g (SF\<lparr>CurInst := n\<rparr>) = (SetValue k g SF)\<lparr>CurInst := n\<rparr>"
  by (simp add: SetValue_def)

lemma CurInst_SetValue [simp]: "CurInst (SetValue k g SF) = CurInst SF" "CurBB (SetValue k g SF) = CurBB SF"
  by (simp_all add: SetValue_def)

lemmas i_visit_local_defs = i_visitBinaryOperator_def i_visitICmpInst_def i_visitFCmpInst_def i_visitCastInst_def
  i_visitAllocaInst_def i_visitGEP_def i_visitStructGEP_def i_visitLoadInst_def i_visitStoreInst_def in_frame_def

lemma visitLocal_CurInst:
  assumes "visitLocal H P I (SF, m) = Some (SF', m')"
  shows "visitLocal H P I (SF\<lparr>CurInst := n\<rparr>, m) = Some (SF'\<lparr>CurInst := n\<rparr>, m') \<and> CurInst SF' = CurInst SF \<and> CurBB SF' = CurBB SF"
  using assms
  by (cases "(H, P, I, (SF, m))" rule: visitLocal.cases)
    (auto simp: i_visit_local_defs Option.bind_eq_Some_conv Let_def split_def)

lemma interp_swap: "s\<lparr>mem := m, ECStack := x\<rparr> = s\<lparr>ECStack := x, mem := m\<rparr>" for s :: "'w interp"
  by simp

lemma visitLocal_i_visit:
  assumes "visitLocal H P I (SF, m) = Some (SF', m')"
  shows "i_visit H P I (s\<lparr>ECStack := SF # fs, mem := m\<rparr>) = Some (s\<lparr>ECStack := SF' # fs, mem := m'\<rparr>)"
  using assms
  by (cases "(H, P, I, (SF, m))" rule: visitLocal.cases) auto

lemma execs_CurInst:
  "execs H P Is (SF, m) = Some (SF', m') \<Longrightarrow> execs H P Is (SF\<lparr>CurInst := n\<rparr>, m) = Some (SF'\<lparr>CurInst := n\<rparr>, m')"
proof (induction Is arbitrary: SF m)
  case (Cons I Is)
  then obtain SF1 m1 where "visitLocal H P I (SF, m) = Some (SF1, m1)" "execs H P Is (SF1, m1) = Some (SF', m')"
    by (auto simp: Option.bind_eq_Some_conv)
  then show ?case using Cons.IH visitLocal_CurInst [of H P I SF m SF1 m1 n] by simp
qed simp

lemma execs_reaches:
  assumes "bbs P (CurBB SF) = Some bb" and "bb_insts bb = pre @ Is @ post" and "CurInst SF = length pre"
    and "execs H P Is (SF, m) = Some (SF', m')"
  shows "reaches H P (s\<lparr>ECStack := SF # fs, mem := m\<rparr>)
    (s\<lparr>ECStack := SF'\<lparr>CurInst := length pre + length Is\<rparr> # fs, mem := m'\<rparr>)"
  using assms
proof (induction Is arbitrary: pre SF m SF')
  case (Cons I Is)
  then obtain SF1 m1 where 1: "visitLocal H P I (SF, m) = Some (SF1, m1)" "execs H P Is (SF1, m1) = Some (SF', m')"
    by (auto simp: Option.bind_eq_Some_conv)
  let ?SF1 = "SF1\<lparr>CurInst := Suc (length pre)\<rparr>"
  have pc: "CurInst SF1 = CurInst SF" "CurBB SF1 = CurBB SF" using visitLocal_CurInst [OF 1(1)] by auto
  have "i_step H P (s\<lparr>ECStack := SF # fs, mem := m\<rparr>) = Some (s\<lparr>ECStack := ?SF1 # fs, mem := m1\<rparr>)"
    using Cons.prems(1,2,3) visitLocal_i_visit [OF conjunct1 [OF visitLocal_CurInst [OF 1(1), of "Suc (length pre)"]]]
    by (simp add: i_step_def interp_swap)
  moreover have "execs H P Is (?SF1, m1) = Some (SF'\<lparr>CurInst := Suc (length pre)\<rparr>, m')"
    using 1(2) by (rule execs_CurInst)
  then have "reaches H P (s\<lparr>ECStack := ?SF1 # fs, mem := m1\<rparr>)
      (s\<lparr>ECStack := (SF'\<lparr>CurInst := Suc (length pre)\<rparr>)\<lparr>CurInst := length (pre @ [I]) + length Is\<rparr> # fs, mem := m'\<rparr>)"
    using Cons.prems(1,2) pc by (intro Cons.IH) auto
  ultimately show ?case using reaches_trans [OF reaches_step] by fastforce
next
  case Nil
  then have "SF' = SF" "m' = m" "SF\<lparr>CurInst := length pre + length ([] :: llvalue list)\<rparr> = SF" by simp_all
  then show ?case by (simp only: reaches_refl)
qed

end
