(* ===== verification/Fork_Semantics.thy ===== *)
theory Fork_Semantics
  imports Fork_AST LLVM_Interp
begin

section \<open>What scalar expressions mean\<close>

text \<open>
  A reference semantics of the language's expressions over variables of type \<open>int\<close> and \<open>float\<close>,
  written from the language and not from the code generator: integers are 64-bit words with
  wrap-around, division rounds towards zero, comparisons and \<open>!\<close> give 0 or 1, an integer beside a
  float is converted, \<open>||\<close> and \<open>&&\<close> test for a value other than zero. A float comparison with a NaN is
  false, \<open>!=\<close> included. The arithmetic on doubles is that of the machine.

  The types are those of the operands; \<open>BoolT\<close> is the type of \<open>||\<close> and \<open>&&\<close> on integers, whose result may be
  used as an integer but has no meaning here beside a float.
\<close>

datatype sty = IntT | BoolT | FloatT
datatype sval = SInt int64 | SFloat double

type_synonym senv = "string \<Rightarrow> sval option"

definition arith_ops :: "string list" where
  "arith_ops = [''+'', ''-'', ''*'', ''/'']"

definition comparison_ops :: "string list" where
  "comparison_ops = [''>='', ''<='', ''>'', ''<'', ''!='', ''=='']"

definition logical_ops :: "string list" where
  "logical_ops = [''||'', ''&&'']"

lemmas op_list_defs = arith_ops_def comparison_ops_def logical_ops_def

subsection \<open>Types\<close>

fun integral :: "sty \<Rightarrow> bool" where
  "integral FloatT = False" | "integral _ = True"

definition typeof_unary :: "string \<Rightarrow> sty \<Rightarrow> sty option" where
  "typeof_unary op t =
     (if op = ''-'' then Some (if integral t then IntT else FloatT)
      else if op = ''!'' then Some IntT
      else None)"

definition typeof_binary :: "string \<Rightarrow> sty \<Rightarrow> sty \<Rightarrow> sty option" where
  "typeof_binary op s t =
     (if (s = BoolT \<and> t = FloatT) \<or> (s = FloatT \<and> t = BoolT) then None
      else let float = (s = FloatT \<or> t = FloatT) in
        if op \<in> set arith_ops then Some (if float then FloatT else IntT)
        else if op \<in> set comparison_ops then Some IntT
        else if op \<in> set logical_ops then Some (if float then IntT else BoolT)
        else None)"

fun typeof :: "(string \<Rightarrow> sty option) \<Rightarrow> expression \<Rightarrow> sty option" where
  "typeof \<Gamma> (Integer v) = Some IntT"
| "typeof \<Gamma> (Float d) = Some FloatT"
| "typeof \<Gamma> (Identifier x) = \<Gamma> x"
| "typeof \<Gamma> (UnaryOperator op e) = do { t \<leftarrow> typeof \<Gamma> e; typeof_unary op t }"
| "typeof \<Gamma> (BinaryOperator l op r) = do { s \<leftarrow> typeof \<Gamma> l; t \<leftarrow> typeof \<Gamma> r; typeof_binary op s t }"
| "typeof \<Gamma> _ = None"

subsection \<open>Values\<close>

definition f_true :: "'w host \<Rightarrow> double \<Rightarrow> bool" where
  "f_true H d \<longleftrightarrow> f_eq H d d \<and> f_eq H 0 0 \<and> \<not> f_eq H d 0"

definition bool_val :: "bool \<Rightarrow> sval" where
  "bool_val b = SInt (of_bool b)"

definition eval_int :: "string \<Rightarrow> int64 \<Rightarrow> int64 \<Rightarrow> sval option" where
  "eval_int op a b =
     (if op = ''+'' then Some (SInt (a + b))
      else if op = ''-'' then Some (SInt (a - b))
      else if op = ''*'' then Some (SInt (a * b))
      else if op = ''/'' then (if b = 0 then None else Some (SInt (word_of_int (sint a sdiv sint b))))
      else if op = ''>='' then Some (bool_val (sint a \<ge> sint b))
      else if op = ''<='' then Some (bool_val (sint a \<le> sint b))
      else if op = ''>'' then Some (bool_val (sint a > sint b))
      else if op = ''<'' then Some (bool_val (sint a < sint b))
      else if op = ''!='' then Some (bool_val (a \<noteq> b))
      else if op = ''=='' then Some (bool_val (a = b))
      else if op = ''||'' then Some (bool_val (a \<noteq> 0 \<or> b \<noteq> 0))
      else if op = ''&&'' then Some (bool_val (a \<noteq> 0 \<and> b \<noteq> 0))
      else None)"

definition eval_float :: "'w host \<Rightarrow> string \<Rightarrow> double \<Rightarrow> double \<Rightarrow> sval option" where
  "eval_float H op a b =
     (if op = ''+'' then Some (SFloat (f_add H a b))
      else if op = ''-'' then Some (SFloat (f_sub H a b))
      else if op = ''*'' then Some (SFloat (f_mul H a b))
      else if op = ''/'' then Some (SFloat (f_div H a b))
      else if op = ''>='' then Some (bool_val (f_le H b a))
      else if op = ''<='' then Some (bool_val (f_le H a b))
      else if op = ''>'' then Some (bool_val (f_lt H b a))
      else if op = ''<'' then Some (bool_val (f_lt H a b))
      else if op = ''!='' then Some (bool_val (f_eq H a a \<and> f_eq H b b \<and> \<not> f_eq H a b))
      else if op = ''=='' then Some (bool_val (f_eq H a b))
      else if op = ''||'' then Some (bool_val (f_true H a \<or> f_true H b))
      else if op = ''&&'' then Some (bool_val (f_true H a \<and> f_true H b))
      else None)"

fun eval_binary :: "'w host \<Rightarrow> string \<Rightarrow> sval \<Rightarrow> sval \<Rightarrow> sval option" where
  "eval_binary H op (SInt a) (SInt b) = eval_int op a b"
| "eval_binary H op (SFloat a) (SFloat b) = eval_float H op a b"
| "eval_binary H op (SInt a) (SFloat b) = eval_float H op (f_of_int H a) b"
| "eval_binary H op (SFloat a) (SInt b) = eval_float H op a (f_of_int H b)"

text \<open>The negation of a float is its product with \<open>- 1.0\<close>.\<close>

fun eval_unary :: "'w host \<Rightarrow> string \<Rightarrow> sval \<Rightarrow> sval option" where
  "eval_unary H op (SInt a) =
     (if op = ''-'' then Some (SInt (- a)) else if op = ''!'' then Some (bool_val (a = 0)) else None)"
| "eval_unary H op (SFloat a) =
     (if op = ''-'' then Some (SFloat (f_mul H 0xBFF0000000000000 a))
      else if op = ''!'' then Some (bool_val (\<not> f_true H a)) else None)"

fun eval :: "'w host \<Rightarrow> senv \<Rightarrow> expression \<Rightarrow> sval option" where
  "eval H \<rho> (Integer v) = Some (SInt v)"
| "eval H \<rho> (Float d) = Some (SFloat d)"
| "eval H \<rho> (Identifier x) = \<rho> x"
| "eval H \<rho> (UnaryOperator op e) = do { v \<leftarrow> eval H \<rho> e; eval_unary H op v }"
| "eval H \<rho> (BinaryOperator l op r) = do { a \<leftarrow> eval H \<rho> l; b \<leftarrow> eval H \<rho> r; eval_binary H op a b }"
| "eval H \<rho> _ = None"

subsection \<open>Values have the types of their expressions\<close>

fun has_type :: "sval \<Rightarrow> sty \<Rightarrow> bool" where
  "has_type (SInt a) IntT = True"
| "has_type (SInt a) BoolT = (a = 0 \<or> a = 1)"
| "has_type (SFloat d) FloatT = True"
| "has_type _ _ = False"

definition env_ok :: "(string \<Rightarrow> sty option) \<Rightarrow> senv \<Rightarrow> bool" where
  "env_ok \<Gamma> \<rho> \<longleftrightarrow> (\<forall>x t v. \<Gamma> x = Some t \<longrightarrow> \<rho> x = Some v \<longrightarrow> has_type v t)"

lemma has_type_bool [simp]: "has_type (bool_val b) BoolT" "has_type (bool_val b) IntT"
  by (simp_all add: bool_val_def)

lemma has_typeE:
  assumes "has_type v t"
  obtains (i) a where "v = SInt a" and "integral t" | (f) d where "v = SFloat d" and "t = FloatT"
  using assms by (cases v; cases t) auto

lemma eval_int_type:
  assumes "eval_int op a b = Some r" and "typeof_binary op s t = Some u" and "integral s" and "integral t"
  shows "has_type r u"
  using assms by (cases s; cases t)
    (auto simp: eval_int_def typeof_binary_def op_list_defs Let_def split: if_splits)

lemma eval_float_type:
  assumes "eval_float H op a b = Some r" and "typeof_binary op s t = Some u" and "s = FloatT \<or> t = FloatT"
  shows "has_type r u"
  using assms by (cases s; cases t)
    (auto simp: eval_float_def typeof_binary_def op_list_defs Let_def split: if_splits)

lemma eval_binary_type:
  assumes "eval_binary H op a b = Some r" and "typeof_binary op s t = Some u" and "has_type a s" and "has_type b t"
  shows "has_type r u"
  using assms by (elim has_typeE) (auto intro: eval_int_type eval_float_type)

lemma eval_unary_type:
  "eval_unary H op a = Some r \<Longrightarrow> typeof_unary op s = Some u \<Longrightarrow> has_type a s \<Longrightarrow> has_type r u"
  by (elim has_typeE) (auto simp: typeof_unary_def split: if_splits)

lemma eval_preserves_types:
  assumes "env_ok \<Gamma> \<rho>" and "typeof \<Gamma> e = Some t" and "eval H \<rho> e = Some v"
  shows "has_type v t"
  using assms(2,3)
proof (induction e arbitrary: t v)
  case (Identifier x)
  then show ?case using assms(1) by (fastforce simp: env_ok_def)
next
  case (UnaryOperator op e)
  then show ?case by (auto simp: Option.bind_eq_Some_conv intro: eval_unary_type)
next
  case (BinaryOperator l op r)
  then show ?case by (auto simp: Option.bind_eq_Some_conv intro: eval_binary_type)
qed auto

subsection \<open>Statements\<close>

text \<open>
  Definitions, assignments to variables, expression statements, returns and conditionals. A variable keeps
  the type of its definition; an integer assigned to a float is converted. A definition without a value
  initialises with zero. A variable defined in a branch is in scope after the conditional, without a value if the
  branch was not taken. \<^verbatim>\<open>wt_*\<close> give the variables in scope after a statement of a function with return type
  \<open>R\<close> (\<open>None\<close> is \<open>void\<close>); \<^verbatim>\<open>exec_*\<close> run it.

  As for expressions, the result of \<open>||\<close> and \<open>&&\<close> on integers (type \<open>BoolT\<close>) has no meaning where a float is needed, and
  neither as a condition or a returned value; a variable defined by one has that type.
\<close>

fun conv :: "'w host \<Rightarrow> sty \<Rightarrow> sval \<Rightarrow> sval" where
  "conv H FloatT (SInt a) = SFloat (f_of_int H a)"
| "conv H t x = x"

definition assignable :: "sty \<Rightarrow> sty \<Rightarrow> bool" where
  "assignable t s \<longleftrightarrow> s = t \<or> t = FloatT \<and> s = IntT"

definition keyword_type :: "keyword \<Rightarrow> sty option" where
  "keyword_type k = (if k = ''int'' then Some IntT else if k = ''float'' then Some FloatT else None)"

definition defined_type :: "keyword \<Rightarrow> sty \<Rightarrow> sty option" where
  "defined_type k s = do {
     t \<leftarrow> keyword_type k;
     check (assignable t s \<or> t = IntT \<and> s = BoolT);
     Some (if t = IntT then s else t)
   }"

definition zero_val :: "sty \<Rightarrow> sval" where
  "zero_val t = (if t = FloatT then SFloat 0 else SInt 0)"

fun truth :: "'w host \<Rightarrow> sval \<Rightarrow> bool" where
  "truth H (SInt a) \<longleftrightarrow> a \<noteq> 0" | "truth H (SFloat d) \<longleftrightarrow> f_true H d"

type_synonym senvt = "string \<Rightarrow> sty option"

fun wt_def :: "senvt \<Rightarrow> variableDefinition \<Rightarrow> sty option" where
  "wt_def \<Gamma> (VariableDefinition k x None False) = keyword_type k"
| "wt_def \<Gamma> (VariableDefinition k x (Some e) False) = do { s \<leftarrow> typeof \<Gamma> e; defined_type k s }"
| "wt_def \<Gamma> _ = None"

fun wt_stmt :: "sty option \<Rightarrow> senvt \<Rightarrow> statement \<Rightarrow> senvt option"
  and wt_block :: "sty option \<Rightarrow> senvt \<Rightarrow> block \<Rightarrow> senvt option"
  and wt_stmts :: "sty option \<Rightarrow> senvt \<Rightarrow> statement list \<Rightarrow> senvt option" where
  "wt_stmt R \<Gamma> (VariableStatement c d) = do { check (\<Gamma> (vd_ident d) = None); t \<leftarrow> wt_def \<Gamma> d; Some (\<Gamma>(vd_ident d \<mapsto> t)) }"
| "wt_stmt R \<Gamma> (AssignStatement c (Identifier x) e) =
     do { t \<leftarrow> \<Gamma> x; s \<leftarrow> typeof \<Gamma> e; check (assignable t s); Some \<Gamma> }"
| "wt_stmt R \<Gamma> (ExpressionStatement c e) = do { s \<leftarrow> typeof \<Gamma> e; Some \<Gamma> }"
| "wt_stmt R \<Gamma> (ReturnStatement c (Some e)) = do { r \<leftarrow> R; s \<leftarrow> typeof \<Gamma> e; check (assignable r s); Some \<Gamma> }"
| "wt_stmt R \<Gamma> (ReturnStatement c None) = do { check (R = None); Some \<Gamma> }"
| "wt_stmt R \<Gamma> (IfStatement c e b eb) = do {
     s \<leftarrow> typeof \<Gamma> e;
     check (s \<noteq> BoolT);
     \<Gamma> \<leftarrow> wt_block R \<Gamma> b;
     (case eb of None \<Rightarrow> Some \<Gamma> | Some b' \<Rightarrow> wt_block R \<Gamma> b')
   }"
| "wt_stmt R \<Gamma> _ = None"
| "wt_block R \<Gamma> (Block ss) = (case ss of None \<Rightarrow> Some \<Gamma> | Some ss \<Rightarrow> wt_stmts R \<Gamma> ss)"
| "wt_stmts R \<Gamma> [] = Some \<Gamma>"
| "wt_stmts R \<Gamma> (s # ss) = do { check (statementCommits s); \<Gamma> \<leftarrow> wt_stmt R \<Gamma> s; wt_stmts R \<Gamma> ss }"

datatype outcome = Normal senv | Returned "sval option"

fun exec_def :: "'w host \<Rightarrow> senv \<Rightarrow> variableDefinition \<Rightarrow> sval option" where
  "exec_def H \<rho> (VariableDefinition k x None p) = map_option zero_val (keyword_type k)"
| "exec_def H \<rho> (VariableDefinition k x (Some e) p) = do { t \<leftarrow> keyword_type k; v \<leftarrow> eval H \<rho> e; Some (conv H t v) }"
| "exec_def H \<rho> _ = None"

fun exec_stmt :: "'w host \<Rightarrow> sty option \<Rightarrow> senvt \<Rightarrow> senv \<Rightarrow> statement \<Rightarrow> outcome option"
  and exec_block :: "'w host \<Rightarrow> sty option \<Rightarrow> senvt \<Rightarrow> senv \<Rightarrow> block \<Rightarrow> outcome option"
  and exec_stmts :: "'w host \<Rightarrow> sty option \<Rightarrow> senvt \<Rightarrow> senv \<Rightarrow> statement list \<Rightarrow> outcome option" where
  "exec_stmt H R \<Gamma> \<rho> (VariableStatement c d) = do { v \<leftarrow> exec_def H \<rho> d; Some (Normal (\<rho>(vd_ident d \<mapsto> v))) }"
| "exec_stmt H R \<Gamma> \<rho> (AssignStatement c (Identifier x) e) =
     do { t \<leftarrow> \<Gamma> x; v \<leftarrow> eval H \<rho> e; Some (Normal (\<rho>(x \<mapsto> conv H t v))) }"
| "exec_stmt H R \<Gamma> \<rho> (ExpressionStatement c e) = do { v \<leftarrow> eval H \<rho> e; Some (Normal \<rho>) }"
| "exec_stmt H R \<Gamma> \<rho> (ReturnStatement c (Some e)) = do { r \<leftarrow> R; v \<leftarrow> eval H \<rho> e; Some (Returned (Some (conv H r v))) }"
| "exec_stmt H R \<Gamma> \<rho> (ReturnStatement c None) = Some (Returned None)"
| "exec_stmt H R \<Gamma> \<rho> (IfStatement c e b eb) = do {
     v \<leftarrow> eval H \<rho> e;
     (if truth H v then exec_block H R \<Gamma> \<rho> b
      else (case eb of
          None \<Rightarrow> Some (Normal \<rho>)
        | Some b' \<Rightarrow> do { \<Gamma> \<leftarrow> wt_block R \<Gamma> b; exec_block H R \<Gamma> \<rho> b' }))
   }"
| "exec_stmt H R \<Gamma> \<rho> _ = None"
| "exec_block H R \<Gamma> \<rho> (Block ss) = (case ss of None \<Rightarrow> Some (Normal \<rho>) | Some ss \<Rightarrow> exec_stmts H R \<Gamma> \<rho> ss)"
| "exec_stmts H R \<Gamma> \<rho> [] = Some (Normal \<rho>)"
| "exec_stmts H R \<Gamma> \<rho> (s # ss) = do {
     out \<leftarrow> exec_stmt H R \<Gamma> \<rho> s;
     (case out of
        Returned v \<Rightarrow> Some (Returned v)
      | Normal \<rho> \<Rightarrow> do { \<Gamma> \<leftarrow> wt_stmt R \<Gamma> s; exec_stmts H R \<Gamma> \<rho> ss })
   }"

subsection \<open>Functions\<close>

text \<open>
  A function with scalar parameters: the arguments are the initial values of the parameters, and the
  call has a result when the body returns.
\<close>

definition return_type :: "keyword \<Rightarrow> sty option option" where
  "return_type k = (if k = ''void'' then Some None else map_option Some (keyword_type k))"

fun param :: "variableDefinition \<Rightarrow> (string \<times> sty) option" where
  "param (VariableDefinition k x None False) = map_option (Pair x) (keyword_type k)"
| "param _ = None"

fun wt_function :: "statement \<Rightarrow> bool" where
  "wt_function (FunctionDefinition c (Some k) u f as body False) \<longleftrightarrow>
     (case (return_type k, those (map param as)) of
        (Some R, Some ps) \<Rightarrow> distinct (map fst ps) \<and> wt_block R (map_of ps) body \<noteq> None
      | _ \<Rightarrow> False)"
| "wt_function _ \<longleftrightarrow> False"

fun exec_function :: "'w host \<Rightarrow> statement \<Rightarrow> sval list \<Rightarrow> sval option option" where
  "exec_function H (FunctionDefinition c (Some k) u f as body False) vs = do {
     R \<leftarrow> return_type k;
     ps \<leftarrow> those (map param as);
     check (list_all2 has_type vs (map snd ps));
     out \<leftarrow> exec_block H R (map_of ps) (map_of (zip (map fst ps) vs)) body;
     (case out of Returned v \<Rightarrow> Some v | Normal \<rho> \<Rightarrow> None)
   }"
| "exec_function H _ vs = None"

end
