(* ===== verification/CG_Emit.thy ===== *)
theory CG_Emit
  imports CG_Expr LLVM_Exec Fork_Semantics
begin

section \<open>Emitting code and running it\<close>

text \<open>
  The vocabulary of the correctness proof for compiled expressions. \<open>extend b Is st\<close> is the compiler
  state after the instructions \<open>Is\<close> were appended to block \<open>b\<close>. \<open>emits\<close> says of a step of the code
  generator that it succeeds, changes nothing else, and that the emitted instructions, run by LLVM's
  interpreter, leave memory alone and deliver the expected value; its rule \<open>emits_bind\<close> composes such
  steps as the code generator does.
\<close>

definition extend :: "nat \<Rightarrow> llvalue list \<Rightarrow> cg \<Rightarrow> cg" where
  "extend b Is st = st\<lparr>nextId := nextId st + length Is,
     bbs := (bbs st)(b := map_option (\<lambda>bb. bb\<lparr>bb_insts := bb_insts bb @ Is\<rparr>) (bbs st b))\<rparr>"

lemma extend_Nil [simp]: "extend b [] st = st"
  by (cases "bbs st b") (simp_all add: extend_def fun_upd_idem)

lemma extend_extend [simp]: "extend b Js (extend b Is st) = extend b (Is @ Js) st"
  by (simp add: extend_def option.map_comp comp_def add.assoc)

lemma extend_fields [simp]:
  "nextId (extend b Is st) = nextId st + length Is"
  "insertPt (extend b Is st) = insertPt st" "namedValues (extend b Is st) = namedValues st"
  "getBuilder (extend b Is st) = getBuilder st" "getContext (extend b Is st) = getContext st"
  "insideLambda (extend b Is st) = insideLambda st" "structTypes (extend b Is st) = structTypes st"
  by (simp_all add: extend_def getBuilder_def getContext_def)

lemma Insert_extend:
  "insertPt st c = Some b \<Longrightarrow> Insert c t i st = (Inst (nextId st) t i, extend b [Inst (nextId st) t i] st)"
  by (simp add: Insert_def extend_def Let_def)

subsection \<open>Values below a number, frames that agree below it\<close>

fun below :: "nat \<Rightarrow> llvalue \<Rightarrow> bool" where
  "below n (Inst i t ins) = (i < n)"
| "below n _ = True"

lemma below_mono: "below n v \<Longrightarrow> n \<le> k \<Longrightarrow> below k v"
  by (cases v) auto

definition frame_ext :: "nat \<Rightarrow> ExecutionContext \<Rightarrow> ExecutionContext \<Rightarrow> bool" where
  "frame_ext n SF SF' \<longleftrightarrow> SF' = SF\<lparr>Values := Values SF'\<rparr> \<and> (\<forall>k. k \<notin> KInst ` {n..} \<longrightarrow> Values SF' k = Values SF k)"

lemma frame_ext_refl [simp]: "frame_ext n SF SF"
  by (simp add: frame_ext_def)

lemma frame_ext_trans:
  assumes "frame_ext n SF SF'" and "frame_ext k SF' SF''" and "n \<le> k"
  shows "frame_ext n SF SF''"
proof -
  have "SF'' = SF\<lparr>Values := Values SF''\<rparr>"
    using assms(1,2) unfolding frame_ext_def by (metis ExecutionContext.update_convs(5) ExecutionContext.surjective ExecutionContext.select_convs(5))
  moreover have "KInst ` {k..} \<subseteq> KInst ` {n..}" using assms(3) by auto
  ultimately show ?thesis using assms(1,2) unfolding frame_ext_def by (metis subsetD)
qed

lemma frame_ext_SetValue [simp]: "frame_ext n SF (SetValue (KInst n) g SF)"
  by (auto simp: frame_ext_def SetValue_def)

lemma getOperandValue_ext:
  assumes "frame_ext n SF SF'" and "below n v"
  shows "getOperandValue v SF' = getOperandValue v SF"
proof (cases v)
  case (Inst i t ins)
  then have "KInst i \<notin> KInst ` {n..}" using assms(2) by auto
  then show ?thesis using assms(1) Inst by (simp add: frame_ext_def getOperandValue_def lookupValue_def)
next
  case (Argument f i t)
  have "KArg f i \<notin> KInst ` {n..}" by auto
  then show ?thesis using assms(1) Argument by (simp add: frame_ext_def getOperandValue_def lookupValue_def)
qed (simp_all add: getOperandValue_def)

lemma getOperandValue_SetValue [simp]:
  "getOperandValue (Inst i t ins) (SetValue (KInst i) g SF) = Some g"
  by (simp add: getOperandValue_def lookupValue_def SetValue_def)

text \<open>The instructions of a step are numbered in order, and none is an \<open>alloca\<close>.\<close>

fun is_alloca :: "llvalue \<Rightarrow> bool" where
  "is_alloca (Inst i t (Alloca t' x)) = True" | "is_alloca _ = False"

fun inst_id :: "llvalue \<Rightarrow> nat" where
  "inst_id (Inst i t ins) = i" | "inst_id _ = 0"

definition numbered :: "nat \<Rightarrow> llvalue list \<Rightarrow> bool" where
  "numbered n Is \<longleftrightarrow> map inst_id Is = [n..<n + length Is] \<and> (\<forall>I \<in> set Is. \<not> is_alloca I)"

lemma numbered_Nil [simp]: "numbered n []"
  by (simp add: numbered_def)

lemma numbered_append [simp]: "numbered n (Is @ Js) \<longleftrightarrow> numbered n Is \<and> numbered (n + length Is) Js"
proof -
  have "[n..<n + length (Is @ Js)] = [n..<n + length Is] @ [n + length Is..<n + length Is + length Js]"
    by (metis length_append add.assoc upt_add_eq_append le_add1)
  then show ?thesis by (auto simp: numbered_def)
qed

lemma execs_frame:
  assumes "execs H P Is (SF, m) = Some (SF', m')" and "\<forall>I \<in> set Is. \<not> is_alloca I"
  shows "SF' = SF\<lparr>Values := Values SF'\<rparr> \<and> (\<forall>k. k \<notin> (KInst \<circ> inst_id) ` set Is \<longrightarrow> Values SF' k = Values SF k)"
  using assms
proof (induction Is arbitrary: SF m)
  case (Cons I Is)
  then obtain SF1 m1 where 1: "visitLocal H P I (SF, m) = Some (SF1, m1)" "execs H P Is (SF1, m1) = Some (SF', m')"
    by (auto simp: Option.bind_eq_Some_conv)
  have first: "SF1 = SF\<lparr>Values := Values SF1\<rparr> \<and> (\<forall>k. k \<noteq> KInst (inst_id I) \<longrightarrow> Values SF1 k = Values SF k)"
    using 1(1) Cons.prems(2)
    by (cases "(H, P, I, (SF, m))" rule: visitLocal.cases) (auto simp: i_visit_local_defs Option.bind_eq_Some_conv SetValue_def)
  have rest: "SF' = SF1\<lparr>Values := Values SF'\<rparr> \<and> (\<forall>k. k \<notin> (KInst \<circ> inst_id) ` set Is \<longrightarrow> Values SF' k = Values SF1 k)"
    using Cons 1(2) by simp
  have "SF' = SF\<lparr>Values := Values SF'\<rparr>"
    using first rest by (metis ExecutionContext.update_convs(5) ExecutionContext.surjective ExecutionContext.select_convs(5))
  then show ?case using first rest by simp
qed simp

subsection \<open>Steps of the code generator with their meaning\<close>

definition delivers :: "'w host \<Rightarrow> 'a llvm_scheme \<Rightarrow> nat \<Rightarrow> llvalue list \<Rightarrow> llvalue \<Rightarrow>
    (ExecutionContext \<Rightarrow> memory \<Rightarrow> genericvalue \<Rightarrow> bool) \<Rightarrow> bool" where
  "delivers H P n Is v R \<longleftrightarrow> (\<forall>SF m g. R SF m g \<longrightarrow>
     (\<exists>SF'. execs H P Is (SF, m) = Some (SF', m) \<and> frame_ext n SF SF' \<and> getOperandValue v SF' = Some g))"

definition emits :: "'w host \<Rightarrow> 'a llvm_scheme \<Rightarrow> nat \<Rightarrow> cg \<Rightarrow> (llvalue \<times> cg) option \<Rightarrow> lltype \<Rightarrow>
    (ExecutionContext \<Rightarrow> memory \<Rightarrow> genericvalue \<Rightarrow> bool) \<Rightarrow> bool" where
  "emits H P b st res T R \<longleftrightarrow> (\<exists>v Is. res = Some (v, extend b Is st) \<and> getType v = T \<and>
     below (nextId st + length Is) v \<and> numbered (nextId st) Is \<and> delivers H P (nextId st) Is v R)"

lemma emitsE:
  assumes "emits H P b st res T R"
  obtains v Is where "res = Some (v, extend b Is st)" and "getType v = T" and "below (nextId st + length Is) v"
    and "numbered (nextId st) Is" and "delivers H P (nextId st) Is v R"
  using assms by (auto simp: emits_def)

lemma emits_return:
  assumes "below (nextId st) v" and "\<And>SF m g. R SF m g \<Longrightarrow> getOperandValue v SF = Some g"
  shows "emits H P b st (Some (v, st)) (getType v) R"
  unfolding emits_def delivers_def using assms
  by (intro exI [of _ v] exI [of _ "[]"]) auto

lemma emits_Insert:
  assumes "insertPt st c = Some b" and "\<not> is_alloca (Inst (nextId st) t i)"
    and "\<And>SF m g. R SF m g \<Longrightarrow> visitLocal H P (Inst (nextId st) t i) (SF, m) = Some (SetValue (KInst (nextId st)) g SF, m)"
  shows "emits H P b st (Some (Insert c t i st)) t R"
  unfolding emits_def delivers_def using assms
  by (intro exI [of _ "Inst (nextId st) t i"] exI [of _ "[Inst (nextId st) t i]"]) (auto simp: Insert_extend numbered_def)

lemma emits_bind:
  assumes first: "emits H P b st res T R"
    and rest: "\<And>v Is. getType v = T \<Longrightarrow> below (nextId (extend b Is st)) v \<Longrightarrow>
      emits H P b (extend b Is st) (k v (extend b Is st)) T' (R' v)"
    and vals: "\<And>v SF m g'. R0 SF m g' \<Longrightarrow> \<exists>g. R SF m g \<and>
      (\<forall>SF'. frame_ext (nextId st) SF SF' \<longrightarrow> getOperandValue v SF' = Some g \<longrightarrow> R' v SF' m g')"
  shows "emits H P b st (do { (v, st') \<leftarrow> res; k v st' }) T' R0"
proof -
  from first obtain v Is where v: "res = Some (v, extend b Is st)" "getType v = T" "below (nextId st + length Is) v"
      "numbered (nextId st) Is" "delivers H P (nextId st) Is v R"
    by (rule emitsE)
  from rest [OF v(2)] v(3) obtain w Js where w: "k v (extend b Is st) = Some (w, extend b (Is @ Js) st)"
      "getType w = T'" "below (nextId st + length (Is @ Js)) w" "numbered (nextId st + length Is) Js" "delivers H P (nextId st + length Is) Js w (R' v)"
    by (fastforce elim!: emitsE simp: add.assoc)
  have "delivers H P (nextId st) (Is @ Js) w R0"
    unfolding delivers_def
  proof (intro allI impI)
    fix SF m g' assume "R0 SF m g'"
    then obtain g where g: "R SF m g"
        "\<And>SF'. frame_ext (nextId st) SF SF' \<Longrightarrow> getOperandValue v SF' = Some g \<Longrightarrow> R' v SF' m g'"
      using vals by blast
    obtain SF1 where s1: "execs H P Is (SF, m) = Some (SF1, m)" "frame_ext (nextId st) SF SF1"
        "getOperandValue v SF1 = Some g"
      using v(5) g(1) unfolding delivers_def by blast
    obtain SF2 where s2: "execs H P Js (SF1, m) = Some (SF2, m)" "frame_ext (nextId st + length Is) SF1 SF2"
        "getOperandValue w SF2 = Some g'"
      using w(5) g(2) [OF s1(2,3)] unfolding delivers_def by blast
    show "\<exists>SF'. execs H P (Is @ Js) (SF, m) = Some (SF', m) \<and> frame_ext (nextId st) SF SF' \<and>
        getOperandValue w SF' = Some g'"
      using s1 s2 frame_ext_trans [OF s1(2) s2(2)] by auto
  qed
  then show ?thesis
    unfolding emits_def using v(1,4) w by auto
qed

subsection \<open>Visitors\<close>

text \<open>A visitor may return the null pointer; \<open>strip\<close> is its result when it does not.\<close>

definition strip :: "(llvalue option \<times> cg) option \<Rightarrow> (llvalue \<times> cg) option" where
  "strip res = do { (v, st) \<leftarrow> res; v \<leftarrow> v; Some (v, st) }"

lemma strip_someV [simp]: "strip (someV r) = r"
  by (cases r) (auto simp: strip_def someV_def)

lemma strip_Some [simp]: "strip (Some (Some v, st)) = Some (v, st)"
  by (simp add: strip_def)

lemma stripD: "strip res = Some (v, st) \<Longrightarrow> res = Some (Some v, st)"
  by (auto simp: strip_def Option.bind_eq_Some_conv)

lemma strip_bind: "strip (do { (v, st) \<leftarrow> r; k v st }) = do { (v, st) \<leftarrow> r; strip (k v st) }"
  by (cases r) (auto simp: strip_def)

lemma emits_visitor:
  assumes first: "emits H P b st (strip res) T R"
    and rest: "\<And>v Is. getType v = T \<Longrightarrow> below (nextId (extend b Is st)) v \<Longrightarrow>
      emits H P b (extend b Is st) (strip (k (Some v) (extend b Is st))) T' (R' v)"
    and vals: "\<And>v SF m g'. R0 SF m g' \<Longrightarrow> \<exists>g. R SF m g \<and>
      (\<forall>SF'. frame_ext (nextId st) SF SF' \<longrightarrow> getOperandValue v SF' = Some g \<longrightarrow> R' v SF' m g')"
  shows "emits H P b st (strip (do { (v, st') \<leftarrow> res; k v st' })) T' R0"
proof -
  have "strip (do { (v, st') \<leftarrow> res; k v st' }) = do { (v, st') \<leftarrow> strip res; strip (k (Some v) st') }"
    using first by (auto elim!: emitsE dest!: stripD simp: strip_bind)
  then show ?thesis
    using emits_bind [OF first rest vals] by simp
qed

subsection \<open>Instructions\<close>

lemma builder_context: "getContext st = getBuilder st" "getModule st = getBuilder st"
  by (simp_all add: getContext_def getBuilder_def getModule_def)

lemma emits_BinOp:
  assumes "insertPt st c = Some b" and "binop_ok op l r"
  shows "emits H P b st (CreateBinOp c op l r st) (getType l)
    (\<lambda>SF m g. \<exists>x y. getOperandValue l SF = Some x \<and> getOperandValue r SF = Some y \<and>
       executeBinary H op (getType l) x y = Some g)"
  unfolding CreateBinOp_def using assms
  by (auto intro!: emits_Insert simp: in_frame_def i_visitBinaryOperator_def check_def)

lemma emits_ICmp:
  assumes "insertPt st c = Some b" and "getType l = getType r" and "isIntegerTy (getType l) \<or> isPointerTy (getType l)"
  shows "emits H P b st (CreateICmp c p l r st) (int1Ty (typeContext (getType l)))
    (\<lambda>SF m g. \<exists>x y. getOperandValue l SF = Some x \<and> getOperandValue r SF = Some y \<and>
       executeICmp p (getType l) x y = Some g)"
  unfolding CreateICmp_def using assms
  by (auto intro!: emits_Insert simp: in_frame_def i_visitICmpInst_def check_def)

lemma emits_FCmp:
  assumes "insertPt st c = Some b" and "getType l = getType r" and "isDoubleTy (getType l)"
  shows "emits H P b st (CreateFCmp c p l r st) (int1Ty (typeContext (getType l)))
    (\<lambda>SF m g. \<exists>x y. getOperandValue l SF = Some x \<and> getOperandValue r SF = Some y \<and>
       executeFCmp H p (getType l) x y = Some g)"
  unfolding CreateFCmp_def using assms
  by (auto intro!: emits_Insert simp: in_frame_def i_visitFCmpInst_def check_def)

lemma emits_Cast:
  assumes "insertPt st c = Some b" and "getType v \<noteq> t" and "castIsValid op (getType v) t"
  shows "emits H P b st (CreateCast c op v t st) t
    (\<lambda>SF m g. \<exists>x. getOperandValue v SF = Some x \<and> executeCast H op (getType v) t x = Some g)"
  unfolding CreateCast_def using assms
  by (auto intro!: emits_Insert simp: in_frame_def i_visitCastInst_def check_def)

lemma emits_Load:
  assumes "insertPt st c = Some b" and "getType p = TPtr t"
  shows "emits H P b st (CreateLoad c p st) t
    (\<lambda>SF m g. \<exists>x. getOperandValue p SF = Some x \<and> LoadValueFromMemory (PointerVal x) t m = Some g)"
  unfolding CreateLoad_def using assms
  by (auto intro!: emits_Insert simp: i_visitLoadInst_def)

end
