(* ===== verification/CG_Correct.thy ===== *)
theory CG_Correct
  imports CG_Emit
begin

section \<open>Compiled expressions compute what they mean\<close>

text \<open>
  The correctness theorem for the code generator on scalar expressions: a well-typed expression is
  always compiled, without a diagnostic, into instructions appended to the current block; run by
  LLVM's interpreter in any state where the variables hold the values of an environment, they
  deliver the value the reference semantics gives to the expression, and change neither memory nor
  earlier results.
\<close>

subsection \<open>Representation of values\<close>

fun lty :: "ctx \<Rightarrow> sty \<Rightarrow> lltype" where
  "lty c IntT = TInt c 64" | "lty c BoolT = TInt c 1" | "lty c FloatT = TDouble c"

fun bits :: "sval \<Rightarrow> int64" where
  "bits (SInt a) = a" | "bits (SFloat d) = d"

definition gv_of :: "sty \<Rightarrow> sval \<Rightarrow> genericvalue" where
  "gv_of t v = (case t of
       IntT \<Rightarrow> int_gv (i64 (bits v))
     | BoolT \<Rightarrow> int_gv (i1 (bits v \<noteq> 0))
     | FloatT \<Rightarrow> GenericValue\<lparr>Untyped := bits v\<rparr>)"

lemma gv_of_simps [simp]:
  "gv_of IntT v = int_gv (i64 (bits v))" "gv_of BoolT v = int_gv (i1 (bits v \<noteq> 0))"
  "gv_of FloatT v = GenericValue\<lparr>Untyped := bits v\<rparr>"
  by (simp_all add: gv_of_def)

lemma gv_selectors [simp]:
  "IntVal (int_gv a) = a" "Untyped (PTOGV p) = p"
  by (simp_all add: int_gv_def PTOGV_def)

lemma int_gv_inject [simp]: "int_gv a = int_gv a' \<longleftrightarrow> a = a'"
  using gv_selectors(1) by metis

lemma float_gv_inject [simp]: "GenericValue\<lparr>Untyped := d\<rparr> = GenericValue\<lparr>Untyped := d'\<rparr> \<longleftrightarrow> d = d'"
  by (metis genericvalue.select_convs(1) genericvalue.surjective genericvalue.update_convs(1))

lemma bits_bool [simp]: "bits (bool_val q) = of_bool q"
  by (simp add: bool_val_def)

text \<open>Operand \<open>v\<close> holds value \<open>x\<close> of type \<open>t\<close> in a frame.\<close>

definition holds :: "llvalue \<Rightarrow> sty \<Rightarrow> sval \<Rightarrow> ExecutionContext \<Rightarrow> bool" where
  "holds v t x SF \<longleftrightarrow> has_type x t \<and> getOperandValue v SF = Some (gv_of t x)"

lemma holds_ext: "holds v t x SF \<Longrightarrow> frame_ext n SF SF' \<Longrightarrow> below n v \<Longrightarrow> holds v t x SF'"
  by (simp add: holds_def getOperandValue_ext)

lemma holds_int: "holds v IntT x SF \<longleftrightarrow> (\<exists>a. x = SInt a \<and> getOperandValue v SF = Some (int_gv (i64 a)))"
  by (cases x) (auto simp: holds_def)

lemma holds_float: "holds v FloatT x SF \<longleftrightarrow> (\<exists>d. x = SFloat d \<and> getOperandValue v SF = Some (GenericValue\<lparr>Untyped := d\<rparr>))"
  by (cases x) (auto simp: holds_def)

lemma holds_bool: "holds v BoolT x SF \<longleftrightarrow> (\<exists>q. x = bool_val q \<and> getOperandValue v SF = Some (int_gv (i1 q)))"
proof
  assume h: "holds v BoolT x SF"
  then obtain a where a: "x = SInt a" "a = 0 \<or> a = 1" by (cases x) (auto simp: holds_def)
  then have "x = bool_val (a \<noteq> 0)" by (auto simp: bool_val_def)
  moreover have "getOperandValue v SF = Some (int_gv (i1 (a \<noteq> 0)))"
    using h a(1) by (simp add: holds_def)
  ultimately show "\<exists>q. x = bool_val q \<and> getOperandValue v SF = Some (int_gv (i1 q))" by blast
next
  assume "\<exists>q. x = bool_val q \<and> getOperandValue v SF = Some (int_gv (i1 q))"
  then show "holds v BoolT x SF" by (auto simp: holds_def bool_val_def)
qed

lemmas holds_cases = holds_int holds_float holds_bool

text \<open>The relation between the state in which a step starts and the value it delivers.\<close>

definition computes :: "sty \<Rightarrow> (ExecutionContext \<Rightarrow> memory \<Rightarrow> sval \<Rightarrow> bool) \<Rightarrow>
    ExecutionContext \<Rightarrow> memory \<Rightarrow> genericvalue \<Rightarrow> bool" where
  "computes t f SF m g \<longleftrightarrow> (\<exists>x. f SF m x \<and> has_type x t \<and> g = gv_of t x)"

lemma has_type_simps [simp]: "has_type (SInt a) IntT" "has_type (SFloat d) FloatT"
  by simp_all

lemma emits_weaken:
  assumes "emits H P b st res T R" and "\<And>SF m g. R' SF m g \<Longrightarrow> R SF m g"
  shows "emits H P b st res T R'"
  using assms unfolding emits_def delivers_def by fastforce

lemma computes_weaken:
  assumes "emits H P b st res T (computes t F)" and "\<And>SF m y. F' SF m y \<Longrightarrow> F SF m y"
  shows "emits H P b st res T (computes t F')"
  using assms(1) by (rule emits_weaken) (auto simp: computes_def intro: assms(2))

text \<open>The rule for sequences, in terms of source values.\<close>

lemma emits_then:
  assumes "emits H P b st res (lty c t) (computes t F)"
    and "\<And>v Is. getType v = lty c t \<Longrightarrow> below (nextId (extend b Is st)) v \<Longrightarrow>
      emits H P b (extend b Is st) (k v (extend b Is st)) T' (computes u (K v))"
    and "\<And>v SF m y. F' SF m y \<Longrightarrow> has_type y u \<Longrightarrow> \<exists>x. F SF m x \<and> has_type x t \<and>
      (\<forall>SF'. frame_ext (nextId st) SF SF' \<longrightarrow> holds v t x SF' \<longrightarrow> K v SF' m y)"
  shows "emits H P b st (do { (v, st') \<leftarrow> res; k v st' }) T' (computes u F')"
proof (rule emits_bind [OF assms(1)])
  fix v SF m g' assume "computes u F' SF m g'"
  then obtain y where y: "F' SF m y" "has_type y u" "g' = gv_of u y" by (auto simp: computes_def)
  from assms(3) [OF y(1,2), of v] obtain x where x: "F SF m x" "has_type x t"
      "\<And>SF'. frame_ext (nextId st) SF SF' \<Longrightarrow> holds v t x SF' \<Longrightarrow> K v SF' m y"
    by blast
  then show "\<exists>g. computes t F SF m g \<and> (\<forall>SF'. frame_ext (nextId st) SF SF' \<longrightarrow>
      getOperandValue v SF' = Some g \<longrightarrow> computes u (K v) SF' m g')"
    using y(2,3) by (intro exI [of _ "gv_of t x"]) (auto simp: computes_def holds_def)
qed (use assms(2) in auto)

lemma emits_visitor_then:
  assumes "emits H P b st (strip res) (lty c t) (computes t F)"
    and "\<And>v Is. getType v = lty c t \<Longrightarrow> below (nextId (extend b Is st)) v \<Longrightarrow>
      emits H P b (extend b Is st) (strip (k (Some v) (extend b Is st))) T' (computes u (K v))"
    and "\<And>v SF m y. F' SF m y \<Longrightarrow> has_type y u \<Longrightarrow> \<exists>x. F SF m x \<and> has_type x t \<and>
      (\<forall>SF'. frame_ext (nextId st) SF SF' \<longrightarrow> holds v t x SF' \<longrightarrow> K v SF' m y)"
  shows "emits H P b st (strip (do { (v, st') \<leftarrow> res; k v st' })) T' (computes u F')"
proof -
  have "strip (do { (v, st') \<leftarrow> res; k v st' }) = do { (v, st') \<leftarrow> strip res; strip (k (Some v) st') }"
    using assms(1) by (auto elim!: emitsE dest!: stripD simp: strip_bind)
  then show ?thesis
    using emits_then [OF assms] by simp
qed

subsection \<open>Conversions\<close>

lemma castIntToBoolean_emits:
  assumes "insertPt st (getBuilder st) = Some b" and "getType v = lty (getBuilder st) IntT"
  shows "emits H P b st (castIntToBoolean v st) (lty (getBuilder st) BoolT)
    (computes BoolT (\<lambda>SF m y. \<exists>x. holds v IntT x SF \<and> y = bool_val (bits x \<noteq> 0)))"
  unfolding castIntToBoolean_def builder_context
  using emits_ICmp [OF assms(1), of v "ConstantInt (int64Ty (getBuilder st)) 0" H P ICMP_NE] assms(2)
  by (auto elim!: emits_weaken simp: getOperandValue_def [of "ConstantInt _ _"] getConstantValue_def
      executeICMP_NE_def icmpResult_def computes_def holds_int)

lemma executeFCMP_ONE_double [simp]:
  "executeFCMP_ONE H (TDouble c) x y =
     Some (int_gv (i1 (f_eq H (DoubleVal x) (DoubleVal x) \<and> f_eq H (DoubleVal y) (DoubleVal y) \<and>
       \<not> f_eq H (DoubleVal x) (DoubleVal y))))"
  by (auto simp: executeFCMP_ONE_def fcmpResult_def)

lemma castFloatToBoolean_emits:
  assumes "insertPt st (getBuilder st) = Some b" and "getType v = lty (getBuilder st) FloatT"
  shows "emits H P b st (castFloatToBoolean v st) (lty (getBuilder st) BoolT)
    (computes BoolT (\<lambda>SF m y. \<exists>x. holds v FloatT x SF \<and> y = bool_val (f_true H (bits x))))"
  unfolding castFloatToBoolean_def builder_context
  using emits_FCmp [OF assms(1), of v "ConstantFP (TDouble (getBuilder st)) 0" H P FCMP_ONE] assms(2)
  by (auto elim!: emits_weaken simp: getOperandValue_def [of "ConstantFP _ _"] getConstantValue_def
      f_true_def computes_def holds_float conj_ac)

lemma castBooleantoInt_emits:
  assumes "insertPt st (getBuilder st) = Some b" and "getType v = lty (getBuilder st) BoolT"
  shows "emits H P b st (castBooleantoInt v st) (lty (getBuilder st) IntT) (computes IntT (\<lambda>SF m y. holds v BoolT y SF))"
  unfolding castBooleantoInt_def CreateZExtOrBitCast_def
  using emits_Cast [OF assms(1), of v "int64Ty (getBuilder st)" ZExt H P] assms(2)
  by (auto elim!: emits_weaken simp: executeZExtInst_def computes_def holds_bool)

lemma castIntToFloat_emits:
  assumes "insertPt st (getBuilder st) = Some b" and "getType v = lty (getBuilder st) IntT"
  shows "emits H P b st (castIntToFloat v st) (lty (getBuilder st) FloatT)
    (computes FloatT (\<lambda>SF m y. \<exists>x. holds v IntT x SF \<and> y = SFloat (f_of_int H (bits x))))"
  unfolding castIntToFloat_def
  using emits_Cast [OF assms(1), of v "TDouble (getBuilder st)" SIToFP H P] assms(2)
  by (auto elim!: emits_weaken simp: executeSIToFPInst_def roundToDouble_def computes_def holds_int)

lemma CreateNot_emits:
  assumes "insertPt st c = Some b" and "getType v = lty c' BoolT"
  shows "emits H P b st (CreateNot c v st) (lty c' BoolT)
    (computes BoolT (\<lambda>SF m y. \<exists>x. holds v BoolT x SF \<and> y = bool_val (bits x = 0)))"
  unfolding CreateNot_def
  using emits_BinOp [OF assms(1), of Xor v "ConstantInt (getType v) (- 1)" H P] assms(2)
  by (auto elim!: emits_weaken simp: binop_ok_def getOperandValue_def [of "ConstantInt _ _"] getConstantValue_def
      computes_def holds_bool)

definition norm :: "sty \<Rightarrow> sty" where
  "norm t = (if integral t then IntT else FloatT)"

lemma norm_simps [simp]: "norm IntT = IntT" "norm BoolT = IntT" "norm FloatT = FloatT"
  by (simp_all add: norm_def)

lemma has_type_norm: "has_type x t \<Longrightarrow> has_type x (norm t)"
  by (cases x; cases t) auto

lemma toDouble_scalar: "getType v = lty (getBuilder st) t \<Longrightarrow> toDouble v st = Some (v, st)"
  by (cases t) (simp_all add: toDouble_def)

lemma emits_holds:
  assumes "getType v = lty c t" and "below (nextId st) v"
  shows "emits H P b st (Some (v, st)) (lty c t) (computes t (\<lambda>SF m x. holds v t x SF))"
  unfolding assms(1) [symmetric]
  by (rule emits_return [OF assms(2)]) (auto simp: computes_def holds_def)

lemma toInt64_emits:
  assumes "insertPt st (getBuilder st) = Some b" and "getType v = lty (getBuilder st) t" and "below (nextId st) v"
  shows "emits H P b st (toInt64 v st) (lty (getBuilder st) (norm t))
    (computes (norm t) (\<lambda>SF m x. holds v t x SF))"
proof (cases "t = BoolT")
  case True
  then show ?thesis using castBooleantoInt_emits [OF assms(1), of v H P] assms(2) by (simp add: toInt64_def)
next
  case False
  then have "toInt64 v st = Some (v, st)" "norm t = t"
    using assms(2) by (cases t; simp add: toInt64_def)+
  then show ?thesis using emits_holds [OF assms(2,3)] by simp
qed

subsection \<open>Unary operators\<close>

abbreviation unary_rel :: "'w host \<Rightarrow> string \<Rightarrow> llvalue \<Rightarrow> sty \<Rightarrow> ExecutionContext \<Rightarrow> memory \<Rightarrow> sval \<Rightarrow> bool" where
  "unary_rel H op v t SF m y \<equiv> \<exists>x. holds v t x SF \<and> eval_unary H op x = Some y"

lemma op_char_simps [simp]: "op_char ''-'' = CHR ''-''" "op_char ''!'' = CHR ''!''"
  by (simp_all add: op_char_def)

lemma not_emits:
  assumes "insertPt st (getBuilder st) = Some b"
    and "emits H P b st r (lty (getBuilder st) BoolT) (computes BoolT F)"
  shows "emits H P b st (do { (b, st) \<leftarrow> r; (n, st) \<leftarrow> CreateNot (getBuilder st) b st; castBooleantoInt n st })
    (lty (getBuilder st) IntT) (computes IntT (\<lambda>SF m y. \<exists>x. F SF m x \<and> has_type x BoolT \<and> y = bool_val (bits x = 0)))"
proof (rule emits_then [OF assms(2)])
  fix v Is
  assume v: "getType v = lty (getBuilder st) BoolT"
  let ?st = "extend b Is st"
  show "emits H P b ?st (do { (n, st) \<leftarrow> CreateNot (getBuilder ?st) v ?st; castBooleantoInt n st })
    (lty (getBuilder st) IntT) (computes IntT (\<lambda>SF m y. \<exists>x. holds v BoolT x SF \<and> y = bool_val (bits x = 0)))"
  proof (rule emits_then [OF CreateNot_emits])
    fix n Js assume "getType n = lty (getBuilder st) BoolT"
    then show "emits H P b (extend b Js ?st) (castBooleantoInt n (extend b Js ?st)) (lty (getBuilder st) IntT)
        (computes IntT (\<lambda>SF m y. holds n BoolT y SF))"
      using castBooleantoInt_emits [of "extend b Js ?st" b n H P] assms(1) by simp
  qed (use assms(1) v in auto)
qed auto

lemma unaryInt_emits:
  assumes "insertPt st (getBuilder st) = Some b" and "getType v = lty (getBuilder st) IntT"
    and "typeof_unary op IntT = Some u"
  shows "emits H P b st (strip (unaryInt (op_char op) v st)) (lty (getBuilder st) u) (computes u (unary_rel H op v IntT))"
proof (cases "op = ''-''")
  case True
  then show ?thesis
    using emits_BinOp [OF assms(1), of Mul "ConstantInt (int64Ty (getBuilder st)) (- 1)" v H P] assms(2,3)
    by (auto elim!: emits_weaken simp: unaryInt_def builder_context binop_ok_def getOperandValue_def [of "ConstantInt _ _"]
        getConstantValue_def computes_def holds_int typeof_unary_def)
next
  case False
  then have op: "op = ''!''" "u = IntT" using assms(3) by (auto simp: typeof_unary_def split: if_splits)
  from not_emits [OF assms(1) castIntToBoolean_emits [OF assms(1,2), of H P]] show ?thesis
    unfolding op unaryInt_def
    by (auto elim!: emits_weaken simp: strip_bind computes_def holds_int)
qed

lemma unaryFloat_emits:
  assumes "insertPt st (getBuilder st) = Some b" and "getType v = lty (getBuilder st) FloatT"
    and "typeof_unary op FloatT = Some u"
  shows "emits H P b st (strip (unaryFloat (op_char op) v st)) (lty (getBuilder st) u) (computes u (unary_rel H op v FloatT))"
proof (cases "op = ''-''")
  case True
  then show ?thesis
    using emits_BinOp [OF assms(1), of FMul "ConstantFP (TDouble (getBuilder st)) 0xBFF0000000000000" v H P] assms(2,3)
    by (auto elim!: emits_weaken simp: unaryFloat_def builder_context binop_ok_def getOperandValue_def [of "ConstantFP _ _"]
        getConstantValue_def computes_def holds_float typeof_unary_def executeFMulInst_def)
next
  case False
  then have op: "op = ''!''" "u = IntT" using assms(3) by (auto simp: typeof_unary_def split: if_splits)
  from not_emits [OF assms(1) castFloatToBoolean_emits [OF assms(1,2), of H P]] show ?thesis
    unfolding op unaryFloat_def
    by (auto elim!: emits_weaken simp: strip_bind computes_def holds_float)
qed

lemma typeof_unary_norm: "typeof_unary op t = typeof_unary op (norm t)"
  by (cases t) (simp_all add: typeof_unary_def)

lemma visitUnaryOperator_emits:
  assumes "insertPt st (getBuilder st) = Some b" and "typeof_unary op t = Some u"
    and "emits H P b st (strip (vexp st)) (lty (getBuilder st) t) (computes t F)"
  shows "emits H P b st (strip (visitUnaryOperator op vexp st)) (lty (getBuilder st) u)
    (computes u (\<lambda>SF m y. \<exists>x. F SF m x \<and> has_type x t \<and> eval_unary H op x = Some y))"
  unfolding visitUnaryOperator_def
proof (rule emits_visitor_then [OF assms(3)])
  fix v Is
  assume v: "getType v = lty (getBuilder st) t" "below (nextId (extend b Is st)) v"
  let ?st = "extend b Is st"
  have ins: "insertPt ?st (getBuilder ?st) = Some b" using assms(1) by simp
  have ty: "typeof_unary op (norm t) = Some u" using assms(2) typeof_unary_norm by metis
  show "emits H P b ?st (strip (let expr = case Some v of None \<Rightarrow> getIntNullPointer ?st | Some v \<Rightarrow> v in
      do { (expr, st) \<leftarrow> toInt64 expr ?st; (expr, st) \<leftarrow> toDouble expr st;
        (if isVoidTy (getType expr) then ErrorV ''Unary operator applied to void type'' st
         else if isPointerTy (getType expr) then unaryPointer (op_char op) expr st
         else if isDoubleTy (getType expr) then unaryFloat (op_char op) expr st
         else if isIntegerTy (getType expr) then unaryInt (op_char op) expr st
         else ErrorV ''Unable to evaluate unary operator applied to struct type'' st) }))
    (lty (getBuilder st) u) (computes u (unary_rel H op v t))"
    unfolding Let_def option.case strip_bind
  proof (rule emits_then [OF toInt64_emits [OF ins _ v(2), of t]])
    fix w Js
    assume w: "getType w = lty (getBuilder ?st) (norm t)"
    let ?st' = "extend b Js ?st"
    have "emits H P b ?st' (strip (if isDoubleTy (getType w) then unaryFloat (op_char op) w ?st' else unaryInt (op_char op) w ?st'))
        (lty (getBuilder st) u) (computes u (unary_rel H op w (norm t)))"
      using unaryInt_emits [of ?st' b w op u H P] unaryFloat_emits [of ?st' b w op u H P] w ins ty
      by (cases t) auto
    then show "emits H P b ?st' (do { (expr, st) \<leftarrow> toDouble w ?st'; strip
        (if isVoidTy (getType expr) then ErrorV ''Unary operator applied to void type'' st
         else if isPointerTy (getType expr) then unaryPointer (op_char op) expr st
         else if isDoubleTy (getType expr) then unaryFloat (op_char op) expr st
         else if isIntegerTy (getType expr) then unaryInt (op_char op) expr st
         else ErrorV ''Unable to evaluate unary operator applied to struct type'' st) })
      (lty (getBuilder st) u) (computes u (unary_rel H op w (norm t)))"
      using w toDouble_scalar [of w ?st' "norm t"] by (cases t) simp_all
  qed (use v has_type_norm in \<open>auto simp: holds_def\<close>)
qed auto

subsection \<open>Binary operators\<close>

abbreviation binary_rel :: "'w host \<Rightarrow> string \<Rightarrow> llvalue \<Rightarrow> sty \<Rightarrow> llvalue \<Rightarrow> sty \<Rightarrow>
    ExecutionContext \<Rightarrow> memory \<Rightarrow> sval \<Rightarrow> bool" where
  "binary_rel H op l s r t SF m z \<equiv> \<exists>x y. holds l s x SF \<and> holds r t y SF \<and> eval_binary H op x y = Some z"

lemma arith_op:
  assumes "op \<in> set arith_ops"
  shows "\<exists>bop ib fb. map_of switchMap op = Some bop \<and> binopArith bop = Some ib \<and> binopFloat bop = Some fb \<and>
    int_binop ib \<and> \<not> int_binop fb \<and>
    (\<forall>c x y. executeBinary H ib (TInt c 64) (int_gv (i64 x)) (int_gv (i64 y)) = map_option (gv_of IntT) (eval_int op x y)) \<and>
    (\<forall>c x y. executeBinary H fb (TDouble c) (GenericValue\<lparr>Untyped := x\<rparr>) (GenericValue\<lparr>Untyped := y\<rparr>) =
       map_option (gv_of FloatT) (eval_float H op x y))"
  using assms
  by (auto simp: arith_ops_def switchMap_def eval_int_def eval_float_def ap_sdiv_64 executeFAddInst_def
      executeFSubInst_def executeFMulInst_def executeFDivInst_def)

lemma comparison_op:
  assumes "op \<in> set comparison_ops"
  shows "\<exists>bop p q. map_of switchMap op = Some bop \<and> binopArith bop = None \<and> binopFloat bop = None \<and>
    binopICmp bop = Some p \<and> binopFCmp bop = Some q \<and>
    (\<forall>c x y. executeICmp p (TInt c 64) (int_gv (i64 x)) (int_gv (i64 y)) = map_option (gv_of BoolT) (eval_int op x y)) \<and>
    (\<forall>c x y. executeFCmp H q (TDouble c) (GenericValue\<lparr>Untyped := x\<rparr>) (GenericValue\<lparr>Untyped := y\<rparr>) =
       map_option (gv_of BoolT) (eval_float H op x y))"
  using assms
  by (auto simp: comparison_ops_def switchMap_def eval_int_def eval_float_def icmpResult_def fcmpResult_def
      executeICMP_EQ_def executeICMP_NE_def executeICMP_SLT_def executeICMP_SGT_def executeICMP_SLE_def executeICMP_SGE_def
      executeFCMP_OEQ_def executeFCMP_OLT_def executeFCMP_OGT_def executeFCMP_OLE_def executeFCMP_OGE_def)

lemma logical_op:
  assumes "op \<in> set logical_ops"
  shows "\<exists>bop. map_of switchMap op = Some bop \<and> binopArith bop = None \<and> binopFloat bop = None \<and>
    binopICmp bop = None \<and> binopFCmp bop = None \<and> (bop = BOP_OR \<longleftrightarrow> op = ''||'')"
  using assms by (auto simp: logical_ops_def switchMap_def)

lemma comparison_bool:
  assumes "op \<in> set comparison_ops \<or> op \<in> set logical_ops"
  shows "eval_int op a b = Some y \<Longrightarrow> has_type y BoolT" and "eval_float H op c d = Some y \<Longrightarrow> has_type y BoolT"
  using assms by (auto simp: eval_int_def eval_float_def op_list_defs)

lemma widen_emits:
  assumes "insertPt st (getBuilder st) = Some b"
    and "emits H P b st r (lty (getBuilder st) BoolT) (computes BoolT F)"
    and "\<And>SF m y. F SF m y \<Longrightarrow> has_type y BoolT"
  shows "emits H P b st (do { (v, st) \<leftarrow> r; castBooleantoInt v st }) (lty (getBuilder st) IntT) (computes IntT F)"
proof (rule emits_then [OF assms(2)])
  fix v Is assume "getType v = lty (getBuilder st) BoolT"
  then show "emits H P b (extend b Is st) (castBooleantoInt v (extend b Is st)) (lty (getBuilder st) IntT)
      (computes IntT (\<lambda>SF m y. holds v BoolT y SF))"
    using castBooleantoInt_emits [of "extend b Is st" b v H P] assms(1) by simp
qed (use assms(3) in auto)

lemma CreateOr_emits:
  assumes "insertPt st c = Some b" and "getType l = lty c' BoolT" and "getType r = lty c' BoolT" and "below (nextId st) l"
  shows "emits H P b st (CreateOr c l r st) (lty c' BoolT)
    (computes BoolT (\<lambda>SF m z. \<exists>p q. holds l BoolT (bool_val p) SF \<and> holds r BoolT (bool_val q) SF \<and> z = bool_val (p \<or> q)))"
proof (cases "is_constant r \<and> isNullValue r")
  case True
  have "\<not> q" if "holds r BoolT (bool_val q) SF" for q SF
    using True that assms(3)
    by (cases r) (auto simp: holds_def getOperandValue_def getConstantValue_def int_gv_def GenericValue_def PTOGV_def split: if_splits)
  then show ?thesis
    using emits_holds [OF assms(2,4), of H P b] True
    by (fastforce elim!: emits_weaken simp: CreateOr_def computes_def)
next
  case False
  then show ?thesis
    using emits_BinOp [OF assms(1), of Or l r H P] assms(2,3)
    by (auto elim!: emits_weaken simp: CreateOr_def binop_ok_def computes_def holds_def)
qed

lemma even_word_of_int: "even (word_of_int i :: int64) \<longleftrightarrow> even i"
  using bit_word_of_int_iff [of i 0, where 'a = 64] by (simp add: bit_0)

lemma CreateAnd_emits:
  assumes "insertPt st c = Some b" and "getType l = lty c' BoolT" and "getType r = lty c' BoolT" and "below (nextId st) l"
  shows "emits H P b st (CreateAnd c l r st) (lty c' BoolT)
    (computes BoolT (\<lambda>SF m z. \<exists>p q. holds l BoolT (bool_val p) SF \<and> holds r BoolT (bool_val q) SF \<and> z = bool_val (p \<and> q)))"
proof (cases "isAllOnesValue r")
  case True
  then obtain i where i: "r = ConstantInt (TInt c' (Suc 0)) i" "odd i"
    using assms(3) by (cases r rule: isAllOnesValue.cases) (auto simp: mod_2_eq_odd split: if_splits)
  then have "q" if "holds r BoolT (bool_val q) SF" for q SF
    using that by (auto simp: holds_def getOperandValue_def getConstantValue_def even_word_of_int)
  then show ?thesis
    using emits_holds [OF assms(2,4), of H P b] True
    by (fastforce elim!: emits_weaken simp: CreateAnd_def computes_def)
next
  case False
  then show ?thesis
    using emits_BinOp [OF assms(1), of And l r H P] assms(2,3)
    by (auto elim!: emits_weaken simp: CreateAnd_def binop_ok_def computes_def holds_def)
qed

text \<open>Both operands are made boolean, then combined.\<close>

lemma logical_emits:
  assumes ins: "insertPt st (getBuilder st) = Some b"
    and l: "getType l = lty (getBuilder st) t" "below (nextId st) l"
    and r: "getType r = lty (getBuilder st) t" "below (nextId st) r"
    and toBool: "\<And>st' v. insertPt st' (getBuilder st') = Some b \<Longrightarrow> getType v = lty (getBuilder st') t \<Longrightarrow>
      emits H P b st' (toBool v st') (lty (getBuilder st') BoolT) (computes BoolT (\<lambda>SF m y. \<exists>x. holds v t x SF \<and> y = bool_val (B x)))"
  shows "emits H P b st (logical bop toBool l r st) (lty (getBuilder st) BoolT)
    (computes BoolT (\<lambda>SF m z. \<exists>x y. holds l t x SF \<and> holds r t y SF \<and>
       z = bool_val (if bop = BOP_OR then B x \<or> B y else B x \<and> B y)))"
  unfolding logical_def
proof (rule emits_then [OF toBool [OF ins l(1)]])
  fix v Is
  assume v: "getType v = lty (getBuilder st) BoolT" "below (nextId (extend b Is st)) v"
  let ?st = "extend b Is st"
  have r': "below (nextId ?st) r" using r(2) by (auto intro: below_mono)
  show "emits H P b ?st (do { (r, st) \<leftarrow> toBool r ?st;
        (if bop = BOP_OR then CreateOr (getBuilder st) v r st else CreateAnd (getBuilder st) v r st) })
      (lty (getBuilder st) BoolT) (computes BoolT (\<lambda>SF m z. \<exists>p y. holds v BoolT (bool_val p) SF \<and> holds r t y SF \<and>
        z = bool_val (if bop = BOP_OR then p \<or> B y else p \<and> B y)))"
  proof (rule emits_then [OF toBool])
    fix w Js
    assume w: "getType w = lty (getBuilder ?st) BoolT"
    let ?st' = "extend b Js ?st"
    have "insertPt ?st' (getBuilder ?st') = Some b" "below (nextId ?st') v"
      using ins v(2) by (auto intro: below_mono)
    then show "emits H P b ?st' (if bop = BOP_OR then CreateOr (getBuilder ?st') v w ?st' else CreateAnd (getBuilder ?st') v w ?st')
        (lty (getBuilder st) BoolT) (computes BoolT (\<lambda>SF m z. \<exists>p q. holds v BoolT (bool_val p) SF \<and>
          holds w BoolT (bool_val q) SF \<and> z = bool_val (if bop = BOP_OR then p \<or> q else p \<and> q)))"
      using CreateOr_emits [of ?st' _ b v _ w H P] CreateAnd_emits [of ?st' _ b v _ w H P] v(1) w by simp
  next
    fix w SF m z
    assume "\<exists>p y. holds v BoolT (bool_val p) SF \<and> holds r t y SF \<and> z = bool_val (if bop = BOP_OR then p \<or> B y else p \<and> B y)"
    then show "\<exists>x. (\<exists>y. holds r t y SF \<and> x = bool_val (B y)) \<and> has_type x BoolT \<and>
        (\<forall>SF'. frame_ext (nextId ?st) SF SF' \<longrightarrow> holds w BoolT x SF' \<longrightarrow> (\<exists>p q. holds v BoolT (bool_val p) SF' \<and>
          holds w BoolT (bool_val q) SF' \<and> z = bool_val (if bop = BOP_OR then p \<or> q else p \<and> q)))"
      using holds_ext [OF _ _ v(2)] has_type_bool(1) by blast
  qed (use ins r in auto)
next
  fix v SF m z
  assume "\<exists>x y. holds l t x SF \<and> holds r t y SF \<and> z = bool_val (if bop = BOP_OR then B x \<or> B y else B x \<and> B y)"
  then show "\<exists>x. (\<exists>y. holds l t y SF \<and> x = bool_val (B y)) \<and> has_type x BoolT \<and>
      (\<forall>SF'. frame_ext (nextId st) SF SF' \<longrightarrow> holds v BoolT x SF' \<longrightarrow> (\<exists>p y. holds v BoolT (bool_val p) SF' \<and>
        holds r t y SF' \<and> z = bool_val (if bop = BOP_OR then p \<or> B y else p \<and> B y)))"
    using holds_ext [OF _ _ r(2)] has_type_bool(1) by blast
qed

lemma binaryInt_emits:
  assumes ins: "insertPt st (getBuilder st) = Some b"
    and l: "getType l = lty (getBuilder st) IntT" "below (nextId st) l"
    and r: "getType r = lty (getBuilder st) IntT" "below (nextId st) r"
    and ty: "typeof_binary op IntT IntT = Some u"
  shows "\<exists>bop. map_of switchMap op = Some bop \<and> emits H P b st (strip (binaryInt bop l r st)) (lty (getBuilder st) u)
    (computes u (binary_rel H op l IntT r IntT))"
proof -
  consider (arith) "op \<in> set arith_ops" "u = IntT" | (comparison) "op \<in> set comparison_ops" "u = IntT"
    | (logical) "op \<in> set logical_ops" "u = BoolT"
    using ty by (auto simp: typeof_binary_def split: if_splits)
  then show ?thesis
proof cases
  case arith
  obtain bop ib where op: "map_of switchMap op = Some bop" "binopArith bop = Some ib" "int_binop ib"
      "\<And>c x y. executeBinary H ib (TInt c 64) (int_gv (i64 x)) (int_gv (i64 y)) = map_option (gv_of IntT) (eval_int op x y)"
    using arith_op [OF arith(1), of H] by blast
  then show ?thesis
    using emits_BinOp [OF ins, of ib l r H P] l(1) r(1) arith(2)
    by (fastforce elim!: emits_weaken simp: binaryInt_def binop_ok_def computes_def holds_int)
next
  case comparison
  obtain bop p where op: "map_of switchMap op = Some bop" "binopArith bop = None" "binopICmp bop = Some p"
      "\<And>c x y. executeICmp p (TInt c 64) (int_gv (i64 x)) (int_gv (i64 y)) = map_option (gv_of BoolT) (eval_int op x y)"
    using comparison_op [OF comparison(1), of H] by blast
  have cmp: "emits H P b st (CreateICmp (getBuilder st) p l r st) (lty (getBuilder st) BoolT)
      (computes BoolT (binary_rel H op l IntT r IntT))"
    using emits_ICmp [OF ins, of l r H P p] l(1) r(1) op(4)
    by (fastforce elim!: emits_weaken simp: computes_def holds_int)
  have bool: "has_type z BoolT" if "binary_rel H op l IntT r IntT SF m z" for SF m z
    using that comparison(1) by (auto simp: holds_int intro: comparison_bool(1))
  have "emits H P b st (strip (binaryInt bop l r st)) (lty (getBuilder st) u) (computes u (binary_rel H op l IntT r IntT))"
    using widen_emits [OF ins cmp bool] comparison(2) op(2,3) by (simp add: binaryInt_def strip_bind)
  then show ?thesis using op(1) by blast
next
  case logical
  obtain bop where op: "map_of switchMap op = Some bop" "binopArith bop = None" "binopICmp bop = None"
      "bop = BOP_OR \<longleftrightarrow> op = ''||''"
    using logical_op [OF logical(1)] by blast
  have "emits H P b st (logical bop castIntToBoolean l r st) (lty (getBuilder st) BoolT)
    (computes BoolT (\<lambda>SF m z. \<exists>x y. holds l IntT x SF \<and> holds r IntT y SF \<and>
       z = bool_val (if bop = BOP_OR then bits x \<noteq> 0 \<or> bits y \<noteq> 0 else bits x \<noteq> 0 \<and> bits y \<noteq> 0)))"
    by (rule logical_emits [OF ins l r]) (rule castIntToBoolean_emits)
  then have "emits H P b st (strip (binaryInt bop l r st)) (lty (getBuilder st) BoolT)
    (computes BoolT (binary_rel H op l IntT r IntT))"
    unfolding binaryInt_def op(2,3) option.case strip_someV
    by (rule computes_weaken) (use logical(1) op in \<open>auto simp: holds_int eval_int_def logical_ops_def\<close>)
  then show ?thesis using op logical(2) by auto
qed
qed

lemma binaryFloat_emits:
  assumes ins: "insertPt st (getBuilder st) = Some b"
    and l: "getType l = lty (getBuilder st) FloatT" "below (nextId st) l"
    and r: "getType r = lty (getBuilder st) FloatT" "below (nextId st) r"
    and ty: "typeof_binary op FloatT FloatT = Some u"
  shows "\<exists>bop. map_of switchMap op = Some bop \<and> emits H P b st (strip (binaryFloat bop l r st)) (lty (getBuilder st) u)
    (computes u (binary_rel H op l FloatT r FloatT))"
proof -
  have bool: "has_type z BoolT" if "binary_rel H op l FloatT r FloatT SF m z" "op \<notin> set arith_ops" for SF m z
    using that ty by (auto simp: holds_float typeof_binary_def intro: comparison_bool(2) split: if_splits)
  consider (arith) "op \<in> set arith_ops" "u = FloatT" | (comparison) "op \<in> set comparison_ops" "op \<notin> set arith_ops" "u = IntT"
    | (logical) "op \<in> set logical_ops" "op \<notin> set arith_ops" "u = IntT"
    using ty by (auto simp: typeof_binary_def split: if_splits)
  then show ?thesis
  proof cases
    case arith
    obtain bop fb where op: "map_of switchMap op = Some bop" "binopFloat bop = Some fb" "\<not> int_binop fb"
        "\<And>c x y. executeBinary H fb (TDouble c) (GenericValue\<lparr>Untyped := x\<rparr>) (GenericValue\<lparr>Untyped := y\<rparr>) =
          map_option (gv_of FloatT) (eval_float H op x y)"
      using arith_op [OF arith(1), of H] by blast
    then show ?thesis
      using emits_BinOp [OF ins, of fb l r H P] l(1) r(1) arith(2)
      by (fastforce elim!: emits_weaken simp: binaryFloat_def binop_ok_def computes_def holds_float)
  next
    case comparison
    obtain bop q where op: "map_of switchMap op = Some bop" "binopFloat bop = None" "binopFCmp bop = Some q"
        "\<And>c x y. executeFCmp H q (TDouble c) (GenericValue\<lparr>Untyped := x\<rparr>) (GenericValue\<lparr>Untyped := y\<rparr>) =
          map_option (gv_of BoolT) (eval_float H op x y)"
      using comparison_op [OF comparison(1), of H] by blast
    have cmp: "emits H P b st (CreateFCmp (getBuilder st) q l r st) (lty (getBuilder st) BoolT)
        (computes BoolT (binary_rel H op l FloatT r FloatT))"
      using emits_FCmp [OF ins, of l r H P q] l(1) r(1) op(4)
      by (fastforce elim!: emits_weaken simp: computes_def holds_float)
    have "emits H P b st (strip (binaryFloat bop l r st)) (lty (getBuilder st) u) (computes u (binary_rel H op l FloatT r FloatT))"
      using widen_emits [OF ins cmp bool [OF _ comparison(2)]] comparison(3) op(2,3) by (simp add: binaryFloat_def strip_bind)
    then show ?thesis using op(1) by blast
  next
    case logical
    obtain bop where op: "map_of switchMap op = Some bop" "binopFloat bop = None" "binopFCmp bop = None"
        "bop = BOP_OR \<longleftrightarrow> op = ''||''"
      using logical_op [OF logical(1)] by blast
    have "emits H P b st (logical bop castFloatToBoolean l r st) (lty (getBuilder st) BoolT)
      (computes BoolT (\<lambda>SF m z. \<exists>x y. holds l FloatT x SF \<and> holds r FloatT y SF \<and>
         z = bool_val (if bop = BOP_OR then f_true H (bits x) \<or> f_true H (bits y) else f_true H (bits x) \<and> f_true H (bits y))))"
      by (rule logical_emits [OF ins l r]) (rule castFloatToBoolean_emits)
    then have cmp: "emits H P b st (logical bop castFloatToBoolean l r st) (lty (getBuilder st) BoolT)
      (computes BoolT (binary_rel H op l FloatT r FloatT))"
      by (rule computes_weaken) (use logical(1) op in \<open>auto simp: holds_float eval_float_def logical_ops_def\<close>)
    have "emits H P b st (strip (binaryFloat bop l r st)) (lty (getBuilder st) u) (computes u (binary_rel H op l FloatT r FloatT))"
      using widen_emits [OF ins cmp bool [OF _ logical(2)]] logical(3) op(2,3) by (simp add: binaryFloat_def strip_bind)
    then show ?thesis using op(1) by blast
  qed
qed

subsection \<open>Promotion of operands\<close>

text \<open>
  The rule for the conversions of both operands, for a continuation that works on operands of the
  converted types.
\<close>

lemma normalise_emits:
  assumes ins: "insertPt st (getBuilder st) = Some b"
    and l: "getType l = lty (getBuilder st) s" "below (nextId st) l"
    and r: "getType r = lty (getBuilder st) t" "below (nextId st) r"
    and k: "\<And>l' r' Is. getType l' = lty (getBuilder st) (norm s) \<Longrightarrow> below (nextId (extend b Is st)) l' \<Longrightarrow>
      getType r' = lty (getBuilder st) (norm t) \<Longrightarrow> below (nextId (extend b Is st)) r' \<Longrightarrow>
      emits H P b (extend b Is st) (strip (k l' r' (extend b Is st))) T'
        (computes u (\<lambda>SF m z. \<exists>x y. holds l' (norm s) x SF \<and> holds r' (norm t) y SF \<and> G x y z))"
  shows "emits H P b st (do { (l, st) \<leftarrow> toInt64 l st; (r, st) \<leftarrow> toInt64 r st;
      (l, st) \<leftarrow> toDouble l st; (r, st) \<leftarrow> toDouble r st; strip (k l r st) }) T'
    (computes u (\<lambda>SF m z. \<exists>x y. holds l s x SF \<and> holds r t y SF \<and> G x y z))"
proof (rule emits_then [OF toInt64_emits [OF ins l]])
  fix l' Is
  assume l': "getType l' = lty (getBuilder st) (norm s)" "below (nextId (extend b Is st)) l'"
  let ?st = "extend b Is st"
  have r': "getType r = lty (getBuilder ?st) t" "below (nextId ?st) r" "insertPt ?st (getBuilder ?st) = Some b"
    using r ins by (auto intro: below_mono)
  show "emits H P b ?st (do { (r, st) \<leftarrow> toInt64 r ?st; (l, st) \<leftarrow> toDouble l' st; (r, st) \<leftarrow> toDouble r st; strip (k l r st) }) T'
      (computes u (\<lambda>SF m z. \<exists>x y. holds l' (norm s) x SF \<and> holds r t y SF \<and> G x y z))"
  proof (rule emits_then [OF toInt64_emits [OF r'(3,1,2)]])
    fix w Js
    assume w: "getType w = lty (getBuilder ?st) (norm t)" "below (nextId (extend b Js ?st)) w"
    let ?st' = "extend b Js ?st"
    have "below (nextId ?st') l'" using l'(2) by (auto intro: below_mono)
    then have "emits H P b ?st' (strip (k l' w ?st')) T' (computes u (\<lambda>SF m z. \<exists>x y. holds l' (norm s) x SF \<and> holds w (norm t) y SF \<and> G x y z))"
      using k [of l' "Is @ Js" w] l'(1) w by simp
    then show "emits H P b ?st' (do { (l, st) \<leftarrow> toDouble l' ?st'; (r, st) \<leftarrow> toDouble w st; strip (k l r st) }) T'
      (computes u (\<lambda>SF m z. \<exists>x y. holds l' (norm s) x SF \<and> holds w (norm t) y SF \<and> G x y z))"
      using toDouble_scalar [of l' ?st' "norm s"] toDouble_scalar [of w ?st' "norm t"] l'(1) w(1) by simp
  next
    fix v SF m z assume "\<exists>x y. holds l' (norm s) x SF \<and> holds r t y SF \<and> G x y z"
    then show "\<exists>x. holds r t x SF \<and> has_type x (norm t) \<and> (\<forall>SF'. frame_ext (nextId ?st) SF SF' \<longrightarrow> holds v (norm t) x SF' \<longrightarrow>
        (\<exists>x y. holds l' (norm s) x SF' \<and> holds v (norm t) y SF' \<and> G x y z))"
      using holds_ext [OF _ _ l'(2)] has_type_norm unfolding holds_def by metis
  qed
next
  fix v SF m z assume "\<exists>x y. holds l s x SF \<and> holds r t y SF \<and> G x y z"
  then show "\<exists>x. holds l s x SF \<and> has_type x (norm s) \<and> (\<forall>SF'. frame_ext (nextId st) SF SF' \<longrightarrow> holds v (norm s) x SF' \<longrightarrow>
      (\<exists>x y. holds v (norm s) x SF' \<and> holds r t y SF' \<and> G x y z))"
    using holds_ext [OF _ _ r(2)] has_type_norm unfolding holds_def by metis
qed

definition common :: "sty \<Rightarrow> sty \<Rightarrow> sty" where
  "common s t = (if s = FloatT \<or> t = FloatT then FloatT else IntT)"

lemma eval_binary_conv:
  "has_type x s \<Longrightarrow> has_type y t \<Longrightarrow> eval_binary H op (conv H (common s t) x) (conv H (common s t) y) = eval_binary H op x y"
  by (cases x; cases y; cases s; cases t) (auto simp: common_def)

lemma binary_rel_conv:
  assumes "binary_rel H op v s w t SF m z"
  shows "\<exists>x y. holds v s x SF \<and> holds w t y SF \<and> eval_binary H op (conv H (common s t) x) (conv H (common s t) y) = Some z"
  using assms eval_binary_conv unfolding holds_def by metis

lemma promoteOperands_emits:
  assumes ins: "insertPt st (getBuilder st) = Some b"
    and l: "getType l = lty (getBuilder st) s" "below (nextId st) l"
    and r: "getType r = lty (getBuilder st) t" "below (nextId st) r"
    and ok: "\<not> (s = BoolT \<and> t = FloatT)" "\<not> (s = FloatT \<and> t = BoolT)"
    and k: "\<And>l' r' Is. getType l' = lty (getBuilder st) (common s t) \<Longrightarrow> below (nextId (extend b Is st)) l' \<Longrightarrow>
      getType r' = lty (getBuilder st) (common s t) \<Longrightarrow> below (nextId (extend b Is st)) r' \<Longrightarrow>
      emits H P b (extend b Is st) (strip (k l' r' (extend b Is st))) T'
        (computes u (\<lambda>SF m z. \<exists>x y. holds l' (common s t) x SF \<and> holds r' (common s t) y SF \<and> G x y z))"
  shows "emits H P b st (strip (do { ((l, r), st) \<leftarrow> promoteOperands l r st; k l r st })) T'
    (computes u (\<lambda>SF m z. \<exists>x y. holds l s x SF \<and> holds r t y SF \<and> G (conv H (common s t) x) (conv H (common s t) y) z))"
proof -
  let ?rest = "\<lambda>l r st. do { (l, st) \<leftarrow> toInt64 l st; (r, st) \<leftarrow> toInt64 r st;
      (l, st) \<leftarrow> toDouble l st; (r, st) \<leftarrow> toDouble r st; strip (k l r st) }"
  have unfolded: "strip (do { ((l, r), st) \<leftarrow> promoteOperands l r st; k l r st }) =
      (if isIntegerTy (getType l) \<and> isDoubleTy (getType r) then do { (l, st) \<leftarrow> castIntToFloat l st; ?rest l r st }
       else if isDoubleTy (getType l) \<and> isIntegerTy (getType r) then do { (r, st) \<leftarrow> castIntToFloat r st; ?rest l r st }
       else ?rest l r st)"
    by (simp add: promoteOperands_def strip_def split_def cong: if_cong)
  consider (IF) "s = IntT" "t = FloatT" | (FI) "s = FloatT" "t = IntT" | (same) "common s t = norm s" "common s t = norm t"
      "\<not> (isIntegerTy (getType l) \<and> isDoubleTy (getType r))" "\<not> (isDoubleTy (getType l) \<and> isIntegerTy (getType r))"
    using ok l(1) r(1) by (cases s; cases t) (auto simp: common_def)
  then show ?thesis
  proof cases
    case IF
    then have "strip (do { ((l, r), st) \<leftarrow> promoteOperands l r st; k l r st }) = do { (l, st) \<leftarrow> castIntToFloat l st; ?rest l r st }"
      using unfolded l(1) r(1) by simp
    moreover have "emits H P b st (do { (l, st) \<leftarrow> castIntToFloat l st; ?rest l r st }) T'
        (computes u (\<lambda>SF m z. \<exists>x y. holds l IntT x SF \<and> holds r FloatT y SF \<and> G (SFloat (f_of_int H (bits x))) y z))"
    proof (rule emits_then [OF castIntToFloat_emits [OF ins]])
      fix v Is assume v: "getType v = lty (getBuilder st) FloatT" "below (nextId (extend b Is st)) v"
      show "emits H P b (extend b Is st) (?rest v r (extend b Is st)) T'
          (computes u (\<lambda>SF m z. \<exists>x y. holds v FloatT x SF \<and> holds r FloatT y SF \<and> G x y z))"
      proof (rule normalise_emits)
        fix l' r' Js assume "getType l' = lty (getBuilder (extend b Is st)) (norm FloatT)" "below (nextId (extend b Js (extend b Is st))) l'"
          "getType r' = lty (getBuilder (extend b Is st)) (norm FloatT)" "below (nextId (extend b Js (extend b Is st))) r'"
        then show "emits H P b (extend b Js (extend b Is st)) (strip (k l' r' (extend b Js (extend b Is st)))) T'
            (computes u (\<lambda>SF m z. \<exists>x y. holds l' (norm FloatT) x SF \<and> holds r' (norm FloatT) y SF \<and> G x y z))"
          using k [of l' "Is @ Js" r'] IF by (simp add: common_def)
      qed (use ins v r IF below_mono [OF r(2)] in auto)
    next
      fix v SF m z assume "\<exists>x y. holds l IntT x SF \<and> holds r FloatT y SF \<and> G (SFloat (f_of_int H (bits x))) y z"
      then obtain x y where xy: "holds l IntT x SF" "holds r FloatT y SF" "G (SFloat (f_of_int H (bits x))) y z" by blast
      then show "\<exists>x. (\<exists>xa. holds l IntT xa SF \<and> x = SFloat (f_of_int H (bits xa))) \<and> has_type x FloatT \<and>
          (\<forall>SF'. frame_ext (nextId st) SF SF' \<longrightarrow> holds v FloatT x SF' \<longrightarrow> (\<exists>x y. holds v FloatT x SF' \<and> holds r FloatT y SF' \<and> G x y z))"
        using holds_ext [OF xy(2) _ r(2)] by (intro exI [of _ "SFloat (f_of_int H (bits x))"]) auto
    qed (use l IF in simp)
    ultimately show ?thesis
      by (simp only:) (erule computes_weaken, use IF in \<open>auto simp: common_def holds_int holds_float\<close>)
  next
    case FI
    then have "strip (do { ((l, r), st) \<leftarrow> promoteOperands l r st; k l r st }) = do { (r, st) \<leftarrow> castIntToFloat r st; ?rest l r st }"
      using unfolded l(1) r(1) by simp
    moreover have "emits H P b st (do { (r, st) \<leftarrow> castIntToFloat r st; ?rest l r st }) T'
        (computes u (\<lambda>SF m z. \<exists>x y. holds l FloatT x SF \<and> holds r IntT y SF \<and> G x (SFloat (f_of_int H (bits y))) z))"
    proof (rule emits_then [OF castIntToFloat_emits [OF ins]])
      fix v Is assume v: "getType v = lty (getBuilder st) FloatT" "below (nextId (extend b Is st)) v"
      show "emits H P b (extend b Is st) (?rest l v (extend b Is st)) T'
          (computes u (\<lambda>SF m z. \<exists>x y. holds l FloatT x SF \<and> holds v FloatT y SF \<and> G x y z))"
      proof (rule normalise_emits)
        fix l' r' Js assume "getType l' = lty (getBuilder (extend b Is st)) (norm FloatT)" "below (nextId (extend b Js (extend b Is st))) l'"
          "getType r' = lty (getBuilder (extend b Is st)) (norm FloatT)" "below (nextId (extend b Js (extend b Is st))) r'"
        then show "emits H P b (extend b Js (extend b Is st)) (strip (k l' r' (extend b Js (extend b Is st)))) T'
            (computes u (\<lambda>SF m z. \<exists>x y. holds l' (norm FloatT) x SF \<and> holds r' (norm FloatT) y SF \<and> G x y z))"
          using k [of l' "Is @ Js" r'] FI by (simp add: common_def)
      qed (use ins v l FI below_mono [OF l(2)] in auto)
    next
      fix v SF m z assume "\<exists>x y. holds l FloatT x SF \<and> holds r IntT y SF \<and> G x (SFloat (f_of_int H (bits y))) z"
      then obtain x y where xy: "holds l FloatT x SF" "holds r IntT y SF" "G x (SFloat (f_of_int H (bits y))) z" by blast
      then show "\<exists>x. (\<exists>xa. holds r IntT xa SF \<and> x = SFloat (f_of_int H (bits xa))) \<and> has_type x FloatT \<and>
          (\<forall>SF'. frame_ext (nextId st) SF SF' \<longrightarrow> holds v FloatT x SF' \<longrightarrow> (\<exists>x y. holds l FloatT x SF' \<and> holds v FloatT y SF' \<and> G x y z))"
        using holds_ext [OF xy(1) _ l(2)] by (intro exI [of _ "SFloat (f_of_int H (bits y))"]) auto
    qed (use r FI in simp)
    ultimately show ?thesis
      by (simp only:) (erule computes_weaken, use FI in \<open>auto simp: common_def holds_int holds_float\<close>)
  next
    case same
    have "conv H (common s t) x = x" if "holds v s x SF \<or> holds v t x SF" for v x SF
      using that same(1,2) by (cases s; cases t; cases x) (auto simp: holds_def common_def)
    then have G: "(\<exists>x y. holds l s x SF \<and> holds r t y SF \<and> G (conv H (common s t) x) (conv H (common s t) y) z) \<longleftrightarrow>
        (\<exists>x y. holds l s x SF \<and> holds r t y SF \<and> G x y z)" for SF z
      by metis
    have "strip (do { ((l, r), st) \<leftarrow> promoteOperands l r st; k l r st }) = ?rest l r st"
      using unfolded same(3,4) by (simp only: if_False)
    then show ?thesis
      unfolding G by (simp only:) (rule normalise_emits [OF ins l r], unfold same(1,2) [symmetric], rule k)
  qed
qed

text \<open>The type of an operator depends on the common type of its operands only.\<close>

lemma typeof_binary_common:
  "typeof_binary op s t = Some u \<Longrightarrow> typeof_binary op (common s t) (common s t) = Some u \<and>
    \<not> (s = BoolT \<and> t = FloatT) \<and> \<not> (s = FloatT \<and> t = BoolT)"
  by (cases s; cases t) (auto simp: typeof_binary_def common_def Let_def)

lemma common_cases: "common s t = FloatT \<or> common s t = IntT"
  by (simp add: common_def)

lemma binaryDispatch_emits:
  assumes ins: "insertPt st (getBuilder st) = Some b"
    and l: "getType l = lty (getBuilder st) t" "below (nextId st) l"
    and r: "getType r = lty (getBuilder st) t" "below (nextId st) r"
    and ty: "typeof_binary op t t = Some u" and t: "t = FloatT \<or> t = IntT"
  shows "emits H P b st (strip (binaryDispatch op l r st)) (lty (getBuilder st) u) (computes u (binary_rel H op l t r t))"
  using t
proof
  assume "t = FloatT"
  then show ?thesis
    using binaryFloat_emits [OF ins, of l r op u H P] l r ty by (auto simp: binaryDispatch_def)
next
  assume "t = IntT"
  then show ?thesis
    using binaryInt_emits [OF ins, of l r op u H P] l r ty by (auto simp: binaryDispatch_def)
qed

lemma not_void: "\<not> isVoidTy (lty c t)"
  by (cases t) simp_all

lemma visitBinaryOperator_emits:
  assumes ins: "insertPt st (getBuilder st) = Some b" and ty: "typeof_binary op s t = Some u"
    and l: "emits H P b st (strip (vl st)) (lty (getBuilder st) s) (computes s F)"
    and r: "\<And>Is. emits H P b (extend b Is st) (strip (vr (extend b Is st))) (lty (getBuilder st) t) (computes t G)"
    and stable: "\<And>SF SF' m y. G SF m y \<Longrightarrow> frame_ext (nextId st) SF SF' \<Longrightarrow> G SF' m y"
  shows "emits H P b st (strip (visitBinaryOperator vl op vr st)) (lty (getBuilder st) u)
    (computes u (\<lambda>SF m z. \<exists>x y. F SF m x \<and> has_type x s \<and> G SF m y \<and> has_type y t \<and> eval_binary H op x y = Some z))"
  unfolding visitBinaryOperator_def
proof (rule emits_visitor_then [OF l])
  fix v Is
  assume v: "getType v = lty (getBuilder st) s" "below (nextId (extend b Is st)) v"
  let ?st = "extend b Is st"
  let ?k = "\<lambda>l r st. let left = (case l of None \<Rightarrow> getIntNullPointer st | Some v \<Rightarrow> v);
       right = (case r of None \<Rightarrow> getIntNullPointer st | Some v \<Rightarrow> v)
     in if isVoidTy (getType left) \<or> isVoidTy (getType right)
      then ErrorV ''Binary operator applied to void type'' st
      else do { ((left, right), st) \<leftarrow> promoteOperands left right st; binaryDispatch op left right st }"
  have "emits H P b ?st (strip (do { (r, st) \<leftarrow> vr ?st; ?k (Some v) r st })) (lty (getBuilder st) u)
      (computes u (\<lambda>SF m z. \<exists>x y. holds v s x SF \<and> G SF m y \<and> has_type y t \<and> eval_binary H op x y = Some z))"
  proof (rule emits_visitor_then [OF r])
    fix w Js
    assume w: "getType w = lty (getBuilder st) t" "below (nextId (extend b Js ?st)) w"
    let ?st' = "extend b Js ?st"
    have ins': "insertPt ?st' (getBuilder ?st') = Some b" using ins by simp
    have v': "getType v = lty (getBuilder ?st') s" "below (nextId ?st') v" using v by (auto intro: below_mono)
    have w': "getType w = lty (getBuilder ?st') t" "below (nextId ?st') w" using w by auto
    have c: "typeof_binary op (common s t) (common s t) = Some u" "\<not> (s = BoolT \<and> t = FloatT)" "\<not> (s = FloatT \<and> t = BoolT)"
      using typeof_binary_common [OF ty] by auto
    have "emits H P b ?st' (strip (do { ((l, r), st) \<leftarrow> promoteOperands v w ?st'; binaryDispatch op l r st })) (lty (getBuilder ?st') u)
      (computes u (\<lambda>SF m z. \<exists>x y. holds v s x SF \<and> holds w t y SF \<and>
        eval_binary H op (conv H (common s t) x) (conv H (common s t) y) = Some z))"
    proof (rule promoteOperands_emits [OF ins' v' w' c(2,3)])
      fix l' r' Ks
      assume "getType l' = lty (getBuilder ?st') (common s t)" "below (nextId (extend b Ks ?st')) l'"
        "getType r' = lty (getBuilder ?st') (common s t)" "below (nextId (extend b Ks ?st')) r'"
      then show "emits H P b (extend b Ks ?st') (strip (binaryDispatch op l' r' (extend b Ks ?st'))) (lty (getBuilder ?st') u)
          (computes u (binary_rel H op l' (common s t) r' (common s t)))"
        using binaryDispatch_emits [of "extend b Ks ?st'" b l' "common s t" r' op u H P] ins c(1) common_cases by simp
    qed
    then have "emits H P b ?st' (strip (do { ((l, r), st) \<leftarrow> promoteOperands v w ?st'; binaryDispatch op l r st })) (lty (getBuilder st) u)
      (computes u (binary_rel H op v s w t))"
      by (simp only: extend_fields) (erule computes_weaken, rule binary_rel_conv)
    moreover have "\<not> isVoidTy (getType v)" "\<not> isVoidTy (getType w)"
      using v(1) w(1) not_void by metis+
    ultimately show "emits H P b ?st' (strip (?k (Some v) (Some w) ?st')) (lty (getBuilder st) u) (computes u (binary_rel H op v s w t))"
      by (simp add: Let_def)
  next
    fix w SF m z
    assume "\<exists>x y. holds v s x SF \<and> G SF m y \<and> has_type y t \<and> eval_binary H op x y = Some z"
    then show "\<exists>y. G SF m y \<and> has_type y t \<and> (\<forall>SF'. frame_ext (nextId ?st) SF SF' \<longrightarrow> holds w t y SF' \<longrightarrow> binary_rel H op v s w t SF' m z)"
      using holds_ext [OF _ _ v(2)] by blast
  qed
  then show "emits H P b ?st (strip (do { (r, st) \<leftarrow> vr ?st; ?k (Some v) r st })) (lty (getBuilder st) u)
      (computes u (\<lambda>SF m z. \<exists>x y. holds v s x SF \<and> G SF m y \<and> has_type y t \<and> eval_binary H op x y = Some z))" .
next
  fix v SF m z
  assume "\<exists>x y. F SF m x \<and> has_type x s \<and> G SF m y \<and> has_type y t \<and> eval_binary H op x y = Some z"
  then show "\<exists>x. F SF m x \<and> has_type x s \<and> (\<forall>SF'. frame_ext (nextId st) SF SF' \<longrightarrow> holds v s x SF' \<longrightarrow>
      (\<exists>x y. holds v s x SF' \<and> G SF' m y \<and> has_type y t \<and> eval_binary H op x y = Some z))"
    using stable by blast
qed

end
