(* ===== verification/CG_Expr_Correct.thy ===== *)
theory CG_Expr_Correct
  imports CG_Correct
begin

section \<open>Compiled expressions, variables included\<close>

text \<open>
  A variable lives in a stack slot. This theory relates the variables in scope to the slots of a frame
  and closes the induction over expressions: a well-typed expression is compiled without a diagnostic,
  and its code computes the value the reference semantics gives to it.
\<close>

subsection \<open>Slots\<close>

fun bytesize :: "sty \<Rightarrow> nat" where
  "bytesize BoolT = 1" | "bytesize _ = 8"

definition slot :: "memory \<Rightarrow> int64 \<Rightarrow> sty \<Rightarrow> sval \<Rightarrow> bool" where
  "slot m q t v \<longleftrightarrow> has_type v t \<and> cell m q (bytes_of (bytesize t) (bits v))"

lemma bytesize_bounds [simp]: "0 < bytesize t" "bytesize t \<le> 8"
  by (cases t; simp)+

lemma bytes_of_1: "bytes_of (Suc 0) v = [ucast v]"
  by simp

lemma load_slot:
  assumes "slot m q t v"
  shows "LoadValueFromMemory q (lty c t) m = Some (gv_of t v)"
proof -
  have v: "has_type v t" "read_bytes q (bytesize t) m = Some (bytes_of (bytesize t) (bits v))"
    using assms read_cell [of m q "bytes_of (bytesize t) (bits v)"] by (auto simp: slot_def)
  show ?thesis
  proof (cases t)
    case BoolT
    then obtain a where "v = SInt a" "a = 0 \<or> a = 1" using v(1) by (cases v) auto
    then show ?thesis using v(2) BoolT
      by (auto simp: LoadValueFromMemory_def LoadIntFromMemory_def APInt_1 check_def i1_def)
  qed (use v in \<open>simp_all add: LoadValueFromMemory_def LoadIntFromMemory_def APInt_64 check_def\<close>)
qed

lemma store_slot:
  assumes "mapped m q (bytesize t)" and "has_type v t"
  obtains m' where "StoreValueToMemory (gv_of t v) q (lty c t) m = Some m'" and "slot m' q t v" and "dom m' = dom m"
    and "\<And>a. a \<notin> span q (bytesize t) \<Longrightarrow> m' a = m a"
proof -
  obtain m' where m': "write_bytes q (bytes_of (bytesize t) (bits v)) m = Some m'" "cell m' q (bytes_of (bytesize t) (bits v))"
      "dom m' = dom m" "\<And>a. a \<notin> span q (bytesize t) \<Longrightarrow> m' a = m a"
    using write_cell [of m q "bytes_of (bytesize t) (bits v)"] assms(1) by auto
  have "StoreValueToMemory (gv_of t v) q (lty c t) m = write_bytes q (bytes_of (bytesize t) (bits v)) m"
  proof (cases t)
    case BoolT
    then obtain a where "v = SInt a" "a = 0 \<or> a = 1" using assms(2) by (cases v) auto
    then show ?thesis using BoolT
      by (auto simp: StoreValueToMemory_def StoreIntToMemory_def check_def i1_def)
  qed (simp_all add: StoreValueToMemory_def StoreIntToMemory_def check_def)
  then show ?thesis using that m' assms(2) by (simp add: slot_def)
qed

lemma slot_other:
  assumes "\<And>a. a \<notin> span p n \<Longrightarrow> m' a = m a" and "span p n \<inter> span q (bytesize t) = {}" and "slot m q t v"
  shows "slot m' q t v"
  using cell_other [OF assms(1), where q = q and bs = "bytes_of (bytesize t) (bits v)"] assms(2,3) length_bytes_of by (auto simp: slot_def)

subsection \<open>Variables in scope\<close>

definition variable :: "ctx \<Rightarrow> string \<Rightarrow> sty \<Rightarrow> nat \<Rightarrow> llvalue" where
  "variable c x t i = Inst i (TPtr (lty c t)) (Alloca (lty c t) x)"

definition declares :: "cg \<Rightarrow> (string \<Rightarrow> sty option) \<Rightarrow> bool" where
  "declares st \<Gamma> \<longleftrightarrow> (\<forall>x. \<Gamma> x = None \<longrightarrow> map_of (namedValues st) x = None) \<and>
     (\<forall>x t. \<Gamma> x = Some t \<longrightarrow> (\<exists>i < nextId st. map_of (namedValues st) x = Some (Some (variable (getBuilder st) x t i))))"

lemma declaresE:
  assumes "declares st \<Gamma>" and "\<Gamma> x = Some t"
  obtains i where "i < nextId st" and "map_of (namedValues st) x = Some (Some (variable (getBuilder st) x t i))"
  using assms unfolding declares_def by blast

lemma declares_extend [simp]: "declares st \<Gamma> \<Longrightarrow> declares (extend b Is st) \<Gamma>"
  unfolding declares_def extend_fields by (meson trans_less_add1)

lemma variable_inject [simp]: "variable c x t i = variable c x t j \<longleftrightarrow> i = j"
  by (simp add: variable_def)

definition addr :: "ExecutionContext \<Rightarrow> nat \<Rightarrow> int64" where
  "addr SF i = PointerVal (lookupValue (KInst i) SF)"

definition represents :: "cg \<Rightarrow> (string \<Rightarrow> sty option) \<Rightarrow> senv \<Rightarrow> ExecutionContext \<Rightarrow> memory \<Rightarrow> bool" where
  "represents st \<Gamma> \<rho> SF m \<longleftrightarrow> (\<forall>x t i v. \<Gamma> x = Some t \<longrightarrow> \<rho> x = Some v \<longrightarrow>
     map_of (namedValues st) x = Some (Some (variable (getBuilder st) x t i)) \<longrightarrow> slot m (addr SF i) t v)"

lemma represents_extend [simp]: "represents (extend b Is st) \<Gamma> \<rho> SF m = represents st \<Gamma> \<rho> SF m"
  by (simp add: represents_def)

lemma addr_ext: "frame_ext n SF SF' \<Longrightarrow> i < n \<Longrightarrow> addr SF' i = addr SF i"
  using getOperandValue_ext [of n SF SF' "Inst i undefined undefined"] by (simp add: addr_def getOperandValue_def)

lemma represents_frame:
  assumes "declares st \<Gamma>" and "represents st \<Gamma> \<rho> SF m" and "frame_ext n SF SF'" and "nextId st \<le> n"
  shows "represents st \<Gamma> \<rho> SF' m"
  unfolding represents_def
proof (intro allI impI)
  fix x t i v
  assume x: "\<Gamma> x = Some t" "\<rho> x = Some v" "map_of (namedValues st) x = Some (Some (variable (getBuilder st) x t i))"
  obtain j where "j < nextId st" "map_of (namedValues st) x = Some (Some (variable (getBuilder st) x t j))"
    using declaresE [OF assms(1) x(1)] .
  then have "i < nextId st" using x(3) by simp
  then show "slot m (addr SF' i) t v"
    using assms(2,3,4) x addr_ext [of n SF SF' i] unfolding represents_def by simp
qed

lemma represents_env_ok:
  assumes "declares st \<Gamma>" and "represents st \<Gamma> \<rho> SF m"
  shows "env_ok \<Gamma> \<rho>"
  unfolding env_ok_def
proof (intro allI impI)
  fix x t v assume x: "\<Gamma> x = Some t" "\<rho> x = Some v"
  obtain i where "map_of (namedValues st) x = Some (Some (variable (getBuilder st) x t i))"
    using declaresE [OF assms(1) x(1)] by blast
  then show "has_type v t" using assms(2) x unfolding represents_def slot_def by blast
qed

subsection \<open>Leaves\<close>

lemma visitInteger_emits:
  "emits H P b st (strip (visitInteger a st)) (lty (getBuilder st) IntT) (computes IntT (\<lambda>SF m y. y = SInt a))"
  using emits_return [of st "ConstantInt (int64Ty (getBuilder st)) (sint a)" "computes IntT (\<lambda>SF m y. y = SInt a)" H P b]
  by (auto simp: visitInteger_def builder_context computes_def getOperandValue_def getConstantValue_def)

lemma visitFloat_emits:
  "emits H P b st (strip (visitFloat d st)) (lty (getBuilder st) FloatT) (computes FloatT (\<lambda>SF m y. y = SFloat d))"
  using emits_return [of st "ConstantFP (TDouble (getBuilder st)) d" "computes FloatT (\<lambda>SF m y. y = SFloat d)" H P b]
  by (auto simp: visitFloat_def builder_context computes_def getOperandValue_def getConstantValue_def)

lemma visitIdentifier_emits:
  assumes "insertPt st (getBuilder st) = Some b" and "declares st \<Gamma>" and "\<Gamma> x = Some t"
  shows "emits H P b st (strip (visitIdentifier x st)) (lty (getBuilder st) t)
    (computes t (\<lambda>SF m y. represents st \<Gamma> \<rho> SF m \<and> \<rho> x = Some y))"
proof -
  obtain i where i: "i < nextId st" "map_of (namedValues st) x = Some (Some (variable (getBuilder st) x t i))"
    using declaresE [OF assms(2,3)] by blast
  let ?p = "variable (getBuilder st) x t i"
  have operand: "getOperandValue ?p SF = Some (lookupValue (KInst i) SF)" for SF
    by (simp add: variable_def getOperandValue_def)
  have slot: "slot m (PointerVal (lookupValue (KInst i) SF)) t y" if "represents st \<Gamma> \<rho> SF m" "\<rho> x = Some y" for SF m y
    using that assms(3) i(2) unfolding represents_def addr_def by blast
  have "emits H P b st (CreateLoad (getBuilder st) ?p st) (lty (getBuilder st) t)
    (\<lambda>SF m g. \<exists>a. getOperandValue ?p SF = Some a \<and> LoadValueFromMemory (PointerVal a) (lty (getBuilder st) t) m = Some g)"
    by (rule emits_Load [OF assms(1)]) (simp add: variable_def)
  then have "emits H P b st (CreateLoad (getBuilder st) ?p st) (lty (getBuilder st) t)
    (computes t (\<lambda>SF m y. represents st \<Gamma> \<rho> SF m \<and> \<rho> x = Some y))"
    by (rule emits_weaken) (use slot load_slot in \<open>fastforce simp: computes_def operand\<close>)
  then show ?thesis using i(2) by (simp add: visitIdentifier_def namedValue_def)
qed

subsection \<open>Expressions\<close>

lemma visitExpr_emits:
  assumes "insertPt st (getBuilder st) = Some b" and "declares st \<Gamma>" and "typeof \<Gamma> e = Some t"
  shows "emits H P b st (strip (visitExpr e st)) (lty (getBuilder st) t)
    (computes t (\<lambda>SF m y. represents st \<Gamma> \<rho> SF m \<and> eval H \<rho> e = Some y))"
  using assms
proof (induction e arbitrary: st t)
  case (Integer a)
  have "emits H P b st (strip (visitInteger a st)) (lty (getBuilder st) IntT)
    (computes IntT (\<lambda>SF m y. represents st \<Gamma> \<rho> SF m \<and> eval H \<rho> (Integer a) = Some y))"
    by (rule computes_weaken [OF visitInteger_emits]) simp
  then show ?case using Integer by simp
next
  case (Float d)
  have "emits H P b st (strip (visitFloat d st)) (lty (getBuilder st) FloatT)
    (computes FloatT (\<lambda>SF m y. represents st \<Gamma> \<rho> SF m \<and> eval H \<rho> (Float d) = Some y))"
    by (rule computes_weaken [OF visitFloat_emits]) simp
  then show ?case using Float by simp
next
  case (Identifier x)
  then show ?case using visitIdentifier_emits by simp
next
  case (UnaryOperator op e)
  then obtain s where s: "typeof \<Gamma> e = Some s" "typeof_unary op s = Some t" by (auto simp: Option.bind_eq_Some_conv)
  have types: "has_type x s" if "represents st \<Gamma> \<rho> SF m" "eval H \<rho> e = Some x" for SF m x
    using eval_preserves_types [OF represents_env_ok [OF UnaryOperator.prems(2) that(1)] s(1) that(2)] .
  from visitUnaryOperator_emits [where vexp = "visitExpr e", OF UnaryOperator.prems(1) s(2) UnaryOperator.IH [OF UnaryOperator.prems(1,2) s(1)]]
  have "emits H P b st (strip (visitUnaryOperator op (visitExpr e) st)) (lty (getBuilder st) t)
    (computes t (\<lambda>SF m y. represents st \<Gamma> \<rho> SF m \<and> eval H \<rho> (UnaryOperator op e) = Some y))"
    by (rule computes_weaken) (use types in \<open>auto simp: Option.bind_eq_Some_conv\<close>)
  then show ?case by simp
next
  case (BinaryOperator l op r)
  then obtain s s' where s: "typeof \<Gamma> l = Some s" "typeof \<Gamma> r = Some s'" "typeof_binary op s s' = Some t"
    by (auto simp: Option.bind_eq_Some_conv)
  have types: "(eval H \<rho> l = Some x \<longrightarrow> has_type x s) \<and> (eval H \<rho> r = Some x \<longrightarrow> has_type x s')" if "represents st \<Gamma> \<rho> SF m" for SF m x
    using eval_preserves_types [OF represents_env_ok [OF BinaryOperator.prems(2) that]] s(1,2) by blast
  have "emits H P b st (strip (visitBinaryOperator (visitExpr l) op (visitExpr r) st)) (lty (getBuilder st) t)
      (computes t (\<lambda>SF m z. \<exists>x y. (represents st \<Gamma> \<rho> SF m \<and> eval H \<rho> l = Some x) \<and> has_type x s \<and>
        (represents st \<Gamma> \<rho> SF m \<and> eval H \<rho> r = Some y) \<and> has_type y s' \<and> eval_binary H op x y = Some z))"
  proof (rule visitBinaryOperator_emits [OF BinaryOperator.prems(1) s(3)])
    show "emits H P b st (strip (visitExpr l st)) (lty (getBuilder st) s)
        (computes s (\<lambda>SF m y. represents st \<Gamma> \<rho> SF m \<and> eval H \<rho> l = Some y))"
      using BinaryOperator.IH(1) BinaryOperator.prems(1,2) s(1) by blast
    show "emits H P b (extend b Is st) (strip (visitExpr r (extend b Is st))) (lty (getBuilder st) s')
        (computes s' (\<lambda>SF m y. represents st \<Gamma> \<rho> SF m \<and> eval H \<rho> r = Some y))" for Is
      using BinaryOperator.IH(2) [of "extend b Is st" s'] BinaryOperator.prems(1,2) s(2) by simp
    show "represents st \<Gamma> \<rho> SF' m \<and> eval H \<rho> r = Some y"
      if "represents st \<Gamma> \<rho> SF m \<and> eval H \<rho> r = Some y" "frame_ext (nextId st) SF SF'" for SF SF' m y
      using that represents_frame [OF BinaryOperator.prems(2)] by blast
  qed
  then have "emits H P b st (strip (visitBinaryOperator (visitExpr l) op (visitExpr r) st)) (lty (getBuilder st) t)
      (computes t (\<lambda>SF m y. represents st \<Gamma> \<rho> SF m \<and> eval H \<rho> (BinaryOperator l op r) = Some y))"
    by (rule computes_weaken) (use types in \<open>auto simp: Option.bind_eq_Some_conv\<close>)
  then show ?case by simp
qed simp_all

subsection \<open>Memory as cells\<close>

text \<open>
  Claim C27. Storing a value of one of the three scalar types to mapped memory succeeds; loading
  from the same address at the same type gives the value back; and the store changes no byte outside of the bytes of
  the type and maps or unmaps nothing.
\<close>

theorem store_load_roundtrip:
  assumes "mapped m p (bytesize t)" and "has_type v t"
  shows "\<exists>m'. StoreValueToMemory (gv_of t v) p (lty c t) m = Some m' \<and> LoadValueFromMemory p (lty c t) m' = Some (gv_of t v) \<and>
    dom m' = dom m \<and> (\<forall>a. a \<notin> span p (bytesize t) \<longrightarrow> m' a = m a)"
  using store_slot [OF assms] load_slot by metis

theorem store_load_roundtrip_witness:
  "\<exists>m'. StoreValueToMemory (gv_of IntT (SInt (- 5))) 16 (lty MainCtx IntT) (\<lambda>a. Some 0) = Some m' \<and>
     LoadValueFromMemory 16 (lty MainCtx IntT) m' = Some (gv_of IntT (SInt (- 5))) \<and> m' 24 = Some 0"
proof -
  have "mapped (\<lambda>a. Some 0) 16 (bytesize IntT)" "has_type (SInt (- 5)) IntT" by (simp_all add: mapped_def dom_def)
  moreover have "(24 :: int64) \<notin> span 16 (bytesize IntT)" by (simp add: small_spans)
  ultimately show ?thesis using store_load_roundtrip [of "\<lambda>a. Some 0" 16 IntT "SInt (- 5)" MainCtx] by metis
qed

end
