(* ===== verification/CG_Stmt.thy ===== *)
theory CG_Stmt
  imports CG_Expr
begin

section \<open>Code generation for statements (codeGenVisitor.cpp 777--1137, 1213--1443)\<close>

text \<open>
  The visitors of definitions, assignments, returns and conditionals, the visitor of assignment
  targets (\<open>AssignmentLHSVisitor\<close>) and \<open>LambdaReconVisitor\<close>. As for expressions, a method
  takes the visitors of its parts as arguments.
\<close>

subsection \<open>Variable definitions\<close>

definition nullVariable :: "string \<Rightarrow> llvalue cgm" where
  "nullVariable type st =
     (if type = ''int'' then Some (Some (getIntNullPointer st), st)
      else if type = ''float'' then Some (Some (getFloatNullPointer st), st)
      else ErrorV ''Attempt to create variable of incorrect pointer type'' st)"

text \<open>The value of a pointer variable (lines 785--824).\<close>

definition pointerInitialiser :: "string \<Rightarrow> visitor option \<Rightarrow> visitor" where
  "pointerInitialiser type vexp st =
     (case vexp of
        Some ve \<Rightarrow> do {
          (val, st) \<leftarrow> ve st;
          (case val of
             None \<Rightarrow> nullVariable type st
           | Some v \<Rightarrow>
               (case getContainedType (getType v) of
                  None \<Rightarrow> ErrorV ''Attempt to assign non-pointer type to pointer type'' st
                | Some t \<Rightarrow>
                    (if isIntegerTy t \<and> type \<noteq> ''int''
                     then ErrorV ''Attempt to assign incorrect pointer type to int*'' st
                     else if isDoubleTy t \<and> type \<noteq> ''float''
                     then ErrorV ''Attempt to assign incorrect pointer type to float*'' st
                     else Some (Some v, st))))
        }
      | None \<Rightarrow> nullVariable type st)"

text \<open>The value of a scalar variable (lines 825--852).\<close>

definition scalarInitialiser :: "string \<Rightarrow> visitor option \<Rightarrow> visitor" where
  "scalarInitialiser type vexp st =
     (case vexp of
        Some ve \<Rightarrow> do {
          (val, st) \<leftarrow> ve st;
          (case val of
             None \<Rightarrow> ErrorV ''Unable to assign expression evaluated to null'' st
           | Some v \<Rightarrow>
               (if isPointerTy (getType v)
                then ErrorV ''Attempt to assign pointer type to non-pointer type'' st
                else if type = ''int'' \<and> isDoubleTy (getType v)
                then ErrorV ''Attempt to assign float to int type'' st
                else if type = ''float'' \<and> isIntegerTy (getType v)
                then someV (castIntToFloat v st)
                else Some (Some v, st)))
        }
      | None \<Rightarrow>
          (if type = ''int'' then Some (Some (ConstantInt (int64Ty (getContext st)) 0), st)
           else if type = ''float''
           then Some (Some (ConstantFP (TDouble (getContext st)) 0), st)
           else ErrorV ''Attempt to declare variable of an incorrect type'' st))"

definition visitVariableDefinition ::
  "string \<Rightarrow> string \<Rightarrow> visitor option \<Rightarrow> bool \<Rightarrow> visitor" where
  "visitVariableDefinition type name vexp isPointer st =
     (if um_count name (namedValues st) \<noteq> 0 then ErrorV ''Attempt to redefine variable'' st
      else do {
        func \<leftarrow> insert_function (getBuilder st) st;
        (val, st) \<leftarrow> (if isPointer then pointerInitialiser type vexp st
                     else scalarInitialiser type vexp st);
        (case val of
           None \<Rightarrow> Some (None, st)
         | Some v \<Rightarrow> do {
             (alloca, st) \<leftarrow> createAlloca func (getType v) name st;
             let st = st\<lparr>namedValues := um_insert name (Some alloca) (namedValues st)\<rparr>;
             (_, st) \<leftarrow> CreateStore (getBuilder st) v alloca st;
             Some (Some v, st)
           })
      })"

subsection \<open>Structures\<close>

text \<open>The fields of primitive type (lines 872--884) and of structure type (lines 885--913).\<close>

fun structVars :: "variableDefinition list \<Rightarrow> (lltype \<times> string) list cgm" where
  "structVars [] st = Some (Some [], st)"
| "structVars (v # vs) st =
     (if vd_exp v \<noteq> None
      then ErrorV ''Attempt to instantiate types within structs that can only be declared'' st
      else do {
        (type, st) \<leftarrow> getTypeFromString (stringType v) (hasPointerType v) False st;
        (case type of
           None \<Rightarrow> ErrorV ''Invalid type for struct definition'' st
         | Some t \<Rightarrow> do {
             (ts, st) \<leftarrow> structVars vs st;
             Some (map_option ((#) (t, vd_ident v)) ts, st)
           })
      })"

fun structDecls :: "string \<Rightarrow> lltype \<Rightarrow> variableDefinition list \<Rightarrow> (lltype \<times> string) list cgm" where
  "structDecls ident currStruct [] st = Some (Some [], st)"
| "structDecls ident currStruct (s # ss) st = do {
     (type, st) \<leftarrow>
       (if \<not> hasPointerType s then
          (if stringType s = ident
           then ErrorV ''Attempt to evaluate recursive struct with no pointer'' st
           else (case map_of (structTypes st) (stringType s) of
               Some (tempStruct, flds) \<Rightarrow> Some (Some tempStruct, st)
             | None \<Rightarrow> ErrorV ''Attempt to create struct pointer type within struct that is not previously declared'' st))
        else
          (if stringType s = ident then Some (Some (TPtr currStruct), st)
           else (case map_of (structTypes st) (stringType s) of
               Some (tempStruct, flds) \<Rightarrow> Some (Some (TPtr tempStruct), st)
             | None \<Rightarrow> ErrorV ''Attempt to create struct type within struct that is not previously declared'' st)));
     (case type of
        None \<Rightarrow> Some (None, st)
      | Some t \<Rightarrow> do {
          (ts, st) \<leftarrow> structDecls ident currStruct ss st;
          Some (map_option ((#) (t, vd_ident s)) ts, st)
        })
   }"

definition visitStructureDefinition :: "string \<Rightarrow> block \<Rightarrow> visitor" where
  "visitStructureDefinition ident blk st = do {
     vars \<leftarrow> getVariables blk;
     structs \<leftarrow> getStructs blk;
     (i, st) \<leftarrow> StructType_create (getContext st) ident st;
     let currStruct = TStruct (getContext st) i;
     (vs, st) \<leftarrow> structVars vars st;
     (case vs of
        None \<Rightarrow> Some (None, st)
      | Some vfields \<Rightarrow> do {
          (ss, st) \<leftarrow> structDecls ident currStruct structs st;
          (case ss of
             None \<Rightarrow> Some (None, st)
           | Some sfields \<Rightarrow> do {
               (_, st) \<leftarrow> StructType_setBody i (map fst (vfields @ sfields)) st;
               let st = st\<lparr>structTypes := um_insert ident
                          (currStruct, map snd (vfields @ sfields)) (structTypes st)\<rparr>;
               Some (Some (getVoidValue st), st)
             })
        })
   }"

definition visitStructureDeclaration :: "string \<Rightarrow> string \<Rightarrow> bool \<Rightarrow> visitor" where
  "visitStructureDeclaration type name isPointer st = do {
     func \<leftarrow> insert_function (getBuilder st) st;
     (case map_of (structTypes st) type of
        None \<Rightarrow> ErrorV ''Unable to instantiate struct that is not previously declared'' st
      | Some (currStruct, flds) \<Rightarrow>
          (if isPointer then do {
             (p, st) \<leftarrow> getNullPointer type st;
             structPtrDec \<leftarrow> p;
             (alloca, st) \<leftarrow> createAlloca func (getType structPtrDec) name st;
             let st = st\<lparr>namedValues := um_insert name (Some alloca) (namedValues st)\<rparr>;
             someV (CreateStore (getBuilder st) structPtrDec alloca st)
           }
           else do {
             (alloca, st) \<leftarrow> createAlloca func currStruct name st;
             let st = st\<lparr>namedValues := um_insert name (Some alloca) (namedValues st)\<rparr>;
             someV (CreateStore (getBuilder st) (ConstantAggregateZero currStruct) alloca st)
           }))
   }"

subsection \<open>Functions\<close>

fun allocArgs :: "string \<Rightarrow> nat \<Rightarrow> (string \<times> lltype) list \<Rightarrow> cg \<Rightarrow> (unit \<times> cg) option" where
  "allocArgs f i [] st = Some ((), st)"
| "allocArgs f i ((n, t) # as) st = do {
     (alloca, st) \<leftarrow> createAlloca (getModule st, f) t n st;
     (_, st) \<leftarrow> CreateStore (getBuilder st) (Argument f i t) alloca st;
     let st = st\<lparr>namedValues := um_insert n (Some alloca) (namedValues st)\<rparr>;
     allocArgs f (Suc i) as st
   }"

text \<open>The captured variables of a closure, copied out of its environment (lines 959--965).\<close>

fun loadEnv :: "string \<Rightarrow> llvalue \<Rightarrow> string list \<Rightarrow> cg \<Rightarrow> (unit \<times> cg) option" where
  "loadEnv f envAlloca [] st = Some ((), st)"
| "loadEnv f envAlloca (n # ns) st = do {
     (e, st) \<leftarrow> CreateLoad (getBuilder st) envAlloca st;
     (v, st) \<leftarrow> getStructField ''env'' n e st;
     val \<leftarrow> v;
     (alloca, st) \<leftarrow> createAlloca (getModule st, f) (getType val) n st;
     (_, st) \<leftarrow> CreateStore (getBuilder st) val alloca st;
     let st = st\<lparr>namedValues := um_insert n (Some alloca) (namedValues st)\<rparr>;
     loadEnv f envAlloca ns st
   }"

definition bindEnvironment :: "string \<Rightarrow> lfunction \<Rightarrow> cg \<Rightarrow> (unit \<times> cg) option" where
  "bindEnvironment f func st = do {
     (n, t) \<leftarrow> (case fn_args func of [] \<Rightarrow> None | a # as \<Rightarrow> Some a);
     (envStruct, names) \<leftarrow> map_of (structTypes st) ''env'';
     (envAlloca, st) \<leftarrow> createAlloca (getModule st, f) (TPtr envStruct) n st;
     (environ, st) \<leftarrow> CreateBitOrPointerCast (getBuilder st) (Argument f 0 t) (TPtr envStruct) st;
     (_, st) \<leftarrow> CreateStore (getBuilder st) environ envAlloca st;
     let st = st\<lparr>namedValues := um_insert n (Some envAlloca) (namedValues st)\<rparr>;
     loadEnv f envAlloca names st
   }"

definition visitFunctionDefinition ::
  "keyword option \<Rightarrow> string option \<Rightarrow> string \<Rightarrow> variableDefinition list \<Rightarrow> visitor \<Rightarrow> bool \<Rightarrow>
     visitor" where
  "visitFunctionDefinition type user_type ident args vblock hasPtr st = do {
     (func, st) \<leftarrow>
       (case getFunction (getModule st) ident st of
          Some f \<Rightarrow> Some (Some f, st)
        | None \<Rightarrow> do {
            retName \<leftarrow> (case type of None \<Rightarrow> user_type | Some t \<Rightarrow> Some t);
            generateFunction hasPtr retName ident args st
          });
     (case func of
        None \<Rightarrow> ErrorV ''Invalid function signature'' st
      | Some f \<Rightarrow>
          (if fn_blocks f \<noteq> [] then ErrorV ''Function is already defined'' st
           else do {
             let (b, st) = BasicBlock_Create ''func'' st;
             let st = push_block (getModule st) ident b st;
             let st = SetInsertPoint (getBuilder st) (Some b) st;
             let st = st\<lparr>namedValues := []\<rparr>;
             (_, st) \<leftarrow> (if \<not> insideLambda st then allocArgs ident 0 (fn_args f) st
                       else bindEnvironment ident f st);
             vblock st
           }))
   }"

definition visitExternStatement ::
  "keyword \<Rightarrow> string \<Rightarrow> variableDefinition list \<Rightarrow> bool \<Rightarrow> visitor" where
  "visitExternStatement type ident args hasPtr st = do {
     (func, st) \<leftarrow>
       (case getFunction (getModule st) ident st of
          Some f \<Rightarrow> Some (Some f, st)
        | None \<Rightarrow> generateFunction hasPtr type ident args st);
     (case func of
        None \<Rightarrow> ErrorV ''Invalid extern function signature'' st
      | Some f \<Rightarrow> Some (Some (getVoidValue st), st))
   }"

subsection \<open>Expression statements and returns\<close>

definition visitExpressionStatement :: "visitor \<Rightarrow> visitor" where
  "visitExpressionStatement vexp st = vexp st"

definition returnValue :: "lltype \<Rightarrow> llvalue \<Rightarrow> visitor" where
  "returnValue ret retVal st =
     (if isVoidTy (getType retVal) \<and> isVoidTy ret
      then (case CreateRet (getBuilder st) None st of (r, st) \<Rightarrow> Some (Some r, st))
      else if ret = getType retVal then
        (if isPointerTy ret \<and> getContainedType ret \<noteq> getPointedType retVal
         then ErrorV ''Unable to return bad pointer type from function'' st
         else (case CreateRet (getBuilder st) (Some retVal) st of
             (r, st) \<Rightarrow> Some (Some retVal, st)))
      else if isIntegerTy (getType retVal) \<and> isDoubleTy ret then do {
        (d, st) \<leftarrow> castIntToFloat retVal st;
        (case CreateRet (getBuilder st) (Some d) st of (r, st) \<Rightarrow> Some (Some retVal, st))
      }
      else ErrorV ''Unable to return bad type from function'' st)"

definition returnNull :: "lltype \<Rightarrow> visitor" where
  "returnNull ret st =
     (case getContainedType ret of
        None \<Rightarrow> ErrorV ''Unable to return incorrect NULL type from function'' st
      | Some t \<Rightarrow>
          (if isIntegerTy t then
             (case CreateRet (getBuilder st) (Some (getIntNullPointer st)) st of
                (r, st) \<Rightarrow> Some (Some r, st))
           else if isDoubleTy t then
             (case CreateRet (getBuilder st) (Some (getFloatNullPointer st)) st of
                (r, st) \<Rightarrow> Some (Some r, st))
           else if isStructTy t then do {
             n \<leftarrow> getStructName t st;
             (p, st) \<leftarrow> getNullPointer n st;
             (case CreateRet (getBuilder st) p st of (r, st) \<Rightarrow> Some (Some r, st))
           }
           else ErrorV ''Unable to return bad pointer type from function'' st))"

definition visitReturnStatement :: "visitor option \<Rightarrow> visitor" where
  "visitReturnStatement vexp st = do {
     (c, f) \<leftarrow> insert_function (getBuilder st) st;
     let st = st\<lparr>justReturned := True\<rparr>;
     (case vexp of
        Some ve \<Rightarrow> do {
          (retVal, st) \<leftarrow> ve st;
          func \<leftarrow> getFunction c f st;
          (case retVal of
             Some v \<Rightarrow> returnValue (fn_ret func) v st
           | None \<Rightarrow> returnNull (fn_ret func) st)
        }
      | None \<Rightarrow> do {
          func \<leftarrow> getFunction c f st;
          (if isVoidTy (fn_ret func)
           then (case CreateRet (getBuilder st) None st of (r, st) \<Rightarrow> Some (Some r, st))
           else ErrorV ''Unable to return bad void type from function'' st)
        })
   }"

subsection \<open>Assignment\<close>

text \<open>The null pointer stored for a NULL right-hand side into a target of type \<open>t\<close>.\<close>

definition lhsNull :: "lltype \<Rightarrow> llvalue cgm" where
  "lhsNull t st =
     (case getContainedType t of
        None \<Rightarrow> ErrorV ''Unable to assign evaluated null right operand to non pointer type'' st
      | Some p \<Rightarrow>
          (if isDoubleTy p then Some (Some (getFloatNullPointer st), st)
           else if isIntegerTy p then Some (Some (getIntNullPointer st), st)
           else if isStructTy p then do {
             n \<leftarrow> getStructName p st;
             (v, st) \<leftarrow> getNullPointer n st;
             v \<leftarrow> v;
             Some (Some v, st)
           }
           else ErrorV ''Unable to assign to unknown pointer type'' st))"

definition storeResult :: "llvalue option \<Rightarrow> llvalue \<Rightarrow> visitor" where
  "storeResult right target st =
     (case right of
        None \<Rightarrow> Some (None, st)
      | Some r \<Rightarrow> do {
          (_, st) \<leftarrow> CreateStore (getBuilder st) r target st;
          Some (Some r, st)
        })"

text \<open>In recon mode a target only chooses the scheduler and is recorded.\<close>

definition reconTarget :: "llvalue \<Rightarrow> lltype \<Rightarrow> visitor" where
  "reconTarget target t st = do {
     (right, st) \<leftarrow> makeSched t st;
     Some (right, st\<lparr>reconVector := reconVector st @ [Some target]\<rparr>)
   }"

definition lhs_visitIdentifier :: "string \<Rightarrow> llvalue option \<Rightarrow> visitor" where
  "lhs_visitIdentifier name right st =
     (case namedValue name st of
        (None, st) \<Rightarrow>
          ErrorV ''Unable to evaluate identifier left operand in assignment statement'' st
      | (Some var, st) \<Rightarrow> do {
          t \<leftarrow> getAllocaType var;
          (if recon st then reconTarget var t st
           else (case right of
               None \<Rightarrow> do {
                 (n, st) \<leftarrow> lhsNull t st;
                 storeResult n var st
               }
             | Some r \<Rightarrow>
                 (if isDoubleTy t \<and> isIntegerTy (getType r) then do {
                    (d, st) \<leftarrow> castIntToFloat r st;
                    storeResult (Some d) var st
                  }
                  else if t \<noteq> getType r then ErrorV
                    ''Unable to assign evaluated right operand of bad type to left operand'' st
                  else if isPointerTy t \<and> getContainedType t \<noteq> getPointedType r then ErrorV
                    ''Unable to assign evaluated right operand of bad pointer type to left operand'' st
                  else storeResult (Some r) var st)))
        })"

text \<open>The conversion of a non-null right-hand side to the type of a memory target.\<close>

definition lhsConvert :: "string \<Rightarrow> lltype \<Rightarrow> llvalue \<Rightarrow> llvalue cgm" where
  "lhsConvert msg t r st =
     (if getType r \<noteq> t then
        (if isIntegerTy (getType r) \<and> isDoubleTy t then someV (castIntToFloat r st)
         else ErrorV msg st)
      else Some (Some r, st))"

definition lhs_visitPointerExpression ::
  "string \<Rightarrow> visitor option \<Rightarrow> string option \<Rightarrow> llvalue option \<Rightarrow> visitor" where
  "lhs_visitPointerExpression ident voffset field right st =
     (case namedValue ident st of
        (None, st) \<Rightarrow> ErrorV
          ''Unable to evaluate dereferenced identifier left operand in assignment statement'' st
      | (Some var, st) \<Rightarrow> do {
          voff \<leftarrow> voffset;
          (offset, st) \<leftarrow> voff st;
          (varPtr, st) \<leftarrow> CreateLoad (getBuilder st) var st;
          (gep, st) \<leftarrow> CreateGEP (getBuilder st) varPtr offset st;
          (ld, st) \<leftarrow> CreateLoad (getBuilder st) gep st;
          refVar \<leftarrow> getPointerOperand ld;
          type \<leftarrow> getPointedType refVar;
          (case field of
             Some fieldName \<Rightarrow>
               (if isStructTy type then do {
                  typeString \<leftarrow> getStructName type st;
                  (f, st) \<leftarrow> getStructField typeString fieldName refVar st;
                  f \<leftarrow> f;
                  refVar \<leftarrow> getPointerOperand f;
                  t \<leftarrow> getPointedType refVar;
                  (if recon st then reconTarget refVar t st
                   else do {
                     (r, st) \<leftarrow> (case right of
                         None \<Rightarrow> lhsNull t st
                       | Some r \<Rightarrow> lhsConvert ''Dereferenced left operand field is assigned to right operand of incorrect type'' t r st);
                     storeResult r refVar st
                   })
                }
                else ErrorV ''Unable to use dot operator on dereferenced non-struct type'' st)
           | None \<Rightarrow>
               (if recon st then reconTarget refVar type st
                else (case right of
                    None \<Rightarrow> ErrorV
                      ''Unable to assign NULL pointer to left operand of non-pointer type'' st
                  | Some r \<Rightarrow> do {
                      (r, st) \<leftarrow> lhsConvert
                        ''Dereferenced left operand is assigned to right operand of incorrect type'' type r st;
                      storeResult r refVar st
                    })))
        })"

definition lhs_visitStructureExpression ::
  "string \<Rightarrow> string \<Rightarrow> llvalue option \<Rightarrow> visitor" where
  "lhs_visitStructureExpression ident fieldName right st =
     (case namedValue ident st of
        (None, st) \<Rightarrow> ErrorV
          ''Unable to evaluate accessed field of struct for left operand in assignment statement'' st
      | (Some var, st) \<Rightarrow> do {
          vt \<leftarrow> getAllocaType var;
          (if \<not> isStructTy vt then ErrorV ''Unable to use dot operator on non-struct type'' st
           else do {
             typeString \<leftarrow> getStructName vt st;
             (f, st) \<leftarrow> getStructField typeString fieldName var st;
             f \<leftarrow> f;
             structFieldRef \<leftarrow> getPointerOperand f;
             t \<leftarrow> getPointedType structFieldRef;
             (if recon st then reconTarget structFieldRef t st
              else do {
                (r, st) \<leftarrow> (case right of
                    None \<Rightarrow> lhsNull t st
                  | Some r \<Rightarrow> lhsConvert
                      ''Dereferenced left operand is assigned to right operand of incorrect type'' t r st);
                storeResult r structFieldRef st
              })
           })
        })"

definition lhs_visitAddressOfExpression :: "llvalue option \<Rightarrow> visitor" where
  "lhs_visitAddressOfExpression right st =
     ErrorV ''Unable to assign a value to the reference of an identifier'' st"

fun lhsVisit :: "expression \<Rightarrow> llvalue option \<Rightarrow> visitor" where
  "lhsVisit (Identifier n) right st = lhs_visitIdentifier n right st"
| "lhsVisit (PointerExpression i off f) right st =
     lhs_visitPointerExpression i (map_option visitExpr off) f right st"
| "lhsVisit (StructureExpression i f) right st = lhs_visitStructureExpression i f right st"
| "lhsVisit (AddressOfExpression i off) right st = lhs_visitAddressOfExpression right st"
| "lhsVisit _ right st = Some (None, st)"

definition visitAssignStatement :: "expression \<Rightarrow> visitor \<Rightarrow> visitor" where
  "visitAssignStatement target vval st = do {
     (right, st) \<leftarrow> (if \<not> recon st then vval st else Some (None, st));
     (retVal, st) \<leftarrow> lhsVisit target right st;
     (if retVal = None \<and> \<not> recon st then ErrorV ''Unable to evaluate assignment statement'' st
      else Some (retVal, st))
   }"

text \<open>\<open>LambdaReconVisitor\<close>: the two sides of an assignment, null pointers for anything else.\<close>

fun lambdaRecon :: "statement \<Rightarrow> (expression \<times> expression) option" where
  "lambdaRecon (AssignStatement c target valxp) = Some (target, valxp)"
| "lambdaRecon _ = None"

subsection \<open>Conditionals\<close>

text \<open>The branch condition as an \<open>i1\<close> (lines 1085--1100).\<close>

definition ifCondition :: "visitor \<Rightarrow> visitor" where
  "ifCondition vcond st = do {
     (c, st) \<leftarrow> vcond st;
     (cond, st) \<leftarrow> (case c of
         None \<Rightarrow> castPointerToInt (getIntNullPointer st) st
       | Some v \<Rightarrow> (if isPointerTy (getType v) then castPointerToInt v st else Some (v, st)));
     (if isDoubleTy (getType cond) then someV (castFloatToBoolean cond st)
      else if isIntegerTy (getType cond) then someV (castIntToBoolean cond st)
      else ErrorV ''Unable to determine condition type'' st)
   }"

text \<open>The end of a branch (lines 1113--1117, 1127--1131): a jump unless the code just returned.\<close>

definition endBranch :: "nat \<Rightarrow> cg \<Rightarrow> cg" where
  "endBranch mergeIf st =
     (if \<not> justReturned st then snd (CreateBr (getBuilder st) mergeIf st)
      else st\<lparr>justReturned := False\<rparr>)"

definition visitIfStatement :: "visitor \<Rightarrow> visitor \<Rightarrow> visitor option \<Rightarrow> visitor" where
  "visitIfStatement vcond vthen velse st = do {
     (c, st) \<leftarrow> ifCondition vcond st;
     (case c of
        None \<Rightarrow> Some (None, st)
      | Some condition \<Rightarrow> do {
          func \<leftarrow> insert_function (getBuilder st) st;
          let (thenIf, st) = BasicBlock_Create ''then'' st;
          let st = push_block (fst func) (snd func) thenIf st;
          let (elseIf, st) = BasicBlock_Create ''else'' st;
          let (mergeIf, st) = BasicBlock_Create ''if'' st;
          (_, st) \<leftarrow> CreateCondBr (getBuilder st) condition thenIf elseIf st;
          let st = SetInsertPoint (getBuilder st) (Some thenIf) st;
          (_, st) \<leftarrow> vthen (st\<lparr>justReturned := False\<rparr>);
          let st = endBranch mergeIf st;
          let st = push_block (fst func) (snd func) elseIf st;
          let st = SetInsertPoint (getBuilder st) (Some elseIf) st;
          (_, st) \<leftarrow> (case velse of
              None \<Rightarrow> Some (None, st)
            | Some ve \<Rightarrow> ve (st\<lparr>justReturned := False\<rparr>));
          let st = endBranch mergeIf st;
          let st = push_block (fst func) (snd func) mergeIf st;
          let st = SetInsertPoint (getBuilder st) (Some mergeIf) st;
          Some (Some (getVoidValue st), st)
        })
   }"

end
