(* ===== verification/CG_Block.thy ===== *)
theory CG_Block
  imports CG_Stmt
begin

section \<open>Blocks: closures, groups and reconciliation (codeGenVisitor.cpp 507--706)\<close>

text \<open>
  \<open>visitBlock\<close> is where the language's parallelism is compiled. A statement written without a
  semicolon does not commit; it and its successors up to and including the next committing
  statement form a group. Every statement of a group becomes a closure that is handed to the
  scheduler, and the first statement after the group waits for the results (the
  \<open>recon\<close> calls) and destroys the group's context.

  The body of the method is cut into the pieces its comments name: the commit vector, the
  context of a group, the environment, the reconciliation target, the closure's function, the
  scheduling call, and the reconciliation of a finished group. A block takes its statements
  together with their visitors; \<open>visitStmt\<close> and \<open>visitBlk\<close> tie the knot along the tree.
\<close>

subsection \<open>The commit vector (lines 510--530)\<close>

text \<open>The loop that makes the committing statement after a group part of it.\<close>

fun adjustCommits :: "bool \<Rightarrow> bool list \<Rightarrow> bool list" where
  "adjustCommits prev [] = []"
| "adjustCommits prev (c # cs) =
     (if \<not> c then c # adjustCommits c cs
      else if \<not> prev then False # adjustCommits True cs
      else c # adjustCommits prev cs)"

definition commitVector :: "statement list \<Rightarrow> bool list" where
  "commitVector ss = adjustCommits True (map statementCommits ss)"

subsection \<open>A closure (lines 537--653)\<close>

text \<open>\<open>int cid = __make_context();\<close>, once per group.\<close>

definition makeGroup :: "cg \<Rightarrow> (unit \<times> cg) option" where
  "makeGroup st =
     (if executeCommit st then do {
        (v, st) \<leftarrow> visitVariableDefinition ''int'' ''cid''
                   (Some (visitFunctionCall ''__make_context'' [])) False
                   (st\<lparr>executeCommit := False\<rparr>);
        Some ((), st\<lparr>currCid := v, currId := 0\<rparr>)
      }
      else Some ((), st))"

text \<open>
  The types and current values of the variables in scope; a null entry of \<open>namedValues\<close> is
  dereferenced.
\<close>

fun captureValues ::
  "(string, llvalue option) umap \<Rightarrow> cg \<Rightarrow> ((string \<times> lltype \<times> llvalue) list \<times> cg) option" where
  "captureValues [] st = Some ([], st)"
| "captureValues ((n, a) # rest) st = do {
     alloca \<leftarrow> a;
     t \<leftarrow> getAllocaType alloca;
     (v, st) \<leftarrow> CreateLoad (getBuilder st) alloca st;
     (vs, st) \<leftarrow> captureValues rest st;
     Some ((n, t, v) # vs, st)
   }"

fun storeEnv :: "llvalue \<Rightarrow> (string \<times> lltype \<times> llvalue) list \<Rightarrow> cg \<Rightarrow> (unit \<times> cg) option" where
  "storeEnv alloca [] st = Some ((), st)"
| "storeEnv alloca ((n, t, v) # vs) st = do {
     (f, st) \<leftarrow> getStructField ''env'' n alloca st;
     f \<leftarrow> f;
     structFieldRef \<leftarrow> getPointerOperand f;
     (_, st) \<leftarrow> CreateStore (getBuilder st) v structFieldRef st;
     storeEnv alloca vs st
   }"

text \<open>
  The environment: a structure type \<open>env\<close> with one field per variable in scope, and a stack
  variable \<open>e0\<close> of that type holding copies of their values.
\<close>

definition makeEnv :: "cg \<Rightarrow> (unit \<times> cg) option" where
  "makeEnv st = do {
     (i, st) \<leftarrow> StructType_create (getContext st) ''env'' st;
     let currStruct = TStruct (getContext st) i;
     (caps, st) \<leftarrow> captureValues (namedValues st) st;
     (_, st) \<leftarrow> StructType_setBody i (map (\<lambda>(n, t, v). t) caps) st;
     let st = st\<lparr>structTypes := um_insert ''env'' (currStruct, map fst caps) (structTypes st)\<rparr>;
     func \<leftarrow> insert_function (getBuilder st) st;
     (alloca, st) \<leftarrow> createAlloca func currStruct ''e0'' st;
     (_, st) \<leftarrow> CreateStore (getBuilder st) (ConstantAggregateZero currStruct) alloca st;
     let st = st\<lparr>namedValues := um_insert ''e0'' (Some alloca) (namedValues st)\<rparr>;
     (_, st) \<leftarrow> CreateLoad (getBuilder st) alloca st;
     storeEnv alloca caps st
   }"

text \<open>
  What the closure returns and where its result goes: the scheduler's keyword and an entry of
  \<open>reconVector\<close>. The main builder has no insertion point here (\<open>saveAndClearIP\<close>).
\<close>

definition reconEntry :: "statement \<Rightarrow> cg \<Rightarrow> (unit \<times> cg) option" where
  "reconEntry stmt st =
     (let st = st\<lparr>lambdaKeyword := None\<rparr> in
      case lambdaRecon stmt of
        None \<Rightarrow> Some ((), st\<lparr>lambdaKeyword := Some ''void'',
                             reconVector := reconVector st @ [None]\<rparr>)
      | Some (lhs, rhs) \<Rightarrow> do {
          (_, st) \<leftarrow> visitAssignStatement lhs (visitExpr rhs) (st\<lparr>recon := True\<rparr>);
          Some ((), st\<lparr>recon := False\<rparr>)
        })"

text \<open>A block inside a closure runs its statements in order (\<open>visitBlock_inside\<close> below).\<close>

fun seqVisit :: "visitor list \<Rightarrow> llvalue option \<Rightarrow> visitor" where
  "seqVisit [] lastVisited st = Some (lastVisited, st)"
| "seqVisit (v # vs) lastVisited st = do {
     (val, st) \<leftarrow> v st;
     seqVisit vs val st
   }"

definition lambdaBody :: "statement \<Rightarrow> visitor \<Rightarrow> visitor" where
  "lambdaBody stmt vstmt =
     (case lambdaRecon stmt of
        None \<Rightarrow> seqVisit [vstmt, visitReturnStatement None] None
      | Some (lhs, rhs) \<Rightarrow> seqVisit [visitReturnStatement (Some (visitExpr rhs))] None)"

text \<open>The closure's function, generated into a fresh module of the lambda context.\<close>

definition makeLambda :: "string \<Rightarrow> statement \<Rightarrow> visitor \<Rightarrow> cg \<Rightarrow> (unit \<times> cg) option" where
  "makeLambda identifier stmt vstmt st = do {
     keyword \<leftarrow> lambdaKeyword st;
     let st = st\<lparr>insideLambda := True, modules := (modules st)(LambdaCtx := []),
                 insertPt := (insertPt st)(LambdaCtx := None)\<rparr>;
     (_, st) \<leftarrow> visitFunctionDefinition (Some keyword) None identifier
                  [StructureDeclaration ''void'' ''e0'' True] (lambdaBody stmt vstmt) False st;
     let st = (if \<not> error st then st\<lparr>outLog := outLog st @ [''dump '' @ identifier]\<rparr> else st);
     Some ((), st\<lparr>insideLambda := False\<rparr>)
   }"

definition schedName :: "string \<Rightarrow> string option" where
  "schedName keyword =
     (if keyword = ''int'' then Some ''__fork_sched_int''
      else if keyword = ''float'' then Some ''__fork_sched_float''
      else if keyword = ''void'' then Some ''__fork_sched_void''
      else None)"

text \<open>The closure's module is handed to the JIT under the closure's name.\<close>

definition jitLambda :: "string \<Rightarrow> cg \<Rightarrow> cg" where
  "jitLambda identifier st = st\<lparr>lambdaJIT := lambdaJIT st @ [(identifier, modules st LambdaCtx)],
     modules := (modules st)(LambdaCtx := [])\<rparr>"

text \<open>The call that hands the closure, its environment, its id and the group to the runtime.\<close>

definition scheduleLambda :: "string \<Rightarrow> llvalue option \<Rightarrow> visitor" where
  "scheduleLambda identifier lastVisited st = do {
     (lamPtr, st) \<leftarrow> castIntToPointer
        (ConstantInt (int64Ty (getContext st)) (jitAddress st identifier)) st;
     (e, st) \<leftarrow> visitAddressOfExpression ''e0'' None st;
     e \<leftarrow> e;
     (env, st) \<leftarrow> CreateBitOrPointerCast (getBuilder st) e (int64PtrTy (getContext st)) st;
     let idv = ConstantInt (int64Ty (getContext st)) (currId st);
     let st = st\<lparr>currId := currId st + 1\<rparr>;
     keyword \<leftarrow> lambdaKeyword st;
     (case schedName keyword of
        None \<Rightarrow> do {
          (_, st) \<leftarrow> (ErrorV ''Not yet implemented closure assignment to pointer or struct types'' :: visitor) st;
          Some (lastVisited, st)
        }
      | Some sched \<Rightarrow>
          (case getFunction (getModule st) sched st of
             None \<Rightarrow> Some (lastVisited, st)
           | Some f \<Rightarrow> do {
               cid \<leftarrow> currCid st;
               someV (CreateCall (getBuilder st) sched f [lamPtr, env, idv, cid] st)
             }))
   }"

text \<open>The whole treatment of a statement that does not commit.\<close>

definition visitClosure :: "statement \<Rightarrow> visitor \<Rightarrow> llvalue option \<Rightarrow> visitor" where
  "visitClosure stmt vstmt lastVisited st = do {
     (_, st) \<leftarrow> makeGroup st;
     let st = st\<lparr>marked := marked st @ [setCommit True stmt]\<rparr>;
     (_, st) \<leftarrow> makeEnv st;
     let copyValues = namedValues st;
     let ip = insertPt st MainCtx;
     let st = SetInsertPoint MainCtx None st;
     let identifier = ''lambda'' @ show_nat (lambdaNum st);
     let st = st\<lparr>lambdaNum := Suc (lambdaNum st)\<rparr>;
     (_, st) \<leftarrow> reconEntry stmt st;
     (_, st) \<leftarrow> makeLambda identifier stmt vstmt st;
     let st = SetInsertPoint MainCtx ip (st\<lparr>namedValues := copyValues\<rparr>);
     (v, st) \<leftarrow> scheduleLambda identifier lastVisited (jitLambda identifier st);
     Some (v, st\<lparr>structTypes := um_erase ''env'' (structTypes st),
                  namedValues := um_erase ''e0'' (namedValues st)\<rparr>)
   }"

subsection \<open>Reconciling a group (lines 655--700)\<close>

definition reconName :: "llvalue \<Rightarrow> string option" where
  "reconName var =
     (if isIntegerTy (getType var) then Some ''__recon_int''
      else if isDoubleTy (getType var) then Some ''__recon_float''
      else None)"

fun reconLoop :: "nat \<Rightarrow> llvalue option list \<Rightarrow> cg \<Rightarrow> (unit \<times> cg) option" where
  "reconLoop i [] st = Some ((), st)"
| "reconLoop i (Some refVar # rs) st = do {
     (var, st) \<leftarrow> CreateLoad (getBuilder st) refVar st;
     (case reconName var of
        None \<Rightarrow> Some ((), st)
      | Some name \<Rightarrow> do {
          let k = (\<lambda>n. ConstantInt (int64Ty (getContext st)) n);
          reconFun \<leftarrow> getFunction (getModule st) name st;
          cid \<leftarrow> currCid st;
          (reconCall, st) \<leftarrow> CreateCall (getBuilder st) name reconFun
                              [var, k 1, k (int i), k (currId st), cid] st;
          (_, st) \<leftarrow> CreateStore (getBuilder st) reconCall refVar st;
          reconLoop (Suc i) rs st
        })
   }"
| "reconLoop i (None # rs) st = do {
     let k = (\<lambda>n. ConstantInt (int64Ty (getContext st)) n);
     reconFun \<leftarrow> getFunction (getModule st) ''__recon_void'' st;
     cid \<leftarrow> currCid st;
     (_, st) \<leftarrow> CreateCall (getBuilder st) ''__recon_void'' reconFun
                  [k (int i), k (currId st), cid] st;
     reconLoop (Suc i) rs st
   }"

definition reconGroup :: "cg \<Rightarrow> (unit \<times> cg) option" where
  "reconGroup st =
     (if \<not> executeCommit st \<and> \<not> insideLambda st then do {
        let st = st\<lparr>executeCommit := True, currId := currId st - 1\<rparr>;
        (_, st) \<leftarrow> reconLoop 0 (reconVector st) st;
        (_, st) \<leftarrow> visitFunctionCall ''__destroy_context'' [visitIdentifier ''cid''] st;
        Some ((), st\<lparr>namedValues := um_erase ''cid'' (namedValues st)\<rparr>)
      }
      else Some ((), st))"

subsection \<open>The block\<close>

definition nth_opt :: "'a list \<Rightarrow> nat \<Rightarrow> 'a option" where
  "nth_opt xs i = (if i < length xs then Some (xs ! i) else None)"

fun blockLoop ::
  "bool list \<Rightarrow> nat \<Rightarrow> (statement \<times> visitor) list \<Rightarrow> llvalue option \<Rightarrow> visitor" where
  "blockLoop cv i [] lastVisited st = Some (lastVisited, st)"
| "blockLoop cv i ((stmt, vstmt) # rest) lastVisited st = do {
     commits \<leftarrow> (if \<not> insideLambda st then nth_opt cv i else Some True);
     (v, st) \<leftarrow>
       (if \<not> commits then visitClosure stmt vstmt lastVisited st
        else do {
          (_, st) \<leftarrow> reconGroup st;
          vstmt st
        });
     blockLoop cv (Suc i) rest v st
   }"

definition visitBlock :: "(statement \<times> visitor) list option \<Rightarrow> visitor" where
  "visitBlock stmts st =
     (case stmts of
        None \<Rightarrow> Some (None, st)
      | Some ss \<Rightarrow>
          (if \<not> insideLambda st
           then blockLoop (commitVector (map fst ss)) 0 ss None (st\<lparr>executeCommit := True\<rparr>)
           else blockLoop [] 0 ss None st))"

fun visitVarDef :: "variableDefinition \<Rightarrow> visitor" where
  "visitVarDef (VariableDefinition ty i e p) =
     visitVariableDefinition ty i (map_option visitExpr e) p"
| "visitVarDef (StructureDeclaration ty i p) = visitStructureDeclaration ty i p"

fun visitStmt :: "statement \<Rightarrow> visitor" and visitBlk :: "block \<Rightarrow> visitor" where
  "visitStmt (VariableStatement c v) = visitVarDef v"
| "visitStmt (StructureDefinition c i b) = visitStructureDefinition i b"
| "visitStmt (FunctionDefinition c t u i as b p) =
     visitFunctionDefinition t u i as (visitBlk b) p"
| "visitStmt (ExpressionStatement c e) = visitExpressionStatement (visitExpr e)"
| "visitStmt (ReturnStatement c e) = visitReturnStatement (map_option visitExpr e)"
| "visitStmt (AssignStatement c t v) = visitAssignStatement t (visitExpr v)"
| "visitStmt (IfStatement c e b eb) =
     visitIfStatement (visitExpr e) (visitBlk b) (map_option visitBlk eb)"
| "visitStmt (ExternStatement c t i as p) = visitExternStatement t i as p"
| "visitBlk (Block ss) = visitBlock (map_option (map (\<lambda>s. (s, visitStmt s))) ss)"

end
