(* ===== verification/CG_Stmt_Correct.thy ===== *)
theory CG_Stmt_Correct
  imports CG_Expr_Correct CG_Block
begin

section \<open>Compiled statements do what they mean\<close>

text \<open>
  A simulation between the reference semantics of statements and the interpreter. A function's code
  is spread over several blocks that grow while later statements are compiled: instructions are appended
  to the current block and stack variables are put in front of the entry block. \<open>grown e st Q\<close> says that program
  \<open>Q\<close> is a later state of the compiler than \<open>st\<close> in this sense; the execution of a statement is stated for every
  such \<open>Q\<close>, so that the statements that follow need no second look at it.
\<close>

subsection \<open>Growing programs\<close>

definition insts :: "'a llvm_scheme \<Rightarrow> nat \<Rightarrow> llvalue list" where
  "insts P b = (case bbs P b of None \<Rightarrow> [] | Some bb \<Rightarrow> bb_insts bb)"

text \<open>New stack variables, with new and different numbers.\<close>

lemma is_alloca_variable [simp]: "is_alloca (variable c x t i)" "inst_id (variable c x t i) = i"
  by (simp_all add: variable_def)

definition added :: "nat \<Rightarrow> nat \<Rightarrow> llvalue list \<Rightarrow> bool" where
  "added n k As \<longleftrightarrow> distinct (map inst_id As) \<and>
     (\<forall>I \<in> set As. n \<le> inst_id I \<and> inst_id I < k \<and> (\<exists>x t i. I = variable MainCtx x t i))"

lemma added_Nil [simp]: "added n k []"
  by (simp add: added_def)

lemma added_alloca: "added n k As \<Longrightarrow> I \<in> set As \<Longrightarrow> is_alloca I \<and> n \<le> inst_id I"
  by (auto simp: added_def)

lemma added_append: "added k l Bs \<Longrightarrow> added n k As \<Longrightarrow> n \<le> k \<Longrightarrow> k \<le> l \<Longrightarrow> added n l (Bs @ As)"
  by (force simp: added_def)

definition grown :: "nat \<Rightarrow> 'a llvm_scheme \<Rightarrow> 'c llvm_scheme \<Rightarrow> bool" where
  "grown e P Q \<longleftrightarrow> nextId P \<le> nextId Q \<and> (\<forall>b. bbs P b \<noteq> None \<longrightarrow> bbs Q b \<noteq> None \<and>
     (\<exists>As Js. insts Q b = As @ insts P b @ Js \<and> added (nextId P) (nextId Q) As \<and>
        (\<forall>I \<in> set Js. \<not> is_alloca I) \<and> (b \<noteq> e \<longrightarrow> As = [])))"

lemma grownE:
  assumes "grown e P Q" and "bbs P b \<noteq> None"
  obtains As Js where "insts Q b = As @ insts P b @ Js" and "added (nextId P) (nextId Q) As"
    and "\<forall>I \<in> set Js. \<not> is_alloca I" and "b \<noteq> e \<Longrightarrow> As = []" and "bbs Q b \<noteq> None"
  using assms unfolding grown_def by blast

lemma grown_refl [simp]: "grown e P P"
  unfolding grown_def by (auto intro!: exI [of _ "[]"])

lemma grown_trans:
  assumes "grown e P Q" and "grown e Q S"
  shows "grown e P S"
  unfolding grown_def
proof (intro conjI allI impI)
  show "nextId P \<le> nextId S" using assms by (simp add: grown_def)
  fix b assume b: "bbs P b \<noteq> None"
  from grownE [OF assms(1) b] obtain As Js where 1: "insts Q b = As @ insts P b @ Js"
      "added (nextId P) (nextId Q) As" "\<forall>I \<in> set Js. \<not> is_alloca I" "b \<noteq> e \<longrightarrow> As = []" "bbs Q b \<noteq> None"
    by metis
  from grownE [OF assms(2) 1(5)] obtain Bs Ks where 2: "insts S b = Bs @ insts Q b @ Ks"
      "added (nextId Q) (nextId S) Bs" "\<forall>I \<in> set Ks. \<not> is_alloca I" "b \<noteq> e \<longrightarrow> Bs = []" "bbs S b \<noteq> None"
    by metis
  show "bbs S b \<noteq> None" by fact
  have "added (nextId P) (nextId S) (Bs @ As)"
    using added_append [OF 2(2) 1(2)] assms by (simp add: grown_def)
  moreover have "insts S b = (Bs @ As) @ insts P b @ (Js @ Ks)" using 1(1) 2(1) by simp
  moreover have "\<forall>I \<in> set (Js @ Ks). \<not> is_alloca I" using 1(3) 2(3) by auto
  ultimately show "\<exists>As Js. insts S b = As @ insts P b @ Js \<and> added (nextId P) (nextId S) As \<and>
        (\<forall>I \<in> set Js. \<not> is_alloca I) \<and> (b \<noteq> e \<longrightarrow> As = [])"
    using 1(4) 2(4) by blast
qed

lemma insts_extend [simp]:
  "bbs st b \<noteq> None \<Longrightarrow> insts (extend b Is st) b' = insts st b' @ (if b' = b then Is else [])"
  by (auto simp: insts_def extend_def)

lemma grown_extend:
  assumes "bbs st b \<noteq> None" and "numbered (nextId st) Is"
  shows "grown e st (extend b Is st)"
  unfolding grown_def
proof (intro conjI allI impI)
  fix b' assume "bbs st b' \<noteq> None"
  then show "bbs (extend b Is st) b' \<noteq> None" by (auto simp: extend_def)
  show "\<exists>As Js. insts (extend b Is st) b' = As @ insts st b' @ Js \<and> added (nextId st) (nextId (extend b Is st)) As \<and>
        (\<forall>I \<in> set Js. \<not> is_alloca I) \<and> (b' \<noteq> e \<longrightarrow> As = [])"
    using assms by (intro exI [of _ "[]"] exI [of _ "if b' = b then Is else []"]) (auto simp: numbered_def)
qed simp

text \<open>
  Where execution stands in block \<open>b\<close> of \<open>Q\<close> when it has executed what \<open>P\<close> has of the block: after all stack
  variables, also the ones that were added later.
\<close>

definition position :: "'c llvm_scheme \<Rightarrow> 'a llvm_scheme \<Rightarrow> nat \<Rightarrow> nat" where
  "position Q P b = length (filter is_alloca (insts Q b)) + length (filter (\<lambda>I. \<not> is_alloca I) (insts P b))"

lemma position_split:
  assumes "grown e P Q" and "bbs P b \<noteq> None"
  obtains As Js where "insts Q b = As @ insts P b @ Js" and "length (As @ insts P b) = position Q P b"
    and "added (nextId P) (nextId Q) As" and "\<forall>I \<in> set Js. \<not> is_alloca I"
proof -
  from grownE [OF assms] obtain As Js where q: "insts Q b = As @ insts P b @ Js"
      "added (nextId P) (nextId Q) As" "\<forall>I \<in> set Js. \<not> is_alloca I"
    by metis
  have "filter is_alloca As = As" "filter is_alloca Js = []" using q(2,3) added_alloca by (auto simp: filter_id_conv filter_empty_conv)
  then have "length (As @ insts P b) = position Q P b"
    using sum_length_filter_compl [of is_alloca "insts P b"] by (simp add: position_def q(1))
  then show ?thesis using that q by blast
qed

subsection \<open>The compiler between two statements of a function\<close>

fun ret_ty :: "sty option \<Rightarrow> lltype" where
  "ret_ty None = TVoid MainCtx" | "ret_ty (Some t) = lty MainCtx t"

definition fresh :: "'a llvm_scheme \<Rightarrow> bool" where
  "fresh P \<longleftrightarrow> (\<forall>b. bbs P b \<noteq> None \<longrightarrow> b < nextId P \<and> (\<forall>I \<in> set (insts P b). inst_id I < nextId P))"

definition in_function :: "nat \<Rightarrow> ctx \<times> string \<Rightarrow> sty option \<Rightarrow> nat \<Rightarrow> cg \<Rightarrow> bool" where
  "in_function e F R b st \<longleftrightarrow> \<not> insideLambda st \<and> executeCommit st \<and> \<not> recon st \<and>
     insertPt st MainCtx = Some b \<and> insert_function MainCtx st = Some F \<and> bbs st e \<noteq> None \<and>
     (\<exists>g bs. getFunction (fst F) (snd F) st = Some g \<and> fn_blocks g = e # bs \<and> fn_ret g = ret_ty R)"

definition scoped :: "nat \<Rightarrow> cg \<Rightarrow> senvt \<Rightarrow> bool" where
  "scoped e st \<Gamma> \<longleftrightarrow> declares st \<Gamma> \<and>
     (\<forall>x t i. \<Gamma> x = Some t \<longrightarrow> map_of (namedValues st) x = Some (Some (variable MainCtx x t i)) \<longrightarrow>
        variable MainCtx x t i \<in> set (insts st e)) \<and>
     (\<forall>x y t s i. map_of (namedValues st) x = Some (Some (variable MainCtx x t i)) \<longrightarrow>
        map_of (namedValues st) y = Some (Some (variable MainCtx y s i)) \<longrightarrow> x = y)"

definition ready :: "nat \<Rightarrow> ctx \<times> string \<Rightarrow> sty option \<Rightarrow> senvt \<Rightarrow> nat \<Rightarrow> cg \<Rightarrow> bool" where
  "ready e F R \<Gamma> b st \<longleftrightarrow> in_function e F R b st \<and> fresh st \<and> scoped e st \<Gamma>"

lemma readyD:
  assumes "ready e F R \<Gamma> b st"
  shows "getBuilder st = MainCtx" and "getContext st = MainCtx" and "getModule st = MainCtx"
    and "insertPt st MainCtx = Some b" and "bbs st b \<noteq> None"
    and "bbs st e \<noteq> None" and "declares st \<Gamma>" and "fresh st" and "scoped e st \<Gamma>" and "in_function e F R b st"
    and "\<not> insideLambda st" and "executeCommit st" and "\<not> recon st" and "insert_function MainCtx st = Some F"
  using assms
  by (auto simp: ready_def in_function_def scoped_def getBuilder_def getContext_def getModule_def insert_function_def Option.bind_eq_Some_conv)

lemma fresh_extend: "fresh st \<Longrightarrow> bbs st b \<noteq> None \<Longrightarrow> numbered (nextId st) Is \<Longrightarrow> fresh (extend b Is st)"
proof -
  assume st: "fresh st" "bbs st b \<noteq> None" and n: "numbered (nextId st) Is"
  have ids: "inst_id I < nextId st + length Is" if "I \<in> set Is" for I
    using n that unfolding numbered_def by (metis atLeastLessThan_iff image_eqI list.set_map set_upt)
  show "fresh (extend b Is st)"
    unfolding fresh_def
  proof (intro allI impI)
    fix b' assume "bbs (extend b Is st) b' \<noteq> None"
    then have "bbs st b' \<noteq> None" using st(2) by (auto simp: extend_def split: if_splits)
    then have "b' < nextId st \<and> (\<forall>I \<in> set (insts st b'). inst_id I < nextId st)" using st(1) unfolding fresh_def by blast
    then show "b' < nextId (extend b Is st) \<and> (\<forall>I \<in> set (insts (extend b Is st) b'). inst_id I < nextId (extend b Is st))"
      using ids st(2) by (auto simp: trans_less_add1)
  qed
qed

lemma extend_more [simp]:
  "recon (extend b Is st) = recon st" "executeCommit (extend b Is st) = executeCommit st" "modules (extend b Is st) = modules st"
  "error (extend b Is st) = error st" "justReturned (extend b Is st) = justReturned st"
  "getFunction c f (extend b Is st) = getFunction c f st" "getModule (extend b Is st) = getModule st"
  "insert_function c (extend b Is st) = insert_function c st" "bbs (extend b Is st) b' = None \<longleftrightarrow> bbs st b' = None"
  by (auto simp: extend_def getFunction_def insert_function_def getModule_def split: Option.bind_splits)

lemma ready_extend:
  assumes "ready e F R \<Gamma> b st" and "numbered (nextId st) Is"
  shows "ready e F R \<Gamma> b (extend b Is st)"
  unfolding ready_def
proof (intro conjI)
  show "in_function e F R b (extend b Is st)" using readyD(10) [OF assms(1)] by (simp add: in_function_def)
  show "fresh (extend b Is st)" using readyD(5,8) [OF assms(1)] assms(2) by (intro fresh_extend)
  show "scoped e (extend b Is st) \<Gamma>"
    using readyD(5,9) [OF assms(1)] by (auto simp: scoped_def)
qed

subsection \<open>The frame of a function at work\<close>

definition cells :: "'a llvm_scheme \<Rightarrow> nat \<Rightarrow> (sty \<times> nat) set" where
  "cells Q e = {(t, i). \<exists>x. variable MainCtx x t i \<in> set (insts Q e)}"

definition frame_ok :: "'a llvm_scheme \<Rightarrow> nat \<Rightarrow> ExecutionContext \<Rightarrow> memory \<Rightarrow> bool" where
  "frame_ok Q e SF m \<longleftrightarrow> (\<forall>t i. (t, i) \<in> cells Q e \<longrightarrow> mapped m (addr SF i) (bytesize t) \<and>
     (\<forall>s j. (s, j) \<in> cells Q e \<longrightarrow> i \<noteq> j \<longrightarrow> span (addr SF i) (bytesize t) \<inter> span (addr SF j) (bytesize s) = {}))"

definition footprint :: "'a llvm_scheme \<Rightarrow> nat \<Rightarrow> ExecutionContext \<Rightarrow> int64 set" where
  "footprint Q e SF = (\<Union>(t, i) \<in> cells Q e. span (addr SF i) (bytesize t))"

text \<open>Execution in one frame, for every rest of the stack and every outside world.\<close>

definition moves :: "'w host \<Rightarrow> 'a llvm_scheme \<Rightarrow> nat \<Rightarrow> ExecutionContext \<times> memory \<Rightarrow> ExecutionContext \<times> memory \<Rightarrow> bool" where
  "moves H Q e c c' \<longleftrightarrow> (case (c, c') of ((SF, m), (SF', m')) \<Rightarrow>
     (\<forall>s fs. reaches H Q (s\<lparr>ECStack := SF # fs, mem := m\<rparr>) (s\<lparr>ECStack := SF' # fs, mem := m'\<rparr>)) \<and>
     CurFunction SF' = CurFunction SF \<and> Caller SF' = Caller SF \<and> Allocas SF' = Allocas SF \<and>
     (\<forall>f i. Values SF' (KArg f i) = Values SF (KArg f i)) \<and>
     (\<forall>t i. (t, i) \<in> cells Q e \<longrightarrow> addr SF' i = addr SF i) \<and> dom m' = dom m \<and>
     (\<forall>a. a \<notin> footprint Q e SF \<longrightarrow> m' a = m a))"

lemma movesD:
  assumes "moves H Q e (SF, m) (SF', m')"
  shows "reaches H Q (s\<lparr>ECStack := SF # fs, mem := m\<rparr>) (s\<lparr>ECStack := SF' # fs, mem := m'\<rparr>)"
    and "CurFunction SF' = CurFunction SF" and "Caller SF' = Caller SF" and "Allocas SF' = Allocas SF"
    and "Values SF' (KArg f i) = Values SF (KArg f i)" and "(t, j) \<in> cells Q e \<Longrightarrow> addr SF' j = addr SF j"
    and "dom m' = dom m" and "a \<notin> footprint Q e SF \<Longrightarrow> m' a = m a"
  using assms unfolding moves_def prod.case by blast+

lemma footprint_cong: "(\<And>t j. (t, j) \<in> cells Q e \<Longrightarrow> addr SF' j = addr SF j) \<Longrightarrow> footprint Q e SF' = footprint Q e SF"
  unfolding footprint_def by (rule SUP_cong) auto

lemma moves_refl [simp]: "moves H Q e c c"
  by (auto simp: moves_def split: prod.splits)

lemma moves_trans:
  assumes "moves H Q e (SF, m) (SF', m')" and "moves H Q e (SF', m') (SF'', m'')"
  shows "moves H Q e (SF, m) (SF'', m'')"
proof -
  note 1 = movesD [OF assms(1)] and 2 = movesD [OF assms(2)]
  have fp: "footprint Q e SF' = footprint Q e SF" by (rule footprint_cong) (rule 1(6))
  show ?thesis
    unfolding moves_def prod.case using reaches_trans [OF 1(1) 2(1)] 1(2-8) 2(2-8) fp by simp
qed

lemma frame_ok_addr:
  assumes "frame_ok Q e SF m" and "\<forall>t i. (t, i) \<in> cells Q e \<longrightarrow> addr SF' i = addr SF i" and "dom m' = dom m"
  shows "frame_ok Q e SF' m'"
  using assms unfolding frame_ok_def mapped_def by metis

lemma moves_frame_ok: "moves H Q e (SF, m) (SF', m') \<Longrightarrow> frame_ok Q e SF m \<Longrightarrow> frame_ok Q e SF' m'"
  by (auto simp: moves_def intro: frame_ok_addr)

definition stands :: "'a llvm_scheme \<Rightarrow> nat \<Rightarrow> nat \<Rightarrow> cg \<Rightarrow> senvt \<Rightarrow> senv \<Rightarrow> ExecutionContext \<Rightarrow> memory \<Rightarrow> bool" where
  "stands Q e b st \<Gamma> \<rho> SF m \<longleftrightarrow> CurBB SF = b \<and> CurInst SF = position Q st b \<and> frame_ok Q e SF m \<and>
     represents st \<Gamma> \<rho> SF m \<and> dom \<rho> \<subseteq> dom \<Gamma>"

text \<open>
  What a step leaves alone: the code of the blocks that existed before it, but for the current one, the
  variables that were in scope, and the functions of the module.
\<close>

definition kept :: "nat \<Rightarrow> nat \<Rightarrow> 'a llvm_scheme \<Rightarrow> 'c llvm_scheme \<Rightarrow> bool" where
  "kept n b P Q \<longleftrightarrow> (\<forall>c < n. c \<noteq> b \<longrightarrow> filter (\<lambda>I. \<not> is_alloca I) (insts Q c) = filter (\<lambda>I. \<not> is_alloca I) (insts P c))"

definition function_names :: "'a llvm_scheme \<Rightarrow> string list" where
  "function_names P = map fst (modules P MainCtx)"

lemma function_names_cong: "modules P = modules Q \<Longrightarrow> function_names P = function_names Q"
  by (simp add: function_names_def)

lemma function_names_extend [simp]: "function_names (extend b Is st) = function_names st"
  by (rule function_names_cong) (simp add: extend_def)

lemma function_names_justReturned [simp]: "function_names (st\<lparr>justReturned := j\<rparr>) = function_names st"
  by (rule function_names_cong) simp

definition scope_ext :: "senvt \<Rightarrow> cg \<Rightarrow> senvt \<Rightarrow> cg \<Rightarrow> bool" where
  "scope_ext \<Gamma> st \<Gamma>' st' \<longleftrightarrow> getBuilder st' = getBuilder st \<and> function_names st' = function_names st \<and>
     (\<forall>x t. \<Gamma> x = Some t \<longrightarrow> \<Gamma>' x = Some t \<and> map_of (namedValues st') x = map_of (namedValues st) x)"

lemma kept_refl [simp]: "kept n b P P"
  by (simp add: kept_def)

lemma kept_trans: "kept n b P Q \<Longrightarrow> kept n b Q S \<Longrightarrow> kept n b P S"
  by (simp add: kept_def)

lemma kept_later: "kept k c P Q \<Longrightarrow> n \<le> k \<Longrightarrow> c = b \<or> n \<le> c \<Longrightarrow> kept n b P Q"
  by (auto simp: kept_def)

lemma kept_extend: "bbs st b \<noteq> None \<Longrightarrow> kept n b st (extend b Is st)"
  by (simp add: kept_def)

lemma scope_ext_refl [simp]: "scope_ext \<Gamma> st \<Gamma> st"
  by (simp add: scope_ext_def)

lemma scope_ext_trans: "scope_ext \<Gamma> st \<Gamma>' st' \<Longrightarrow> scope_ext \<Gamma>' st' \<Gamma>'' st'' \<Longrightarrow> scope_ext \<Gamma> st \<Gamma>'' st''"
  by (auto simp: scope_ext_def)

lemma scope_ext_extend [simp]: "scope_ext \<Gamma> st \<Gamma>' (extend b Is st') = scope_ext \<Gamma> st \<Gamma>' st'"
  by (simp add: scope_ext_def)

lemma represents_scope_ext:
  assumes "scope_ext \<Gamma> st \<Gamma>' st'" and "represents st \<Gamma> \<rho> SF m" and "dom \<rho> \<subseteq> dom \<Gamma>"
  shows "represents st' \<Gamma>' \<rho> SF m"
  unfolding represents_def
proof (intro allI impI)
  fix x t i v assume x: "\<Gamma>' x = Some t" "\<rho> x = Some v" "map_of (namedValues st') x = Some (Some (variable (getBuilder st') x t i))"
  then obtain t' where "\<Gamma> x = Some t'" using assms(3) by blast
  then show "slot m (addr SF i) t v" using assms(1,2) x unfolding scope_ext_def represents_def by (metis option.inject)
qed

subsection \<open>Running a piece of straight code\<close>

lemma position_extend:
  assumes "bbs st b \<noteq> None" and "numbered n Is"
  shows "position Q (extend b Is st) b = position Q st b + length Is"
proof -
  have "filter (\<lambda>I. \<not> is_alloca I) Is = Is" using assms(2) by (auto simp: numbered_def filter_id_conv)
  then show ?thesis using assms(1) by (simp add: position_def)
qed

lemma cells_not_numbered:
  assumes "ready e F R \<Gamma> b st" and "numbered (nextId st) Is" and "grown e (extend b Is st) Q" and "(t, i) \<in> cells Q e"
  shows "i \<notin> inst_id ` set Is"
proof
  assume i: "i \<in> inst_id ` set Is"
  have range: "inst_id ` set Is = {nextId st..<nextId st + length Is}"
    using assms(2) unfolding numbered_def by (metis list.set_map set_upt)
  from assms(4) obtain x where x: "variable MainCtx x t i \<in> set (insts Q e)" by (auto simp: cells_def)
  have e: "bbs (extend b Is st) e \<noteq> None" using readyD(6) [OF assms(1)] by simp
  from grownE [OF assms(3) e] obtain As Js where q: "insts Q e = As @ insts (extend b Is st) e @ Js"
      "added (nextId (extend b Is st)) (nextId Q) As" "\<forall>I \<in> set Js. \<not> is_alloca I"
    by metis
  have v: "is_alloca (variable MainCtx x t i)" "inst_id (variable MainCtx x t i) = i" by (simp_all add: variable_def)
  have "variable MainCtx x t i \<notin> set As" using added_alloca [OF q(2)] v(2) i range by (metis atLeastLessThan_iff extend_fields(1) leD)
  moreover have "variable MainCtx x t i \<notin> set Js" using q(3) v(1) by blast
  moreover have "variable MainCtx x t i \<notin> set Is" using assms(2) v(1) unfolding numbered_def by blast
  ultimately have "variable MainCtx x t i \<in> set (insts st e)"
    using x q(1) readyD(5) [OF assms(1)] by (auto split: if_splits)
  then have "i < nextId st" using readyD(6,8) [OF assms(1)] v(2) unfolding fresh_def by metis
  then show False using i range by simp
qed

lemma execs_moves:
  assumes ready: "ready e F R \<Gamma> b st" and num: "numbered (nextId st) Is" and Q: "grown e (extend b Is st) Q"
    and SF: "CurBB SF = b" "CurInst SF = position Q st b"
    and ex: "execs H Q Is (SF, m) = Some (SF', m')"
    and m': "dom m' = dom m" "\<And>a. a \<notin> footprint Q e SF \<Longrightarrow> m' a = m a"
  shows "moves H Q e (SF, m) (SF'\<lparr>CurInst := position Q (extend b Is st) b\<rparr>, m') \<and> CurBB SF' = b"
proof -
  note st = readyD [OF ready]
  have "bbs (extend b Is st) b \<noteq> None" using st(5) by simp
  from position_split [OF Q this] obtain As Js where q: "insts Q b = As @ insts (extend b Is st) b @ Js"
      "length (As @ insts (extend b Is st) b) = position Q (extend b Is st) b"
    by metis
  have pos: "length (As @ insts st b) = position Q st b"
    using q(2) position_extend [OF st(5) num, of Q] st(5) by simp
  have "bbs Q b \<noteq> None" using Q st(5) by (simp add: grown_def)
  then obtain bb where bb: "bbs Q b = Some bb" by blast
  have "bb_insts bb = (As @ insts st b) @ Is @ Js" using q(1) st(5) bb by (simp add: insts_def [of Q])
  from execs_reaches [of Q SF bb "As @ insts st b" Is Js H m SF' m'] this
  have run: "reaches H Q (s\<lparr>ECStack := SF # fs, mem := m\<rparr>)
      (s\<lparr>ECStack := SF'\<lparr>CurInst := position Q (extend b Is st) b\<rparr> # fs, mem := m'\<rparr>)" for s fs
    using SF pos bb ex position_extend [OF st(5) num, of Q] by simp
  have fr: "SF' = SF\<lparr>Values := Values SF'\<rparr>" "\<And>k. k \<notin> (KInst \<circ> inst_id) ` set Is \<Longrightarrow> Values SF' k = Values SF k"
    using execs_frame [OF ex] num by (auto simp: numbered_def)
  have "addr SF' i = addr SF i" if "(t, i) \<in> cells Q e" for t i
  proof -
    have "KInst i \<notin> (KInst \<circ> inst_id) ` set Is" using cells_not_numbered [OF ready num Q that] by auto
    then show ?thesis using fr(2) by (simp add: addr_def lookupValue_def)
  qed
  then have addr: "\<forall>t i. (t, i) \<in> cells Q e \<longrightarrow> addr (SF'\<lparr>CurInst := n\<rparr>) i = addr SF i" for n
    by (auto simp: addr_def lookupValue_def)
  have "CurFunction SF' = CurFunction SF" "Caller SF' = Caller SF" "Allocas SF' = Allocas SF" "CurBB SF' = CurBB SF"
    by (subst fr(1); simp)+
  moreover have "Values SF' (KArg f i) = Values SF (KArg f i)" for f i by (rule fr(2)) auto
  ultimately show ?thesis using run addr m' SF(1) by (simp add: moves_def)
qed

subsection \<open>Values of statements\<close>

text \<open>The instructions a step emits do not depend on what they are run with.\<close>

lemma extend_inject:
  assumes "bbs st b \<noteq> None" and "extend b Is st = extend b Js st"
  shows "Is = Js"
proof -
  have "insts (extend b Is st) b = insts (extend b Js st) b" by (simp only: assms(2))
  then show ?thesis unfolding insts_extend [OF assms(1)] by simp
qed

lemma emits_uniform:
  assumes "\<And>P \<rho>. emits H P b st res T (D P \<rho>)" and "bbs st b \<noteq> None"
  obtains v Is where "res = Some (v, extend b Is st)" and "getType v = T" and "below (nextId st + length Is) v"
    and "numbered (nextId st) Is" and "\<forall>P \<rho>. delivers H P (nextId st) Is v (D P \<rho>)"
proof -
  obtain v Is where v: "res = Some (v, extend b Is st)" "getType v = T" "below (nextId st + length Is) v" "numbered (nextId st) Is"
    using assms(1) [of undefined undefined] by (elim emitsE) (rule that)
  have "delivers H P (nextId st) Is v (D P \<rho>)" for P \<rho>
  proof -
    obtain w Js where w: "res = Some (w, extend b Js st)" "getType w = T" "below (nextId st + length Js) w"
        "numbered (nextId st) Js" "delivers H P (nextId st) Js w (D P \<rho>)"
      using assms(1) [of P \<rho>] by (rule emitsE)
    then have "extend b Js st = extend b Is st" "w = v" using v(1) by auto
    then show ?thesis using w(5) extend_inject [OF assms(2)] by metis
  qed
  then show ?thesis using that v by blast
qed

definition coerce :: "lltype \<Rightarrow> llvalue \<Rightarrow> cg \<Rightarrow> (llvalue \<times> cg) option" where
  "coerce t r st = (if isDoubleTy t \<and> isIntegerTy (getType r) then castIntToFloat r st else Some (r, st))"

lemma coerce_emits:
  assumes "insertPt st (getBuilder st) = Some b" and "getType r = lty (getBuilder st) s" and "below (nextId st) r"
    and "assignable t s"
  shows "emits H P b st (coerce (lty (getBuilder st) t) r st) (lty (getBuilder st) t)
    (computes t (\<lambda>SF m y. \<exists>x. holds r s x SF \<and> y = conv H t x))"
proof (cases "s = t")
  case True
  have "\<not> (isDoubleTy (lty (getBuilder st) t) \<and> isIntegerTy (getType r))" using assms(2) True by (cases t) auto
  then have "coerce (lty (getBuilder st) t) r st = Some (r, st)" unfolding coerce_def by (simp only: if_False)
  moreover have "conv H t x = x" if "has_type x t" for x using that by (cases x; cases t) auto
  moreover have "emits H P b st (Some (r, st)) (lty (getBuilder st) s) (computes s (\<lambda>SF m y. \<exists>x. holds r s x SF \<and> y = conv H t x))"
    by (rule computes_weaken [OF emits_holds [OF assms(2,3)]]) (use calculation(2) True in \<open>auto simp: holds_def\<close>)
  ultimately show ?thesis using True by simp
next
  case False
  then have t: "t = FloatT" "s = IntT" using assms(4) by (auto simp: assignable_def)
  have "emits H P b st (castIntToFloat r st) (lty (getBuilder st) FloatT)
      (computes FloatT (\<lambda>SF m y. \<exists>x. holds r IntT x SF \<and> y = conv H FloatT x))"
    by (rule computes_weaken [OF castIntToFloat_emits [OF assms(1)]]) (use assms(2) t in \<open>auto simp: holds_int\<close>)
  then show ?thesis using t assms(2) by (simp add: coerce_def)
qed

text \<open>The code for the right-hand side of a definition, an assignment or a return.\<close>

lemma value_emits:
  assumes "insertPt st (getBuilder st) = Some b" and "declares st \<Gamma>" and "typeof \<Gamma> e = Some s" and "assignable t s"
  shows "emits H P b st (do { (r, st') \<leftarrow> strip (visitExpr e st); coerce (lty (getBuilder st) t) r st' }) (lty (getBuilder st) t)
    (computes t (\<lambda>SF m y. represents st \<Gamma> \<rho> SF m \<and> (\<exists>x. eval H \<rho> e = Some x \<and> y = conv H t x)))"
proof (rule emits_then [OF visitExpr_emits [OF assms(1,2,3), where \<rho> = \<rho>]])
    fix v Is assume "getType v = lty (getBuilder st) s" "below (nextId (extend b Is st)) v"
    then show "emits H P b (extend b Is st) (coerce (lty (getBuilder st) t) v (extend b Is st)) (lty (getBuilder st) t)
        (computes t (\<lambda>SF m y. \<exists>x. holds v s x SF \<and> y = conv H t x))"
      using coerce_emits [of "extend b Is st" b v s t H P] assms(1,4) by simp
  next
    fix v SF m y
    assume "represents st \<Gamma> \<rho> SF m \<and> (\<exists>x. eval H \<rho> e = Some x \<and> y = conv H t x)"
    then show "\<exists>x. (represents st \<Gamma> \<rho> SF m \<and> eval H \<rho> e = Some x) \<and> has_type x s \<and>
        (\<forall>SF'. frame_ext (nextId st) SF SF' \<longrightarrow> holds v s x SF' \<longrightarrow> (\<exists>x. holds v s x SF' \<and> y = conv H t x))"
      using eval_preserves_types [OF represents_env_ok [OF assms(2)] assms(3)] by blast
qed

lemma CurInst_irrelevant [simp]:
  "addr (SF\<lparr>CurInst := n\<rparr>) = addr SF" "represents st \<Gamma> \<rho> (SF\<lparr>CurInst := n\<rparr>) m = represents st \<Gamma> \<rho> SF m"
  "holds v t y (SF\<lparr>CurInst := n\<rparr>) = holds v t y SF"
  by (simp_all add: addr_def [abs_def] lookupValue_def represents_def holds_def)

lemma delivers_moves:
  assumes ready: "ready e F R \<Gamma> b st" and num: "numbered (nextId st) Is" and Q: "grown e (extend b Is st) Q"
    and code: "delivers H Q (nextId st) Is v (computes t D)"
    and at: "stands Q e b st \<Gamma> \<rho> SF m" and y: "D SF m y" "has_type y t"
  obtains SF' where "moves H Q e (SF, m) (SF', m)" and "stands Q e b (extend b Is st) \<Gamma> \<rho> SF' m" and "holds v t y SF'"
proof -
  obtain SF1 where 1: "execs H Q Is (SF, m) = Some (SF1, m)" "frame_ext (nextId st) SF SF1" "getOperandValue v SF1 = Some (gv_of t y)"
    using code y unfolding delivers_def computes_def by blast
  let ?SF' = "SF1\<lparr>CurInst := position Q (extend b Is st) b\<rparr>"
  have m: "moves H Q e (SF, m) (?SF', m)" "CurBB SF1 = b"
    using execs_moves [OF ready num Q _ _ 1(1)] at by (auto simp: stands_def)
  have "represents st \<Gamma> \<rho> SF1 m"
    using represents_frame [OF readyD(7) [OF ready] _ 1(2)] at by (simp add: stands_def)
  then have "stands Q e b (extend b Is st) \<Gamma> \<rho> ?SF' m"
    using m moves_frame_ok [OF m(1)] at by (simp add: stands_def)
  moreover have "holds v t y ?SF'" using 1(3) y(2) by (simp add: holds_def)
  ultimately show ?thesis using that m(1) by blast
qed

text \<open>The code of a value: what is emitted, and what happens when it is run.\<close>

lemma value_code:
  assumes ready: "ready e F R \<Gamma> b st" and ty: "typeof \<Gamma> ex = Some s" "assignable t s"
  obtains r st1 v Is where "visitExpr ex st = Some (Some r, st1)" and "getType r = lty MainCtx s"
    and "coerce (lty MainCtx t) r st1 = Some (v, extend b Is st)" and "getBuilder st1 = MainCtx" and "recon st1 = recon st"
    and "namedValues st1 = namedValues st" and "modules st1 = modules st" and "s = t \<Longrightarrow> v = r \<and> st1 = extend b Is st"
    and "getType v = lty MainCtx t" and "numbered (nextId st) Is" and "below (nextId st + length Is) v"
    and "\<And>(Q :: cg) \<rho> SF m x. grown e (extend b Is st) Q \<Longrightarrow> stands Q e b st \<Gamma> \<rho> SF m \<Longrightarrow> eval H \<rho> ex = Some x \<Longrightarrow>
      \<exists>SF'. moves H Q e (SF, m) (SF', m) \<and> stands Q e b (extend b Is st) \<Gamma> \<rho> SF' m \<and> holds v t (conv H t x) SF'"
proof -
  note st = readyD [OF ready]
  have ins: "insertPt st (getBuilder st) = Some b" using st(1,4) by simp
  have b: "lty (getBuilder st) t = lty MainCtx t" using st(1) by simp
  from visitExpr_emits [OF ins st(7) ty(1), of H st Map.empty] obtain r Is1 where r: "visitExpr ex st = Some (Some r, extend b Is1 st)"
      "getType r = lty MainCtx s"
    using st(1) by (auto elim!: emitsE dest!: stripD)
  obtain v Is where v: "do { (r, st') \<leftarrow> strip (visitExpr ex st); coerce (lty (getBuilder st) t) r st' } = Some (v, extend b Is st)"
      "getType v = lty (getBuilder st) t" "below (nextId st + length Is) v" "numbered (nextId st) Is"
      "\<forall>(P :: cg) \<rho>. delivers H P (nextId st) Is v (computes t (\<lambda>SF m y. represents st \<Gamma> \<rho> SF m \<and> (\<exists>x. eval H \<rho> ex = Some x \<and> y = conv H t x)))"
    by (rule emits_uniform [where D = "\<lambda>(P :: cg) \<rho>. computes t (\<lambda>SF m y. represents st \<Gamma> \<rho> SF m \<and> (\<exists>x. eval H \<rho> ex = Some x \<and> y = conv H t x))",
        OF value_emits [OF ins st(7) ty] st(5)])
  have coerce: "coerce (lty MainCtx t) r (extend b Is1 st) = Some (v, extend b Is st)" using v(1) r(1) b by simp
  have same: "v = r \<and> extend b Is1 st = extend b Is st" if "s = t"
    using coerce r(2) that by (cases t) (auto simp: coerce_def)
  have run: "\<exists>SF'. moves H Q e (SF, m) (SF', m) \<and> stands Q e b (extend b Is st) \<Gamma> \<rho> SF' m \<and> holds v t (conv H t x) SF'"
    if "grown e (extend b Is st) Q" "stands Q e b st \<Gamma> \<rho> SF m" "eval H \<rho> ex = Some x" for Q :: cg and \<rho> SF m x
  proof -
    have "represents st \<Gamma> \<rho> SF m" using that(2) by (simp add: stands_def)
    moreover from this have "has_type x s" using eval_preserves_types [OF represents_env_ok [OF st(7)] ty(1) that(3)] by blast
    then have "has_type (conv H t x) t" using ty(2) by (cases x; cases t; cases s) (auto simp: assignable_def)
    ultimately show ?thesis
      using delivers_moves [OF ready v(4) that(1) v(5) [rule_format] that(2)] that(3) by metis
  qed
  show ?thesis
    by (rule that [OF r(1,2) coerce _ _ _ _ same]) (use st(1) v(2,3,4) run in auto)
qed

subsection \<open>Stores\<close>

lemma typeContext_lty [simp]: "typeContext (lty c t) = c"
  by (cases t) simp_all

lemma variable_simps [simp]:
  "getType (variable c x t i) = TPtr (lty c t)" "getAllocaType (variable c x t i) = Some (lty c t)"
  "getOperandValue (variable c x t i) SF = Some (lookupValue (KInst i) SF)"
  by (simp_all add: variable_def getAllocaType_def getOperandValue_def)

abbreviation store_inst :: "cg \<Rightarrow> llvalue \<Rightarrow> llvalue \<Rightarrow> llvalue" where
  "store_inst st v p \<equiv> Inst (nextId st) (TVoid MainCtx) (Store v p)"

lemma CreateStore_variable:
  assumes "ready e F R \<Gamma> b st" and "getType v = lty MainCtx t"
  shows "CreateStore MainCtx v (variable MainCtx x t i) st =
    Some (store_inst st v (variable MainCtx x t i), extend b [store_inst st v (variable MainCtx x t i)] st)"
  using readyD [OF assms(1)] assms(2) by (simp add: CreateStore_def Insert_extend)

lemma cells_grown: "grown e st Q \<Longrightarrow> bbs st e \<noteq> None \<Longrightarrow> variable MainCtx x t i \<in> set (insts st e) \<Longrightarrow> (t, i) \<in> cells Q e"
  by (auto elim!: grownE simp: cells_def)

lemma store_moves:
  assumes ready: "ready e F R \<Gamma> b st" and v: "getType v = lty MainCtx t"
    and x: "\<Gamma> x = Some t" "map_of (namedValues st) x = Some (Some (variable MainCtx x t i))"
    and Q: "grown e (extend b [store_inst st v (variable MainCtx x t i)] st) Q"
    and at: "stands Q e b st \<Gamma> \<rho> SF m" and y: "holds v t y SF"
  obtains SF' m' where "moves H Q e (SF, m) (SF', m')"
    and "stands Q e b (extend b [store_inst st v (variable MainCtx x t i)] st) \<Gamma> (\<rho>(x \<mapsto> y)) SF' m'"
proof -
  note st = readyD [OF ready]
  let ?I = "store_inst st v (variable MainCtx x t i)"
  have num: "numbered (nextId st) [?I]" by (simp add: numbered_def)
  have Qst: "grown e st Q" using grown_trans [OF grown_extend [OF st(5) num] Q] .
  have cell: "(s, j) \<in> cells Q e" if "\<Gamma> z = Some s" "map_of (namedValues st) z = Some (Some (variable MainCtx z s j))" for z s j
    using st(9) that cells_grown [OF Qst st(6)] unfolding scoped_def by blast
  have ok: "frame_ok Q e SF m" "represents st \<Gamma> \<rho> SF m" using at by (simp_all add: stands_def)
  have "mapped m (addr SF i) (bytesize t)" "has_type y t" using ok(1) cell [OF x] y by (auto simp: frame_ok_def holds_def)
  from store_slot [OF this] obtain m' where m': "StoreValueToMemory (gv_of t y) (addr SF i) (lty MainCtx t) m = Some m'"
      "slot m' (addr SF i) t y" "dom m' = dom m" "\<And>a. a \<notin> span (addr SF i) (bytesize t) \<Longrightarrow> m' a = m a"
    by metis
  have "execs H Q [?I] (SF, m) = Some (SF, m')"
    using m'(1) y v by (simp add: i_visitStoreInst_def holds_def addr_def)
  moreover have "m' a = m a" if "a \<notin> footprint Q e SF" for a
    using that cell [OF x] by (intro m'(4)) (auto simp: footprint_def)
  ultimately have mv: "moves H Q e (SF, m) (SF\<lparr>CurInst := position Q (extend b [?I] st) b\<rparr>, m')"
    using execs_moves [OF ready num Q, of SF H m SF m'] at m'(3) by (simp add: stands_def)
  have "represents st \<Gamma> (\<rho>(x \<mapsto> y)) SF m'"
    unfolding represents_def st(1)
  proof (intro allI impI)
    fix z s j w
    assume z: "\<Gamma> z = Some s" "(\<rho>(x \<mapsto> y)) z = Some w" "map_of (namedValues st) z = Some (Some (variable MainCtx z s j))"
    show "slot m' (addr SF j) s w"
    proof (cases "z = x")
      case True
      then show ?thesis using z x m'(2) by simp
    next
      case False
      then have "slot m (addr SF j) s w" using ok(2) z st(1) unfolding represents_def by simp
      moreover have "i \<noteq> j" using st(9) False z(3) x(2) unfolding scoped_def by blast
      then have "span (addr SF i) (bytesize t) \<inter> span (addr SF j) (bytesize s) = {}"
        using ok(1) cell [OF x] cell [OF z(1,3)] unfolding frame_ok_def by blast
      ultimately show ?thesis using slot_other [of "addr SF i" "bytesize t" m' m "addr SF j" s w] m'(4) by blast
    qed
  qed
  then have "stands Q e b (extend b [?I] st) \<Gamma> (\<rho>(x \<mapsto> y)) (SF\<lparr>CurInst := position Q (extend b [?I] st) b\<rparr>) m'"
    using moves_frame_ok [OF mv ok(1)] at x(1) by (auto simp: stands_def)
  then show ?thesis using that mv by blast
qed

subsection \<open>Compiled statements\<close>

text \<open>Returning: execution arrives at a \<open>ret\<close> instruction whose operand has the value.\<close>

definition returns :: "'w host \<Rightarrow> 'a llvm_scheme \<Rightarrow> nat \<Rightarrow> sty option \<Rightarrow> sval option \<Rightarrow> ExecutionContext \<Rightarrow> memory \<Rightarrow> bool" where
  "returns H Q e R v SF m \<longleftrightarrow> (\<exists>SF' m' i t r bb. moves H Q e (SF, m) (SF', m') \<and>
     bbs Q (CurBB SF') = Some bb \<and> CurInst SF' < length (bb_insts bb) \<and> bb_insts bb ! CurInst SF' = Inst i t (Ret r) \<and>
     (case v of
        None \<Rightarrow> r = None
      | Some y \<Rightarrow> \<exists>w u. R = Some u \<and> r = Some w \<and> getType w = lty MainCtx u \<and> holds w u y SF'))"

definition runs :: "'w host \<Rightarrow> 'a llvm_scheme \<Rightarrow> nat \<Rightarrow> sty option \<Rightarrow> nat \<Rightarrow> cg \<Rightarrow> senvt \<Rightarrow> outcome \<Rightarrow>
    ExecutionContext \<Rightarrow> memory \<Rightarrow> bool" where
  "runs H Q e R b st \<Gamma> out SF m \<longleftrightarrow> (case out of
       Normal \<rho> \<Rightarrow> \<exists>SF' m'. moves H Q e (SF, m) (SF', m') \<and> stands Q e b st \<Gamma> \<rho> SF' m'
     | Returned v \<Rightarrow> returns H Q e R v SF m)"

definition compiles :: "'w host \<Rightarrow> nat \<Rightarrow> ctx \<times> string \<Rightarrow> sty option \<Rightarrow> senvt \<Rightarrow> nat \<Rightarrow> cg \<Rightarrow>
    (llvalue option \<times> cg) option \<Rightarrow> senvt \<Rightarrow> (senv \<Rightarrow> outcome option) \<Rightarrow> bool" where
  "compiles H e F R \<Gamma> b st res \<Gamma>' X \<longleftrightarrow> (\<exists>v b' st'. res = Some (v, st') \<and> ready e F R \<Gamma>' b' st' \<and> grown e st st' \<and>
     kept (nextId st) b st st' \<and> (b' = b \<or> nextId st \<le> b') \<and> scope_ext \<Gamma> st \<Gamma>' st' \<and>
     error st' = error st \<and> (justReturned st' \<longrightarrow> justReturned st \<or> (\<forall>\<rho> \<rho>'. X \<rho> \<noteq> Some (Normal \<rho>'))) \<and>
     (\<forall>(Q :: cg) \<rho> out SF m. grown e st' Q \<longrightarrow> X \<rho> = Some out \<longrightarrow> stands Q e b st \<Gamma> \<rho> SF m \<longrightarrow> runs H Q e R b' st' \<Gamma>' out SF m))"

lemma runs_moves:
  assumes "moves H Q e (SF, m) (SF', m')" and "runs H Q e R b st \<Gamma> out SF' m'"
  shows "runs H Q e R b st \<Gamma> out SF m"
proof (cases out)
  case (Normal \<rho>)
  then show ?thesis using assms moves_trans unfolding runs_def by fastforce
next
  case (Returned v)
  then have "returns H Q e R v SF' m'" using assms(2) by (simp add: runs_def)
  then have "returns H Q e R v SF m" unfolding returns_def using moves_trans [OF assms(1)] by blast
  then show ?thesis using Returned by (simp add: runs_def)
qed

text \<open>Sequences.\<close>

lemma compiles_then:
  assumes first: "compiles H e F R \<Gamma> b st res \<Gamma>' X"
    and rest: "\<And>v b' st'. ready e F R \<Gamma>' b' st' \<Longrightarrow> compiles H e F R \<Gamma>' b' st' (k v st') \<Gamma>'' Y"
  shows "compiles H e F R \<Gamma> b st (do { (v, st') \<leftarrow> res; k v st' }) \<Gamma>''
    (\<lambda>\<rho>. do { out \<leftarrow> X \<rho>; (case out of Normal \<rho>' \<Rightarrow> Y \<rho>' | Returned v \<Rightarrow> Some (Returned v)) })"
proof -
  let ?Z = "\<lambda>\<rho>. do { out \<leftarrow> X \<rho>; (case out of Normal \<rho>' \<Rightarrow> Y \<rho>' | Returned v \<Rightarrow> Some (Returned v)) }"
  from first obtain v b' st' where 1: "res = Some (v, st')" "ready e F R \<Gamma>' b' st'" "grown e st st'" "error st' = error st"
      "justReturned st' \<longrightarrow> justReturned st \<or> (\<forall>\<rho> \<rho>'. X \<rho> \<noteq> Some (Normal \<rho>'))"
      "kept (nextId st) b st st'" "b' = b \<or> nextId st \<le> b'" "scope_ext \<Gamma> st \<Gamma>' st'"
      "\<And>(Q :: cg) \<rho> out SF m. grown e st' Q \<Longrightarrow> X \<rho> = Some out \<Longrightarrow> stands Q e b st \<Gamma> \<rho> SF m \<Longrightarrow> runs H Q e R b' st' \<Gamma>' out SF m"
    unfolding compiles_def by blast
  from rest [OF 1(2), of v] obtain w c st'' where 2: "k v st' = Some (w, st'')" "ready e F R \<Gamma>'' c st''" "grown e st' st''" "error st'' = error st'"
      "justReturned st'' \<longrightarrow> justReturned st' \<or> (\<forall>\<rho> \<rho>'. Y \<rho> \<noteq> Some (Normal \<rho>'))"
      "kept (nextId st') b' st' st''" "c = b' \<or> nextId st' \<le> c" "scope_ext \<Gamma>' st' \<Gamma>'' st''"
      "\<And>(Q :: cg) \<rho> out SF m. grown e st'' Q \<Longrightarrow> Y \<rho> = Some out \<Longrightarrow> stands Q e b' st' \<Gamma>' \<rho> SF m \<Longrightarrow> runs H Q e R c st'' \<Gamma>'' out SF m"
    unfolding compiles_def by blast
  have "justReturned st'' \<longrightarrow> justReturned st \<or> (\<forall>\<rho> \<rho>'. ?Z \<rho> \<noteq> Some (Normal \<rho>'))"
    using 1(5) 2(5) by (auto simp: Option.bind_eq_Some_conv split: outcome.splits)
  moreover have "runs H Q e R c st'' \<Gamma>'' out SF m"
    if Q: "grown e st'' Q" and out: "?Z \<rho> = Some out" and at: "stands Q e b st \<Gamma> \<rho> SF m" for Q :: cg and \<rho> out SF m
  proof -
    from out obtain o1 where o1: "X \<rho> = Some o1" "(case o1 of Normal \<rho>' \<Rightarrow> Y \<rho>' | Returned v \<Rightarrow> Some (Returned v)) = Some out"
      by (auto simp: Option.bind_eq_Some_conv)
    have r1: "runs H Q e R b' st' \<Gamma>' o1 SF m" using 1(9) [OF grown_trans [OF 2(3) Q] o1(1) at] .
    show ?thesis
    proof (cases o1)
      case (Normal \<rho>')
      then obtain SF' m' where s: "moves H Q e (SF, m) (SF', m')" "stands Q e b' st' \<Gamma>' \<rho>' SF' m'" using r1 by (auto simp: runs_def)
      then show ?thesis using runs_moves [OF s(1) 2(9) [OF Q _ s(2)]] o1(2) Normal by simp
    next
      case (Returned v)
      then show ?thesis using r1 o1(2) by (auto simp: runs_def)
    qed
  qed
  moreover have "nextId st \<le> nextId st'" using 1(3) by (simp add: grown_def)
  then have "kept (nextId st) b st st''" "c = b \<or> nextId st \<le> c"
    using kept_trans [OF 1(6) kept_later [OF 2(6)]] 1(7) 2(7) by auto
  ultimately show ?thesis
    unfolding compiles_def using 1(1,4) 2(1,2,4) grown_trans [OF 1(3) 2(3)] scope_ext_trans [OF 1(8) 2(8)] by auto
qed

lemma compilesI:
  assumes "res = Some (v, st')" and "ready e F R \<Gamma>' b' st'" and "grown e st st'"
    and "kept (nextId st) b st st'" and "b' = b \<or> nextId st \<le> b'" and "scope_ext \<Gamma> st \<Gamma>' st'" and "error st' = error st"
    and "justReturned st' \<Longrightarrow> justReturned st \<or> (\<forall>\<rho> \<rho>'. X \<rho> \<noteq> Some (Normal \<rho>'))"
    and "\<And>(Q :: cg) \<rho> out SF m. grown e st' Q \<Longrightarrow> X \<rho> = Some out \<Longrightarrow> stands Q e b st \<Gamma> \<rho> SF m \<Longrightarrow> runs H Q e R b' st' \<Gamma>' out SF m"
  shows "compiles H e F R \<Gamma> b st res \<Gamma>' X"
  unfolding compiles_def using assms by blast

lemma expression_compiles:
  assumes ready: "ready e F R \<Gamma> b st" and ty: "typeof \<Gamma> ex = Some s"
  shows "compiles H e F R \<Gamma> b st (visitExpressionStatement (visitExpr ex) st) \<Gamma> (\<lambda>\<rho>. do { v \<leftarrow> eval H \<rho> ex; Some (Normal \<rho>) })"
proof -
  have "assignable s s" by (simp add: assignable_def)
  from value_code [OF ready ty this, of H] obtain r Is where r: "visitExpr ex st = Some (Some r, extend b Is st)"
      "numbered (nextId st) Is"
      "\<And>(Q :: cg) \<rho> SF m x. grown e (extend b Is st) Q \<Longrightarrow> stands Q e b st \<Gamma> \<rho> SF m \<Longrightarrow> eval H \<rho> ex = Some x \<Longrightarrow>
        \<exists>SF'. moves H Q e (SF, m) (SF', m) \<and> stands Q e b (extend b Is st) \<Gamma> \<rho> SF' m"
    by metis
  show ?thesis
  proof (rule compilesI)
    show "visitExpressionStatement (visitExpr ex) st = Some (Some r, extend b Is st)"
      using r(1) by (simp add: visitExpressionStatement_def)
    show "ready e F R \<Gamma> b (extend b Is st)" by (rule ready_extend [OF ready r(2)])
    show "grown e st (extend b Is st)" by (rule grown_extend [OF readyD(5) [OF ready] r(2)])
    show "kept (nextId st) b st (extend b Is st)" by (rule kept_extend [OF readyD(5) [OF ready]])
    show "runs H Q e R b (extend b Is st) \<Gamma> out SF m"
      if "grown e (extend b Is st) Q" "do { v \<leftarrow> eval H \<rho> ex; Some (Normal \<rho>) } = Some out" "stands Q e b st \<Gamma> \<rho> SF m" for Q :: cg and \<rho> out SF m
      using r(3) [OF that(1,3)] that(2) by (fastforce simp: runs_def Option.bind_eq_Some_conv)
  qed simp_all
qed

lemma ready_variable:
  assumes "ready e F R \<Gamma> b st" and "\<Gamma> x = Some t"
  obtains i where "map_of (namedValues st) x = Some (Some (variable MainCtx x t i))"
  using declaresE [OF readyD(7) [OF assms(1)] assms(2)] readyD(1) [OF assms(1)] by metis

lemma lhs_coerce:
  assumes "map_of (namedValues st) x = Some (Some (variable MainCtx x t i))" and "\<not> recon st"
    and "getType r = lty MainCtx s" and "assignable t s"
  shows "lhs_visitIdentifier x (Some r) st = do { (d, st) \<leftarrow> coerce (lty MainCtx t) r st; storeResult (Some d) (variable MainCtx x t i) st }"
  using assms by (cases t; cases s) (auto simp: lhs_visitIdentifier_def namedValue_def coerce_def assignable_def)

lemma assignment_compiles:
  assumes ready: "ready e F R \<Gamma> b st" and ty: "\<Gamma> x = Some t" "typeof \<Gamma> ex = Some s" "assignable t s"
  shows "compiles H e F R \<Gamma> b st (visitAssignStatement (Identifier x) (visitExpr ex) st) \<Gamma>
    (\<lambda>\<rho>. do { v \<leftarrow> eval H \<rho> ex; Some (Normal (\<rho>(x \<mapsto> conv H t v))) })"
proof -
  note st = readyD [OF ready]
  obtain i where i: "map_of (namedValues st) x = Some (Some (variable MainCtx x t i))" using ready_variable [OF ready ty(1)] .
  from value_code [OF ready ty(2,3), of H] obtain r st1 v Is where v: "visitExpr ex st = Some (Some r, st1)" "getType r = lty MainCtx s"
      "coerce (lty MainCtx t) r st1 = Some (v, extend b Is st)" "recon st1 = recon st" "namedValues st1 = namedValues st"
      "getType v = lty MainCtx t" "numbered (nextId st) Is"
      "\<And>(Q :: cg) \<rho> SF m x. grown e (extend b Is st) Q \<Longrightarrow> stands Q e b st \<Gamma> \<rho> SF m \<Longrightarrow> eval H \<rho> ex = Some x \<Longrightarrow>
        \<exists>SF'. moves H Q e (SF, m) (SF', m) \<and> stands Q e b (extend b Is st) \<Gamma> \<rho> SF' m \<and> holds v t (conv H t x) SF'"
    by metis
  let ?st1 = "extend b Is st"
  let ?I = "store_inst ?st1 v (variable MainCtx x t i)"
  let ?st2 = "extend b [?I] ?st1"
  have r1: "ready e F R \<Gamma> b ?st1" by (rule ready_extend [OF ready v(7)])
  have num: "numbered (nextId ?st1) [?I]" by (simp add: numbered_def)
  show ?thesis
  proof (rule compilesI)
    show "visitAssignStatement (Identifier x) (visitExpr ex) st = Some (Some v, ?st2)"
      using v(1,3,4) lhs_coerce [of st1 x t i r s] i v(2,5) ty(3) st(13) CreateStore_variable [OF r1 v(6)] st(1)
      by (simp add: visitAssignStatement_def storeResult_def)
    show "ready e F R \<Gamma> b ?st2" by (rule ready_extend [OF r1 num])
    show "grown e st ?st2"
      using grown_trans [OF grown_extend [OF st(5) v(7)] grown_extend [OF readyD(5) [OF r1] num]] .
    show "kept (nextId st) b st ?st2"
      using kept_trans [OF kept_extend [OF st(5)] kept_extend [OF readyD(5) [OF r1]]] .
    show "runs H Q e R b ?st2 \<Gamma> out SF m"
      if Q: "grown e ?st2 Q" and out: "do { v \<leftarrow> eval H \<rho> ex; Some (Normal (\<rho>(x \<mapsto> conv H t v))) } = Some out" and at: "stands Q e b st \<Gamma> \<rho> SF m"
      for Q :: cg and \<rho> out SF m
    proof -
      obtain y where y: "eval H \<rho> ex = Some y" "out = Normal (\<rho>(x \<mapsto> conv H t y))" using out by (auto simp: Option.bind_eq_Some_conv)
      have "grown e ?st1 Q" using grown_trans [OF grown_extend [OF readyD(5) [OF r1] num] Q] .
      from v(8) [OF this at y(1)] obtain SF' where 1: "moves H Q e (SF, m) (SF', m)" "stands Q e b ?st1 \<Gamma> \<rho> SF' m" "holds v t (conv H t y) SF'"
        by blast
      from store_moves [OF r1 v(6) ty(1) _ Q 1(2,3), of H] i obtain SF'' m' where "moves H Q e (SF', m) (SF'', m')"
          "stands Q e b ?st2 \<Gamma> (\<rho>(x \<mapsto> conv H t y)) SF'' m'"
        by (metis extend_fields(3))
      then show ?thesis using moves_trans [OF 1(1)] y(2) by (auto simp: runs_def)
    qed
  qed simp_all
qed

subsection \<open>Definitions\<close>

text \<open>A new stack variable at the start of the entry block, bound to its name.\<close>

definition new_variable :: "nat \<Rightarrow> string \<Rightarrow> sty \<Rightarrow> cg \<Rightarrow> cg" where
  "new_variable e x t st = st\<lparr>nextId := Suc (nextId st),
     bbs := (bbs st)(e := map_option (\<lambda>bb. bb\<lparr>bb_insts := variable MainCtx x t (nextId st) # bb_insts bb\<rparr>) (bbs st e)),
     namedValues := um_insert x (Some (variable MainCtx x t (nextId st))) (namedValues st)\<rparr>"

lemma new_variable_fields [simp]:
  "nextId (new_variable e x t st) = Suc (nextId st)" "insertPt (new_variable e x t st) = insertPt st"
  "insideLambda (new_variable e x t st) = insideLambda st" "executeCommit (new_variable e x t st) = executeCommit st"
  "recon (new_variable e x t st) = recon st" "error (new_variable e x t st) = error st"
  "justReturned (new_variable e x t st) = justReturned st"
  "getFunction c f (new_variable e x t st) = getFunction c f st" "getBuilder (new_variable e x t st) = getBuilder st"
  "insert_function c (new_variable e x t st) = insert_function c st"
  "bbs (new_variable e x t st) b = None \<longleftrightarrow> bbs st b = None"
  by (auto simp: new_variable_def getFunction_def getBuilder_def insert_function_def split: Option.bind_splits)

lemma function_names_new_variable [simp]: "function_names (new_variable e x t st) = function_names st"
  by (rule function_names_cong) (simp add: new_variable_def)

lemma insts_new_variable:
  "bbs st e \<noteq> None \<Longrightarrow> insts (new_variable e x t st) b = (if b = e then variable MainCtx x t (nextId st) # insts st b else insts st b)"
  by (auto simp: new_variable_def insts_def)

lemma variable_eq [simp]: "variable c x t i = variable c y s j \<longleftrightarrow> x = y \<and> t = s \<and> i = j"
  by (cases t; cases s) (auto simp: variable_def)

lemma createAlloca_variable:
  assumes "ready e F R \<Gamma> b st"
  shows "do { (a, st) \<leftarrow> createAlloca F (lty MainCtx t) x st; k a (st\<lparr>namedValues := um_insert x (Some a) (namedValues st)\<rparr>) } =
    k (variable MainCtx x t (nextId st)) (new_variable e x t st)"
proof -
  have "\<not> isVoidTy (lty MainCtx t)" by (cases t) simp_all
  then show ?thesis using readyD(10) [OF assms]
    by (auto simp: in_function_def createAlloca_def CreateAlloca_def InsertEntry_def check_def new_variable_def variable_def Let_def)
qed

lemma grown_new_variable: "bbs st e \<noteq> None \<Longrightarrow> grown e st (new_variable e x t st)"
proof -
  assume e: "bbs st e \<noteq> None"
  have "\<exists>As Js. insts (new_variable e x t st) b = As @ insts st b @ Js \<and> added (nextId st) (Suc (nextId st)) As \<and>
      (\<forall>I \<in> set Js. \<not> is_alloca I) \<and> (b \<noteq> e \<longrightarrow> As = [])" for b
    using e by (intro exI [of _ "if b = e then [variable MainCtx x t (nextId st)] else []"] exI [of _ "[]"]) (auto simp: insts_new_variable added_def)
  then show ?thesis by (simp add: grown_def)
qed

lemma kept_new_variable: "bbs st e \<noteq> None \<Longrightarrow> kept n b st (new_variable e x t st)"
  by (simp add: kept_def insts_new_variable)

lemma position_new_variable: "bbs st e \<noteq> None \<Longrightarrow> position Q (new_variable e x t st) b = position Q st b"
  by (simp add: position_def insts_new_variable)

lemma namedValues_new_variable [simp]:
  "map_of (namedValues st) x = None \<Longrightarrow> map_of (namedValues (new_variable e x t st)) y =
     (if y = x then Some (Some (variable MainCtx x t (nextId st))) else map_of (namedValues st) y)"
  by (simp add: new_variable_def)

lemma ready_new_variable:
  assumes ready: "ready e F R \<Gamma> b st" and x: "\<Gamma> x = None"
  shows "ready e F R (\<Gamma>(x \<mapsto> t)) b (new_variable e x t st)"
proof -
  note st = readyD [OF ready]
  have none: "map_of (namedValues st) x = None" using st(7) x by (simp add: declares_def)
  have old: "i < nextId st" if y: "map_of (namedValues st) y = Some (Some (variable MainCtx y s i))" for y s i
  proof -
    obtain s' where "\<Gamma> y = Some s'" using st(7) y by (cases "\<Gamma> y") (auto simp: declares_def)
    then show ?thesis using declaresE [OF st(7)] y st(1) by force
  qed
  have "in_function e F R b (new_variable e x t st)" using st(10) by (simp add: in_function_def)
  moreover have "fresh (new_variable e x t st)"
    using st(6,8) unfolding fresh_def by (auto simp: insts_new_variable less_SucI)
  moreover have "declares (new_variable e x t st) (\<Gamma>(x \<mapsto> t))"
    unfolding declares_def
  proof (intro conjI allI impI)
    fix y s assume y: "(\<Gamma>(x \<mapsto> t)) y = Some s"
    show "\<exists>i < nextId (new_variable e x t st). map_of (namedValues (new_variable e x t st)) y =
        Some (Some (variable (getBuilder (new_variable e x t st)) y s i))"
    proof (cases "y = x")
      case False
      then obtain i where "i < nextId st" "map_of (namedValues st) y = Some (Some (variable (getBuilder st) y s i))"
        using declaresE [OF st(7), of y s] y by auto
      then show ?thesis using False none by (auto intro!: exI [of _ i])
    qed (use y none st(1) in auto)
  qed (use st(7) none in \<open>auto simp: declares_def split: if_splits\<close>)
  moreover have "\<forall>y s i. (\<Gamma>(x \<mapsto> t)) y = Some s \<longrightarrow> map_of (namedValues (new_variable e x t st)) y = Some (Some (variable MainCtx y s i)) \<longrightarrow>
      variable MainCtx y s i \<in> set (insts (new_variable e x t st) e)"
  proof (intro allI impI)
    fix y s i assume y: "(\<Gamma>(x \<mapsto> t)) y = Some s" "map_of (namedValues (new_variable e x t st)) y = Some (Some (variable MainCtx y s i))"
    show "variable MainCtx y s i \<in> set (insts (new_variable e x t st) e)"
    proof (cases "y = x")
      case False
      then have "variable MainCtx y s i \<in> set (insts st e)" using st(9) y none unfolding scoped_def by simp
      then show ?thesis using st(6) by (simp add: insts_new_variable)
    qed (use y none st(6) in \<open>simp add: insts_new_variable\<close>)
  qed
  moreover have "\<forall>y z s u i. map_of (namedValues (new_variable e x t st)) y = Some (Some (variable MainCtx y s i)) \<longrightarrow>
      map_of (namedValues (new_variable e x t st)) z = Some (Some (variable MainCtx z u i)) \<longrightarrow> y = z"
  proof (intro allI impI)
    fix y z s u i
    assume "map_of (namedValues (new_variable e x t st)) y = Some (Some (variable MainCtx y s i))"
      "map_of (namedValues (new_variable e x t st)) z = Some (Some (variable MainCtx z u i))"
    then show "y = z"
      using st(9) none old [of y s i] old [of z u i] unfolding scoped_def by (cases "y = x"; cases "z = x") auto
  qed
  ultimately show ?thesis unfolding ready_def scoped_def by blast
qed

lemma stands_new_variable:
  assumes ready: "ready e F R \<Gamma> b st" and x: "\<Gamma> x = None" and at: "stands Q e b st \<Gamma> \<rho> SF m"
  shows "stands Q e b (new_variable e x t st) (\<Gamma>(x \<mapsto> t)) (\<rho>(x := None)) SF m"
proof -
  note st = readyD [OF ready]
  have "map_of (namedValues st) x = None" using st(7) x by (simp add: declares_def)
  then show ?thesis using at st(1) by (auto simp: stands_def position_new_variable [OF st(6)] represents_def split: if_splits)
qed

text \<open>The value of a definition, with its code, as for the right-hand side of an assignment.\<close>

lemma definition_code:
  assumes ready: "ready e F R \<Gamma> b st" and ty: "wt_def \<Gamma> (VariableDefinition k x ex False) = Some t"
  obtains v Is where "scalarInitialiser k (map_option visitExpr ex) st = Some (Some v, extend b Is st)"
    and "getType v = lty MainCtx t" and "numbered (nextId st) Is" and "below (nextId st + length Is) v"
    and "\<And>(Q :: cg) \<rho> SF m y. grown e (extend b Is st) Q \<Longrightarrow> stands Q e b st \<Gamma> \<rho> SF m \<Longrightarrow>
      exec_def H \<rho> (VariableDefinition k x ex False) = Some y \<Longrightarrow>
      \<exists>SF'. moves H Q e (SF, m) (SF', m) \<and> stands Q e b (extend b Is st) \<Gamma> \<rho> SF' m \<and> holds v t y SF'"
proof (cases ex)
  case None
  note st = readyD [OF ready]
  have t: "keyword_type k = Some t" using ty None by simp
  define v where "v = (if t = FloatT then ConstantFP (TDouble MainCtx) 0 else ConstantInt (TInt MainCtx 64) 0)"
  have "t = IntT \<and> k = ''int'' \<or> t = FloatT \<and> k = ''float''" using t by (auto simp: keyword_type_def split: if_splits)
  then have "scalarInitialiser k (map_option visitExpr ex) st = Some (Some v, extend b [] st)" "getType v = lty MainCtx t" "below n v"
      "holds v t (zero_val t) SF" for n SF
    using st(2) None by (auto simp: scalarInitialiser_def v_def holds_def zero_val_def getOperandValue_def getConstantValue_def APInt_64)
  then show ?thesis
    by (intro that [of v "[]"]) (use None t in \<open>auto intro!: exI [of _ SF for SF]\<close>)
next
  case (Some ex')
  then obtain s where s: "typeof \<Gamma> ex' = Some s" "defined_type k s = Some t" using ty by (auto simp: Option.bind_eq_Some_conv)
  then obtain t0 where t0: "keyword_type k = Some t0" "t = (if t0 = IntT then s else t0)" "t0 = IntT \<Longrightarrow> s \<noteq> FloatT" "assignable t s"
      "t0 = IntT \<and> k = ''int'' \<or> t0 = FloatT \<and> k = ''float''"
    by (auto simp: defined_type_def keyword_type_def assignable_def Option.bind_eq_Some_conv split: if_splits)
  from value_code [OF ready s(1) t0(4), of H] obtain r st1 v Is where v: "visitExpr ex' st = Some (Some r, st1)" "getType r = lty MainCtx s"
      "coerce (lty MainCtx t) r st1 = Some (v, extend b Is st)" "getType v = lty MainCtx t" "numbered (nextId st) Is" "below (nextId st + length Is) v"
      "\<And>(Q :: cg) \<rho> SF m x. grown e (extend b Is st) Q \<Longrightarrow> stands Q e b st \<Gamma> \<rho> SF m \<Longrightarrow> eval H \<rho> ex' = Some x \<Longrightarrow>
        \<exists>SF'. moves H Q e (SF, m) (SF', m) \<and> stands Q e b (extend b Is st) \<Gamma> \<rho> SF' m \<and> holds v t (conv H t x) SF'"
    by metis
  have init: "scalarInitialiser k (map_option visitExpr ex) st = Some (Some v, extend b Is st)"
    using v(1,2,3) t0(2,3,5) Some by (cases s) (auto simp: scalarInitialiser_def coerce_def someV_def)
  have same: "conv H t0 y = conv H t y" for y using t0(2,3,5) by (cases s; cases y) auto
  show ?thesis
  proof (rule that [OF init v(4,5,6)])
    fix Q :: cg and \<rho> SF m y
    assume Q: "grown e (extend b Is st) Q" "stands Q e b st \<Gamma> \<rho> SF m" and "exec_def H \<rho> (VariableDefinition k x ex False) = Some y"
    then obtain y' where "eval H \<rho> ex' = Some y'" "y = conv H t y'"
      using Some t0(1) same by (auto simp: Option.bind_eq_Some_conv)
    then show "\<exists>SF'. moves H Q e (SF, m) (SF', m) \<and> stands Q e b (extend b Is st) \<Gamma> \<rho> SF' m \<and> holds v t y SF'"
      using v(7) [OF Q] by simp
  qed
qed

lemma definition_compiles:
  assumes ready: "ready e F R \<Gamma> b st" and ty: "wt_def \<Gamma> (VariableDefinition k x ex False) = Some t" "\<Gamma> x = None"
  shows "compiles H e F R \<Gamma> b st (visitVariableDefinition k x (map_option visitExpr ex) False st) (\<Gamma>(x \<mapsto> t))
    (\<lambda>\<rho>. do { v \<leftarrow> exec_def H \<rho> (VariableDefinition k x ex False); Some (Normal (\<rho>(x \<mapsto> v))) })"
proof -
  note st = readyD [OF ready]
  from definition_code [OF ready ty(1), of H] obtain v Is where v: "scalarInitialiser k (map_option visitExpr ex) st = Some (Some v, extend b Is st)"
      "getType v = lty MainCtx t" "numbered (nextId st) Is"
      "\<And>(Q :: cg) \<rho> SF m y. grown e (extend b Is st) Q \<Longrightarrow> stands Q e b st \<Gamma> \<rho> SF m \<Longrightarrow>
        exec_def H \<rho> (VariableDefinition k x ex False) = Some y \<Longrightarrow>
        \<exists>SF'. moves H Q e (SF, m) (SF', m) \<and> stands Q e b (extend b Is st) \<Gamma> \<rho> SF' m \<and> holds v t y SF'"
    by metis
  let ?st1 = "extend b Is st"
  let ?st2 = "new_variable e x t ?st1"
  let ?I = "store_inst ?st2 v (variable MainCtx x t (nextId ?st1))"
  let ?st3 = "extend b [?I] ?st2"
  have r1: "ready e F R \<Gamma> b ?st1" by (rule ready_extend [OF ready v(3)])
  have r2: "ready e F R (\<Gamma>(x \<mapsto> t)) b ?st2" by (rule ready_new_variable [OF r1 ty(2)])
  have num: "numbered (nextId ?st2) [?I]" by (simp add: numbered_def)
  have g23: "grown e ?st2 ?st3" by (rule grown_extend [OF readyD(5) [OF r2] num])
  have g13: "grown e ?st1 ?st3" using grown_trans [OF grown_new_variable [OF readyD(6) [OF r1]] g23] .
  have none: "map_of (namedValues st) x = None" using st(7) ty(2) by (simp add: declares_def)
  have visit: "visitVariableDefinition k x (map_option visitExpr ex) False st = Some (Some v, ?st3)"
    using v(1,2) none st(1,14) createAlloca_variable [OF r1, of t x "\<lambda>a st. do { (_, st) \<leftarrow> CreateStore (getBuilder st) v a st; Some (Some v, st) }"]
      CreateStore_variable [OF r2 v(2), of x "nextId ?st1"] readyD(1) [OF r2]
    by (simp add: visitVariableDefinition_def Let_def)
  show ?thesis
  proof (rule compilesI [OF visit])
    show "ready e F R (\<Gamma>(x \<mapsto> t)) b ?st3" by (rule ready_extend [OF r2 num])
    show "grown e st ?st3" using grown_trans [OF grown_extend [OF st(5) v(3)] g13] .
    show "kept (nextId st) b st ?st3"
      using kept_trans [OF kept_trans [OF kept_extend [OF st(5)] kept_new_variable [OF readyD(6) [OF r1]]] kept_extend [OF readyD(5) [OF r2]]] .
    show "scope_ext \<Gamma> st (\<Gamma>(x \<mapsto> t)) ?st3" using ty(2) none by (simp add: scope_ext_def)
    show "runs H Q e R b ?st3 (\<Gamma>(x \<mapsto> t)) out SF m"
      if Q: "grown e ?st3 Q" and out: "do { v \<leftarrow> exec_def H \<rho> (VariableDefinition k x ex False); Some (Normal (\<rho>(x \<mapsto> v))) } = Some out"
        and at: "stands Q e b st \<Gamma> \<rho> SF m" for Q :: cg and \<rho> out SF m
    proof -
      obtain y where y: "exec_def H \<rho> (VariableDefinition k x ex False) = Some y" "out = Normal (\<rho>(x \<mapsto> y))"
        using out by (auto simp: Option.bind_eq_Some_conv)
      from v(4) [OF grown_trans [OF g13 Q] at y(1)] obtain SF' where 1: "moves H Q e (SF, m) (SF', m)" "stands Q e b ?st1 \<Gamma> \<rho> SF' m" "holds v t y SF'"
        by blast
      have 2: "stands Q e b ?st2 (\<Gamma>(x \<mapsto> t)) (\<rho>(x := None)) SF' m" by (rule stands_new_variable [OF r1 ty(2) 1(2)])
      have x: "(\<Gamma>(x \<mapsto> t)) x = Some t" "map_of (namedValues ?st2) x = Some (Some (variable MainCtx x t (nextId ?st1)))"
        using none by simp_all
      from store_moves [OF r2 v(2) x Q 2 1(3), of H] obtain SF'' m' where "moves H Q e (SF', m) (SF'', m')"
          "stands Q e b ?st3 (\<Gamma>(x \<mapsto> t)) (\<rho>(x \<mapsto> y)) SF'' m'"
        by (metis fun_upd_upd)
      then show ?thesis using moves_trans [OF 1(1)] y(2) by (auto simp: runs_def)
    qed
  qed simp_all
qed

subsection \<open>Returns\<close>

lemma next_instruction:
  assumes "bbs st b \<noteq> None" and "grown e (extend b [I] st) Q" and "\<not> is_alloca I"
    and "CurBB SF = b" and "CurInst SF = position Q st b"
  obtains bb where "bbs Q (CurBB SF) = Some bb" and "CurInst SF < length (bb_insts bb)" and "bb_insts bb ! CurInst SF = I"
proof -
  have "bbs (extend b [I] st) b \<noteq> None" using assms(1) by simp
  from position_split [OF assms(2) this] obtain As Js where q: "insts Q b = As @ insts (extend b [I] st) b @ Js"
      "length (As @ insts (extend b [I] st) b) = position Q (extend b [I] st) b"
    by metis
  have pos: "length (As @ insts st b) = position Q st b"
    using q(2) assms(1,3) by (simp add: position_def)
  obtain bb where bb: "bbs Q b = Some bb" using assms(1,2) by (auto simp: grown_def)
  then have "bb_insts bb = (As @ insts st b) @ I # Js" using q(1) assms(1) by (simp add: insts_def [of Q])
  then have "CurInst SF < length (bb_insts bb)" "bb_insts bb ! CurInst SF = I"
    using assms(5) pos nth_append_length [of "As @ insts st b" I Js] by (simp_all only:) simp
  then show ?thesis using that bb assms(4) by blast
qed

lemma ready_justReturned [simp]:
  "ready e F R \<Gamma> b (st\<lparr>justReturned := j\<rparr>) = ready e F R \<Gamma> b st"
  "stands Q e b (st\<lparr>justReturned := j\<rparr>) \<Gamma> \<rho> SF m = stands Q e b st \<Gamma> \<rho> SF m"
  "grown e (st\<lparr>justReturned := j\<rparr>) Q = grown e st Q" "grown e P (st\<lparr>justReturned := j\<rparr>) = grown e P st"
  by (simp_all add: ready_def in_function_def scoped_def declares_def stands_def represents_def position_def grown_def fresh_def
      insts_def getBuilder_def getFunction_def insert_function_def)

abbreviation ret_inst :: "cg \<Rightarrow> llvalue option \<Rightarrow> llvalue" where
  "ret_inst st r \<equiv> Inst (nextId st) (TVoid MainCtx) (Ret r)"

lemma ret_compiles:
  assumes ready: "ready e F R \<Gamma> b st" and num: "numbered (nextId st) Is"
    and run: "\<And>(Q :: cg) \<rho> SF m out. grown e (extend b Is st) Q \<Longrightarrow> stands Q e b st \<Gamma> \<rho> SF m \<Longrightarrow> X \<rho> = Some out \<Longrightarrow>
        \<exists>SF' v. moves H Q e (SF, m) (SF', m) \<and> stands Q e b (extend b Is st) \<Gamma> \<rho> SF' m \<and> out = Returned v \<and>
        (case v of None \<Rightarrow> r = None | Some y \<Rightarrow> \<exists>w u. R = Some u \<and> r = Some w \<and> getType w = lty MainCtx u \<and> holds w u y SF')"
    and normal: "\<And>\<rho> \<rho>'. X \<rho> \<noteq> Some (Normal \<rho>')"
    and res: "res = Some (w, extend b [ret_inst (extend b Is st) r] (extend b Is (st\<lparr>justReturned := True\<rparr>)))"
  shows "compiles H e F R \<Gamma> b st res \<Gamma> X"
proof -
  let ?st1 = "extend b Is st" and ?I = "ret_inst (extend b Is st) r"
  let ?st2 = "extend b [?I] ?st1"
  have r1: "ready e F R \<Gamma> b ?st1" by (rule ready_extend [OF ready num])
  have n1: "numbered (nextId ?st1) [?I]" by (simp add: numbered_def)
  have g12: "grown e ?st1 ?st2" by (rule grown_extend [OF readyD(5) [OF r1] n1])
  have j: "extend b [?I] (extend b Is (st\<lparr>justReturned := True\<rparr>)) = ?st2\<lparr>justReturned := True\<rparr>" by (simp add: extend_def)
  have X: "\<exists>SF' v. moves H Q e (SF, m) (SF', m) \<and> stands Q e b ?st1 \<Gamma> \<rho> SF' m \<and> out = Returned v \<and>
        (case v of None \<Rightarrow> r = None | Some y \<Rightarrow> \<exists>w u. R = Some u \<and> r = Some w \<and> getType w = lty MainCtx u \<and> holds w u y SF')"
    if "grown e ?st2 Q" "stands Q e b st \<Gamma> \<rho> SF m" "X \<rho> = Some out" for Q :: cg and \<rho> SF m out
    using run [OF grown_trans [OF g12 that(1)] that(2,3)] .
  show ?thesis
  proof (rule compilesI [OF res [unfolded j]])
    show "ready e F R \<Gamma> b (?st2\<lparr>justReturned := True\<rparr>)" using ready_extend [OF r1 n1] by simp
    show "kept (nextId st) b st (?st2\<lparr>justReturned := True\<rparr>)"
      using kept_trans [OF kept_extend [OF readyD(5) [OF ready]] kept_extend [OF readyD(5) [OF r1]]] by (simp add: kept_def insts_def)
    show "grown e st (?st2\<lparr>justReturned := True\<rparr>)" using grown_trans [OF grown_extend [OF readyD(5) [OF ready] num] g12] by simp
    show "runs H Q e R b (?st2\<lparr>justReturned := True\<rparr>) \<Gamma> out SF m"
      if Q: "grown e (?st2\<lparr>justReturned := True\<rparr>) Q" and out: "X \<rho> = Some out" and at: "stands Q e b st \<Gamma> \<rho> SF m" for Q :: cg and \<rho> out SF m
    proof -
      have Q2: "grown e ?st2 Q" using Q by simp
      from X [OF Q2 at out] obtain SF' v where v: "moves H Q e (SF, m) (SF', m)" "stands Q e b ?st1 \<Gamma> \<rho> SF' m" "out = Returned v"
          "case v of None \<Rightarrow> r = None | Some y \<Rightarrow> \<exists>w u. R = Some u \<and> r = Some w \<and> getType w = lty MainCtx u \<and> holds w u y SF'"
        by blast
      obtain bb where "bbs Q (CurBB SF') = Some bb" "CurInst SF' < length (bb_insts bb)" "bb_insts bb ! CurInst SF' = ?I"
        using next_instruction [OF readyD(5) [OF r1] Q2, of SF'] v(2) by (auto simp: stands_def)
      then have "returns H Q e R v SF m" unfolding returns_def using v(1,4) by blast
      then show ?thesis using v(3) by (simp add: runs_def)
    qed
  qed (simp_all add: normal scope_ext_def getBuilder_def)
qed

lemma extend_justReturned: "extend b Is (st\<lparr>justReturned := j\<rparr>) = (extend b Is st)\<lparr>justReturned := j\<rparr>"
  by (simp add: extend_def)

lemma ready_function:
  assumes "ready e F R \<Gamma> b st"
  obtains g bs where "getFunction (fst F) (snd F) st = Some g" and "fn_blocks g = e # bs" and "fn_ret g = ret_ty R"
  using readyD(10) [OF assms] unfolding in_function_def by blast

lemma returnValue_coerce:
  assumes "getType r = lty MainCtx s" and "assignable u s" and "coerce (lty MainCtx u) r st = Some (v, st')"
  shows "returnValue (lty MainCtx u) r st = Some (Some r, snd (CreateRet (getBuilder st') (Some v) st'))"
  using assms by (cases s; cases u) (auto simp: returnValue_def coerce_def assignable_def split: prod.splits)

lemma CreateRet_extend:
  "insertPt st MainCtx = Some b \<Longrightarrow> snd (CreateRet MainCtx r st) = extend b [ret_inst st r] st"
  by (simp add: CreateRet_def Insert_extend)

lemma return_compiles:
  assumes ready: "ready e F (Some u) \<Gamma> b st" and ty: "typeof \<Gamma> ex = Some s" "assignable u s"
  shows "compiles H e F (Some u) \<Gamma> b st (visitReturnStatement (Some (visitExpr ex)) st) \<Gamma>
    (\<lambda>\<rho>. do { v \<leftarrow> eval H \<rho> ex; Some (Returned (Some (conv H u v))) })"
proof -
  let ?st = "st\<lparr>justReturned := True\<rparr>"
  have r: "ready e F (Some u) \<Gamma> b ?st" using ready by simp
  note st = readyD [OF r]
  from value_code [OF r ty, of H] obtain r' st1 v Is where v: "visitExpr ex ?st = Some (Some r', st1)" "getType r' = lty MainCtx s"
      "coerce (lty MainCtx u) r' st1 = Some (v, extend b Is ?st)" "getType v = lty MainCtx u" "numbered (nextId ?st) Is"
      "\<And>(Q :: cg) \<rho> SF m x. grown e (extend b Is ?st) Q \<Longrightarrow> stands Q e b ?st \<Gamma> \<rho> SF m \<Longrightarrow> eval H \<rho> ex = Some x \<Longrightarrow>
        \<exists>SF'. moves H Q e (SF, m) (SF', m) \<and> stands Q e b (extend b Is ?st) \<Gamma> \<rho> SF' m \<and> holds v u (conv H u x) SF'" "modules st1 = modules ?st"
    by metis
  obtain g where g: "getFunction (fst F) (snd F) ?st = Some g" "fn_ret g = lty MainCtx u"
    using ready_function [OF r] by (metis ret_ty.simps(2))
  have mods: "getFunction (fst F) (snd F) st1 = getFunction (fst F) (snd F) ?st"
    using v(7) by (simp add: getFunction_def)
  have "visitReturnStatement (Some (visitExpr ex)) st = returnValue (lty MainCtx u) r' st1"
    using v(1) g mods readyD(1,14) [OF ready] by (cases F) (simp add: visitReturnStatement_def)
  also have "\<dots> = Some (Some r', extend b [ret_inst (extend b Is ?st) (Some v)] (extend b Is ?st))"
    using returnValue_coerce [OF v(2) ty(2) v(3)] CreateRet_extend [of "extend b Is ?st" b] st(1,4) by simp
  finally show ?thesis
    by (intro ret_compiles [OF ready, of Is _ H "Some v"])
      (use v(4,5,6) in \<open>auto simp: extend_justReturned Option.bind_eq_Some_conv\<close>)
qed

lemma return_void_compiles:
  assumes ready: "ready e F None \<Gamma> b st"
  shows "compiles H e F None \<Gamma> b st (visitReturnStatement None st) \<Gamma> (\<lambda>\<rho>. Some (Returned None))"
proof -
  let ?st = "st\<lparr>justReturned := True\<rparr>"
  have r: "ready e F None \<Gamma> b ?st" using ready by simp
  obtain g where g: "getFunction (fst F) (snd F) ?st = Some g" "fn_ret g = TVoid MainCtx"
    using ready_function [OF r] by (metis ret_ty.simps(1))
  have "visitReturnStatement None st = Some (Some (ret_inst ?st None), extend b [ret_inst ?st None] ?st)"
    using g readyD(1,14) [OF ready] readyD(1,4) [OF r]
    by (cases F) (simp add: visitReturnStatement_def CreateRet_def Insert_extend)
  then have "visitReturnStatement None st = Some (Some (ret_inst ?st None),
      extend b [ret_inst (extend b [] st) None] (extend b [] (st\<lparr>justReturned := True\<rparr>)))"
    by simp
  then show ?thesis
  proof (rule ret_compiles [OF ready numbered_Nil, rotated 2])
    fix Q :: cg and \<rho> SF m out
    assume "stands Q e b st \<Gamma> \<rho> SF m" "Some (Returned None) = Some out"
    then show "\<exists>SF' v. moves H Q e (SF, m) (SF', m) \<and> stands Q e b (extend b [] st) \<Gamma> \<rho> SF' m \<and> out = Returned v \<and>
        (case v of None \<Rightarrow> None = None | Some y \<Rightarrow> \<exists>w u. None = Some u \<and> None = Some w \<and> getType w = lty MainCtx u \<and> holds w u y SF')"
      by (intro exI [of _ SF] exI [of _ None]) simp
  qed simp
qed

end
