(* ===== verification/CG_Invariant.thy ===== *)
theory CG_Invariant
  imports CG_Block
begin

section \<open>Invariants of the code generator\<close>

text \<open>
  What the visitors preserve is proved once for an arbitrary predicate on the code generator's
  state. The locales state the contract of such a predicate: it is kept by the primitive updates
  of the state that expressions make (\<open>expr_inv\<close>), that statements make (\<open>stmt_inv\<close>) and that
  blocks make (\<open>block_inv\<close>). A concrete invariant is an interpretation.
\<close>

subsection \<open>Well-typed instructions\<close>

text \<open>
  What LLVM's verifier asks of the instructions the compiler uses, as far as it can be said
  without the functions: operands and results have the types the instruction needs.
\<close>

fun instr_wt :: "lltype \<Rightarrow> instr \<Rightarrow> bool" where
  "instr_wt t (Alloca t' n) \<longleftrightarrow> t = TPtr t' \<and> \<not> isVoidTy t'"
| "instr_wt t (Load p) \<longleftrightarrow> getType p = TPtr t"
| "instr_wt t (Store v p) \<longleftrightarrow> getType p = TPtr (getType v) \<and> isVoidTy t"
| "instr_wt t (BinOp b l r) \<longleftrightarrow> binop_ok b l r \<and> t = getType l"
| "instr_wt t (ICmp p l r) \<longleftrightarrow> getType l = getType r \<and>
     (isIntegerTy (getType l) \<or> isPointerTy (getType l)) \<and> t = int1Ty (typeContext (getType l))"
| "instr_wt t (FCmp p l r) \<longleftrightarrow> getType l = getType r \<and> isDoubleTy (getType l) \<and>
     t = int1Ty (typeContext (getType l))"
| "instr_wt t (Cast op v t') \<longleftrightarrow> t = t' \<and> castIsValid op (getType v) t'"
| "instr_wt t (GEP p i) \<longleftrightarrow> isPointerTy t \<and> getType p = t"
| "instr_wt t (StructGEP p i) \<longleftrightarrow> isPointerTy t \<and> (\<exists>c k. getType p = TPtr (TStruct c k))"
| "instr_wt t (Call f args) \<longleftrightarrow> True"
| "instr_wt t (Ret v) \<longleftrightarrow> isVoidTy t"
| "instr_wt t (Br b) \<longleftrightarrow> isVoidTy t"
| "instr_wt t (CondBr v b b') \<longleftrightarrow> isVoidTy t \<and> isIntegerTy (getType v) \<and>
     getPrimitiveSizeInBits (getType v) = 1"

lemma getContainedType_Some [simp]: "getContainedType t = Some u \<longleftrightarrow> t = TPtr u"
  by (cases t) auto

text \<open>Resolving type names changes no more than the error state.\<close>

definition same_modules :: "cg \<Rightarrow> cg \<Rightarrow> bool" where
  "same_modules st st' \<longleftrightarrow> modules st' = modules st \<and> insideLambda st' = insideLambda st"

lemma outs_getTypeFromString_modules:
  "same_modules st0 st \<Longrightarrow> outs (same_modules st0) (getTypeFromString n p v st)"
  by (auto simp: getTypeFromString_def ErrorV_def same_modules_def split: option.splits)

lemma outs_argTypes_modules:
  "same_modules st0 st \<Longrightarrow> outs (same_modules st0) (argTypes as st)"
proof (induction as arbitrary: st)
  case (Cons a as)
  show ?case
    unfolding argTypes.simps
    by (intro outs_bind outs_getTypeFromString_modules outs_case_option outs_SomeI Cons)
      (simp_all add: ErrorV_def same_modules_def)
qed simp

lemma getFunction_same: "same_modules st0 st \<Longrightarrow> getFunction (getModule st) n st = getFunction (getModule st0) n st0"
  by (simp add: same_modules_def getFunction_def getModule_def)

lemma same_modules_refl [simp]: "same_modules st st"
  by (simp add: same_modules_def)

lemma outs_conj: "outs P m \<Longrightarrow> outs Q m \<Longrightarrow> outs (\<lambda>s. P s \<and> Q s) m"
  by (simp add: outs_def)

lemma outs_weaken: "outs P m \<Longrightarrow> (\<And>s. P s \<Longrightarrow> Q s) \<Longrightarrow> outs Q m"
  by (simp add: outs_def)

lemma outs_bind_from:
  assumes "outs R m" and "\<And>a s. R s \<Longrightarrow> outs P (f a s)"
  shows "outs P (Option.bind m (\<lambda>(a, s). f a s))"
  using assms by (cases m) (auto simp: outs_def)

subsection \<open>Expressions\<close>

locale expr_inv =
  fixes P :: "cg \<Rightarrow> bool"
  assumes P_Insert: "P st \<Longrightarrow> instr_wt t i \<Longrightarrow> P (snd (Insert c t i st))"
    and P_error: "P st \<Longrightarrow> P (st\<lparr>error := True, errLog := errLog st @ [msg]\<rparr>)"
    and P_null: "P st \<Longrightarrow> P (st\<lparr>namedValues := um_insert n None (namedValues st)\<rparr>)"
    and P_outLog: "P st \<Longrightarrow> P (st\<lparr>outLog := outLog st @ [msg]\<rparr>)"
    and P_declare: "P st \<Longrightarrow> getFunction c n st = None \<Longrightarrow>
          P (st\<lparr>modules := (modules st)(c := modules st c @ [(n, \<lparr>fn_ret = ret, fn_args = fargs, fn_blocks = []\<rparr>)])\<rparr>)"
begin

lemma P_namedValue: "P st \<Longrightarrow> P (snd (namedValue n st))"
  by (simp add: namedValue_def P_null split: option.split)

lemma outs_ErrorV: "P st \<Longrightarrow> outs P (ErrorV msg st)"
  by (simp add: ErrorV_def P_error)

lemma outs_someV: "outs P m \<Longrightarrow> outs P (someV m)"
  by (simp add: someV_def outs_map_option)

lemma outs_Insert: "P st \<Longrightarrow> instr_wt t i \<Longrightarrow> outs P (Some (Insert c t i st))"
  by (intro outs_Some_pair P_Insert)

lemma outs_Function_Create:
  "P st \<Longrightarrow> getFunction c n st = None \<Longrightarrow> outs P (Function_Create c n ret as st)"
  by (auto simp: Function_Create_def Let_def intro!: outs_bind_check P_declare)

lemma outs_CreateBinOp: "P st \<Longrightarrow> outs P (CreateBinOp c b l r st)"
  unfolding CreateBinOp_def by (intro outs_bind_check outs_Insert) simp_all

lemma outs_CreateCast: "P st \<Longrightarrow> outs P (CreateCast c op v t st)"
  unfolding CreateCast_def by (intro outs_if outs_bind_check outs_Insert outs_SomeI) simp_all

lemma outs_CreateICmp: "P st \<Longrightarrow> outs P (CreateICmp c p l r st)"
  unfolding CreateICmp_def by (intro outs_bind_check outs_Insert) simp_all

lemma outs_CreateFCmp: "P st \<Longrightarrow> outs P (CreateFCmp c p l r st)"
  unfolding CreateFCmp_def by (intro outs_bind_check outs_Insert) simp_all

lemma outs_CreateLoad: "P st \<Longrightarrow> outs P (CreateLoad c p st)"
  unfolding CreateLoad_def by (intro outs_bind_value outs_Insert) simp_all

lemma outs_CreateStore: "P st \<Longrightarrow> outs P (CreateStore c v p st)"
  unfolding CreateStore_def by (intro outs_bind_check outs_Insert) simp_all

lemma outs_CreateGEP: "P st \<Longrightarrow> outs P (CreateGEP c p i st)"
  unfolding CreateGEP_def by (intro outs_bind_value outs_bind_check outs_Insert) simp_all

lemma outs_CreateStructGEP: "P st \<Longrightarrow> outs P (CreateStructGEP c t p i st)"
  unfolding CreateStructGEP_def
  by (intro outs_bind_value outs_bind_check outs_Insert) (auto split: lltype.splits)

lemma outs_CreateCall: "P st \<Longrightarrow> outs P (CreateCall c n f as st)"
  unfolding CreateCall_def by (intro outs_bind_check outs_Insert) simp_all

lemma outs_CreateAnd: "P st \<Longrightarrow> outs P (CreateAnd c l r st)"
  unfolding CreateAnd_def by (intro outs_if outs_SomeI outs_CreateBinOp)

lemma outs_CreateOr: "P st \<Longrightarrow> outs P (CreateOr c l r st)"
  unfolding CreateOr_def by (intro outs_if outs_SomeI outs_CreateBinOp)

lemma outs_CreateNot: "P st \<Longrightarrow> outs P (CreateNot c v st)"
  unfolding CreateNot_def by (rule outs_CreateBinOp)

lemma outs_CreateZExtOrBitCast: "P st \<Longrightarrow> outs P (CreateZExtOrBitCast c v t st)"
  unfolding CreateZExtOrBitCast_def by (intro outs_if outs_SomeI outs_CreateCast)

lemma outs_CreateBitOrPointerCast: "P st \<Longrightarrow> outs P (CreateBitOrPointerCast c v t st)"
  unfolding CreateBitOrPointerCast_def by (intro outs_if outs_SomeI outs_CreateCast)

lemmas outs_create = outs_CreateBinOp outs_CreateCast outs_CreateICmp outs_CreateFCmp
  outs_CreateLoad outs_CreateStore outs_CreateGEP outs_CreateStructGEP outs_CreateCall
  outs_CreateAnd outs_CreateOr outs_CreateNot outs_CreateZExtOrBitCast outs_CreateBitOrPointerCast

lemma outs_casts:
  assumes "P st"
  shows "outs P (castIntToFloat v st)" "outs P (castIntToBoolean v st)"
    "outs P (castFloatToBoolean v st)" "outs P (castBooleantoInt v st)"
    "outs P (castPointerToInt v st)" "outs P (castIntToPointer v st)"
    "outs P (toInt64 v st)" "outs P (toDouble v st)"
  using assms
  by (auto simp: castIntToFloat_def castIntToBoolean_def castFloatToBoolean_def
      castBooleantoInt_def castPointerToInt_def castIntToPointer_def toInt64_def toDouble_def
      intro!: outs_create)

lemmas outs_flow = outs_None outs_bind outs_bind_check outs_if outs_case_state outs_case_option
  outs_case_prod outs_case_prod_app outs_SomeI

lemmas outs_prims = outs_create outs_casts outs_ErrorV outs_someV

lemma outs_getNullPointer: "P st \<Longrightarrow> outs P (getNullPointer n st)"
  unfolding getNullPointer_def by (rule outs_prims outs_flow | assumption)+

lemma outs_getStructField: "P st \<Longrightarrow> outs P (getStructField ty f v st)"
  unfolding getStructField_def by (rule outs_prims outs_flow outs_bind_value | assumption)+

lemma outs_getTypeFromString: "P st \<Longrightarrow> outs P (getTypeFromString n p v st)"
  unfolding getTypeFromString_def by (rule outs_prims outs_flow | assumption)+

lemma outs_visitIdentifier: "P st \<Longrightarrow> outs P (visitIdentifier n st)"
  unfolding visitIdentifier_def by (rule outs_prims outs_flow P_namedValue | assumption)+

lemma outs_unaryPointer: "P st \<Longrightarrow> outs P (unaryPointer op v st)"
  unfolding unaryPointer_def by (rule outs_prims outs_flow | assumption)+

lemma outs_unaryFloat: "P st \<Longrightarrow> outs P (unaryFloat op v st)"
  unfolding unaryFloat_def by (rule outs_prims outs_flow | assumption)+

lemma outs_unaryInt: "P st \<Longrightarrow> outs P (unaryInt op v st)"
  unfolding unaryInt_def by (rule outs_prims outs_flow | assumption)+

lemmas outs_unary = outs_unaryPointer outs_unaryFloat outs_unaryInt

lemma outs_visitUnaryOperator:
  "keeps P v \<Longrightarrow> P st \<Longrightarrow> outs P (visitUnaryOperator op v st)"
  unfolding visitUnaryOperator_def Let_def
  by (rule outs_unary outs_prims outs_flow | erule keepsD | assumption)+

lemma outs_logical:
  "(\<And>v st. P st \<Longrightarrow> outs P (f v st)) \<Longrightarrow> P st \<Longrightarrow> outs P (logical b f l r st)"
  unfolding logical_def by (rule outs_prims outs_flow | assumption)+

lemma outs_binaryPointer: "P st \<Longrightarrow> outs P (binaryPointer b l r st)"
  unfolding binaryPointer_def by (rule outs_logical outs_prims outs_flow | assumption)+

lemma outs_binaryFloat: "P st \<Longrightarrow> outs P (binaryFloat b l r st)"
  unfolding binaryFloat_def by (rule outs_logical outs_prims outs_flow | assumption)+

lemma outs_binaryInt: "P st \<Longrightarrow> outs P (binaryInt b l r st)"
  unfolding binaryInt_def by (rule outs_logical outs_prims outs_flow | assumption)+

lemmas outs_binary = outs_binaryPointer outs_binaryFloat outs_binaryInt

lemma outs_promoteOperands: "P st \<Longrightarrow> outs P (promoteOperands l r st)"
  unfolding promoteOperands_def by (rule outs_prims outs_flow | assumption)+

lemma outs_pointerOperands: "P st \<Longrightarrow> outs P (pointerOperands l r st)"
  unfolding pointerOperands_def by (rule outs_prims outs_flow P_outLog | assumption)+

lemma outs_visitBinaryOperator:
  "keeps P vl \<Longrightarrow> keeps P vr \<Longrightarrow> P st \<Longrightarrow> outs P (visitBinaryOperator vl op vr st)"
  unfolding visitBinaryOperator_def binaryDispatch_def Let_def
  by (rule outs_binary outs_promoteOperands outs_pointerOperands outs_prims outs_flow outs_bind_value |
      erule keepsD | assumption)+

lemma outs_nullArgument: "P st \<Longrightarrow> outs P (nullArgument t st)"
  unfolding nullArgument_def
  by (rule outs_getNullPointer outs_prims outs_flow outs_bind_value | assumption)+

lemma outs_convertArgument: "P st \<Longrightarrow> outs P (convertArgument t v st)"
  unfolding convertArgument_def by (rule outs_prims outs_flow | assumption)+

lemma outs_evalArgs:
  "(\<And>v. v \<in> set vs \<Longrightarrow> keeps P v) \<Longrightarrow> P st \<Longrightarrow> outs P (evalArgs ts vs st)"
proof (induction vs arbitrary: ts st)
  case (Cons v vs)
  have v: "keeps P v" and rest: "P s \<Longrightarrow> outs P (evalArgs ts' vs s)" for ts' s
    using Cons by auto
  show ?case
  proof (cases ts)
    case (Cons t ts')
    show ?thesis
      unfolding Cons evalArgs.simps
      by (rule keepsD [OF v] rest outs_nullArgument outs_convertArgument outs_prims
          outs_flow Cons.prems \<open>P st\<close> | assumption)+
  qed simp
qed simp

lemma outs_visitFunctionCall:
  "(\<And>v. v \<in> set vs \<Longrightarrow> keeps P v) \<Longrightarrow> P st \<Longrightarrow> outs P (visitFunctionCall n vs st)"
proof -
  assume vs: "\<And>v. v \<in> set vs \<Longrightarrow> keeps P v" and P: "P st"
  show ?thesis
  proof (cases "getFunction (getModule st) n st")
    case None
    show ?thesis
      unfolding visitFunctionCall_def None option.case
      by (rule outs_evalArgs vs outs_Function_Create None outs_prims outs_flow outs_bind_value P | assumption)+
  next
    case (Some f)
    show ?thesis
      unfolding visitFunctionCall_def Some option.case
      by (rule outs_evalArgs vs outs_prims outs_flow P | assumption)+
  qed
qed

lemma outs_visitPointerExpression:
  "(\<And>v. off = Some v \<Longrightarrow> keeps P v) \<Longrightarrow> P st \<Longrightarrow> outs P (visitPointerExpression i off f st)"
  unfolding visitPointerExpression_def
  by (cases off; simp only: option.case; (rule outs_visitIdentifier outs_getStructField outs_prims outs_flow
      outs_bind_value P_namedValue | (erule keepsD [rotated], simp) | assumption)+)

lemma outs_visitAddressOfExpression:
  "(\<And>v. off = Some v \<Longrightarrow> keeps P v) \<Longrightarrow> P st \<Longrightarrow> outs P (visitAddressOfExpression i off st)"
  unfolding visitAddressOfExpression_def
  by (cases off; simp only: option.case; (rule outs_prims outs_flow
      P_namedValue | (erule keepsD [rotated], simp) | assumption)+)

lemma outs_visitStructureExpression: "P st \<Longrightarrow> outs P (visitStructureExpression i f st)"
  unfolding visitStructureExpression_def
  by (rule outs_getStructField outs_prims outs_flow outs_bind_value P_namedValue | assumption)+

lemma keeps_visitExpr: "keeps P (visitExpr e)"
proof (induction e rule: visitExpr.induct)
  case (6 f args)
  show ?case
    unfolding visitExpr.simps by (rule keepsI, rule outs_visitFunctionCall) (use 6 in auto)
next
  case (8 i off f)
  show ?case
    unfolding visitExpr.simps by (rule keepsI, rule outs_visitPointerExpression) (use 8 in auto)
next
  case (9 i off)
  show ?case
    unfolding visitExpr.simps by (rule keepsI, rule outs_visitAddressOfExpression) (use 9 in auto)
qed (auto intro!: keepsI outs_visitIdentifier outs_visitUnaryOperator outs_visitBinaryOperator
    outs_visitStructureExpression simp: visitInteger_def visitFloat_def visitNullLiteral_def)

lemmas outs_expr = keepsD [OF keeps_visitExpr] outs_visitFunctionCall outs_visitIdentifier
  outs_visitAddressOfExpression outs_getStructField outs_getNullPointer outs_getTypeFromString

end

subsection \<open>Statements\<close>

locale stmt_inv = expr_inv +
  assumes P_InsertEntry: "P st \<Longrightarrow> \<not> isVoidTy t \<Longrightarrow> InsertEntry f (TPtr t) (Alloca t n) st = Some (v, st') \<Longrightarrow> P st'"
    and P_block: "P st \<Longrightarrow> P (snd (BasicBlock_Create n st))"
    and P_push: "P st \<Longrightarrow> P (push_block c n b st)"
    and P_point: "P st \<Longrightarrow> P (SetInsertPoint c p st)"
    and P_named: "P st \<Longrightarrow> P (st\<lparr>namedValues := um_insert n a (namedValues st)\<rparr>)"
    and P_clear: "P st \<Longrightarrow> P (st\<lparr>namedValues := []\<rparr>)"
    and P_struct: "P st \<Longrightarrow> StructType_create c n st = Some (k, st') \<Longrightarrow> P st'"
    and P_body: "P st \<Longrightarrow> StructType_setBody k ts st = Some (u, st') \<Longrightarrow> P st'"
    and P_structTypes: "P st \<Longrightarrow> P (st\<lparr>structTypes := um_insert n sd (structTypes st)\<rparr>)"
    and P_justReturned: "P st \<Longrightarrow> P (st\<lparr>justReturned := b'\<rparr>)"
    and P_keyword: "P st \<Longrightarrow> P (st\<lparr>lambdaKeyword := kw\<rparr>)"
    and P_recon: "P st \<Longrightarrow> P (st\<lparr>reconVector := reconVector st @ [a]\<rparr>)"
begin

lemma outs_createAlloca: "P st \<Longrightarrow> outs P (createAlloca f t n st)"
  unfolding createAlloca_def CreateAlloca_def
  by (intro outs_bind_check) (auto simp: outs_def intro: P_InsertEntry)

lemma outs_StructType_create: "P st \<Longrightarrow> outs P (StructType_create c n st)"
  by (auto simp: outs_def intro: P_struct)

lemma outs_StructType_setBody: "P st \<Longrightarrow> outs P (StructType_setBody k ts st)"
  by (auto simp: outs_def intro: P_body)

lemma P_CreateRet: "P st \<Longrightarrow> P (snd (CreateRet c v st))"
  by (simp add: CreateRet_def P_Insert)

lemma P_CreateBr: "P st \<Longrightarrow> P (snd (CreateBr c b st))"
  by (simp add: CreateBr_def P_Insert)

lemma outs_CreateCondBr: "P st \<Longrightarrow> outs P (CreateCondBr c v b b' st)"
  unfolding CreateCondBr_def by (intro outs_bind_check outs_Insert) simp_all

lemmas P_updates = P_named P_clear P_structTypes P_justReturned P_keyword P_recon P_outLog
  P_push P_point P_block P_CreateRet P_CreateBr P_namedValue

lemmas outs_stmt_prims = outs_createAlloca outs_StructType_create outs_StructType_setBody
  outs_CreateCondBr outs_expr outs_prims

lemma outs_makeSched: "P st \<Longrightarrow> outs P (makeSched t st)"
  unfolding makeSched_def by (rule outs_prims outs_flow P_updates | assumption)+

lemma outs_argTypes: "P st \<Longrightarrow> outs P (argTypes as st)"
  by (induction as arbitrary: st)
    (simp, simp only: argTypes.simps, (rule outs_expr outs_prims outs_flow | assumption | simp)+)

lemma outs_generateFunction:
  assumes P: "P st" and new: "getFunction (getModule st) n st = None"
  shows "outs P (generateFunction hp ret n as st)"
proof -
  let ?R = "\<lambda>s. P s \<and> same_modules st s"
  have args: "outs ?R (argTypes as st)"
    using P by (intro outs_conj outs_argTypes outs_argTypes_modules) simp_all
  have ty: "outs ?R (getTypeFromString ret hp True s)" if "?R s" for s
    using that by (intro outs_conj outs_getTypeFromString outs_getTypeFromString_modules) simp_all
  show ?thesis
    unfolding generateFunction_def
    by (rule outs_bind_from [OF args] outs_bind_from [OF ty] outs_case_option outs_flow
        outs_bind_value outs_Function_Create outs_ErrorV | assumption | simp add: getFunction_same [of st] new)+
qed

lemma outs_nullVariable: "P st \<Longrightarrow> outs P (nullVariable t st)"
  unfolding nullVariable_def by (rule outs_prims outs_flow | assumption)+

lemma outs_pointerInitialiser:
  "(\<And>v. vexp = Some v \<Longrightarrow> keeps P v) \<Longrightarrow> P st \<Longrightarrow> outs P (pointerInitialiser t vexp st)"
  unfolding pointerInitialiser_def
  by (cases vexp; simp only: option.case;
      (rule outs_nullVariable outs_prims outs_flow | (erule keepsD [rotated], simp) | assumption)+)

lemma outs_scalarInitialiser:
  "(\<And>v. vexp = Some v \<Longrightarrow> keeps P v) \<Longrightarrow> P st \<Longrightarrow> outs P (scalarInitialiser t vexp st)"
  unfolding scalarInitialiser_def
  by (cases vexp; simp only: option.case;
      (rule outs_prims outs_flow | (erule keepsD [rotated], simp) | assumption)+)

lemma outs_visitVariableDefinition:
  assumes "\<And>v. vexp = Some v \<Longrightarrow> keeps P v" and "P st"
  shows "outs P (visitVariableDefinition t n vexp p st)"
  unfolding visitVariableDefinition_def Let_def
  by (rule outs_pointerInitialiser outs_scalarInitialiser outs_stmt_prims outs_flow
      outs_bind_value P_updates assms | assumption)+

lemma outs_structVars: "P st \<Longrightarrow> outs P (structVars vs st)"
proof (induction vs arbitrary: st)
  case (Cons v vs)
  show ?case
    unfolding structVars.simps
    by (rule outs_stmt_prims Cons outs_flow | assumption)+
qed simp

lemma outs_structDecls: "P st \<Longrightarrow> outs P (structDecls i t ss st)"
proof (induction ss arbitrary: st)
  case (Cons s ss)
  show ?case
    unfolding structDecls.simps
    by (rule outs_stmt_prims Cons outs_flow | assumption)+
qed simp

lemma outs_visitStructureDefinition: "P st \<Longrightarrow> outs P (visitStructureDefinition i b st)"
  unfolding visitStructureDefinition_def Let_def
  by (rule outs_structVars outs_structDecls outs_stmt_prims outs_flow outs_bind_value P_updates | assumption)+

lemma outs_visitStructureDeclaration: "P st \<Longrightarrow> outs P (visitStructureDeclaration t n p st)"
  unfolding visitStructureDeclaration_def Let_def
  by (rule outs_stmt_prims outs_flow outs_bind_value P_updates | assumption)+

lemma outs_allocArgs: "P st \<Longrightarrow> outs P (allocArgs f i as st)"
proof (induction as arbitrary: i st)
  case (Cons a as)
  show ?case
    by (cases a; simp only: allocArgs.simps Let_def;
        (rule outs_stmt_prims Cons outs_flow P_updates | assumption)+)
qed simp

lemma outs_loadEnv: "P st \<Longrightarrow> outs P (loadEnv f e ns st)"
proof (induction ns arbitrary: st)
  case (Cons n ns)
  show ?case
    unfolding loadEnv.simps Let_def
    by (rule outs_stmt_prims Cons outs_flow outs_bind_value P_updates | assumption)+
qed simp

lemma outs_bindEnvironment: "P st \<Longrightarrow> outs P (bindEnvironment f fn st)"
  unfolding bindEnvironment_def Let_def
  by (rule outs_loadEnv outs_stmt_prims outs_flow outs_bind_value P_updates | assumption)+

lemma outs_visitFunctionDefinition:
  assumes "keeps P vb" and "P st"
  shows "outs P (visitFunctionDefinition t u i as vb hp st)"
proof (cases "getFunction (getModule st) i st")
  case None
  show ?thesis
    unfolding visitFunctionDefinition_def Let_def None option.case
    by (rule outs_generateFunction [OF _ None] outs_allocArgs outs_bindEnvironment outs_stmt_prims
        outs_flow outs_bind_value P_updates keepsD [OF assms(1)] assms(2) | assumption)+
next
  case (Some f)
  show ?thesis
    unfolding visitFunctionDefinition_def Let_def Some option.case
    by (rule outs_allocArgs outs_bindEnvironment outs_stmt_prims
        outs_flow outs_bind_value P_updates keepsD [OF assms(1)] assms(2) | assumption)+
qed

lemma outs_visitExternStatement:
  assumes "P st" shows "outs P (visitExternStatement t i as hp st)"
proof (cases "getFunction (getModule st) i st")
  case None
  show ?thesis
    unfolding visitExternStatement_def None option.case
    by (rule outs_generateFunction [OF _ None] outs_prims outs_flow assms | assumption)+
next
  case (Some f)
  show ?thesis
    unfolding visitExternStatement_def Some option.case
    by (rule outs_prims outs_flow assms | assumption)+
qed

lemma outs_returnValue: "P st \<Longrightarrow> outs P (returnValue t v st)"
  unfolding returnValue_def by (rule outs_stmt_prims outs_flow P_updates | assumption)+

lemma outs_returnNull: "P st \<Longrightarrow> outs P (returnNull t st)"
  unfolding returnNull_def
  by (rule outs_stmt_prims outs_flow outs_bind_value P_updates | assumption)+

lemma outs_visitReturnStatement:
  assumes "\<And>v. vexp = Some v \<Longrightarrow> keeps P v" and "P st"
  shows "outs P (visitReturnStatement vexp st)"
proof (cases vexp)
  case None
  show ?thesis
    unfolding visitReturnStatement_def Let_def None option.case
    by (rule outs_stmt_prims outs_flow outs_bind_value P_updates assms(2) | assumption)+
next
  case (Some v)
  show ?thesis
    unfolding visitReturnStatement_def Let_def Some option.case
    by (rule outs_returnValue outs_returnNull keepsD [OF assms(1) [OF Some]] outs_stmt_prims
        outs_flow outs_bind_value P_updates assms(2) | assumption)+
qed

lemma outs_lhsNull: "P st \<Longrightarrow> outs P (lhsNull t st)"
  unfolding lhsNull_def by (rule outs_stmt_prims outs_flow outs_bind_value | assumption)+

lemma outs_storeResult: "P st \<Longrightarrow> outs P (storeResult r v st)"
  unfolding storeResult_def by (rule outs_prims outs_flow | assumption)+

lemma outs_reconTarget: "P st \<Longrightarrow> outs P (reconTarget v t st)"
  unfolding reconTarget_def by (rule outs_makeSched outs_flow P_updates | assumption)+

lemma outs_lhsConvert: "P st \<Longrightarrow> outs P (lhsConvert m t r st)"
  unfolding lhsConvert_def by (rule outs_prims outs_flow | assumption)+

lemmas outs_lhs_parts = outs_lhsNull outs_storeResult outs_reconTarget outs_lhsConvert

lemma outs_lhs_visitIdentifier: "P st \<Longrightarrow> outs P (lhs_visitIdentifier n r st)"
  unfolding lhs_visitIdentifier_def
  by (rule outs_lhs_parts outs_stmt_prims outs_flow outs_bind_value P_updates | assumption)+

lemma outs_lhs_visitPointerExpression:
  assumes "\<And>v. off = Some v \<Longrightarrow> keeps P v" and "P st"
  shows "outs P (lhs_visitPointerExpression i off f r st)"
proof (cases off)
  case (Some v)
  show ?thesis
    unfolding lhs_visitPointerExpression_def Some bind.simps
    by (rule outs_lhs_parts keepsD [OF assms(1) [OF Some]] outs_stmt_prims outs_flow outs_bind_value
        P_updates assms(2) | assumption)+
qed (auto simp: lhs_visitPointerExpression_def
      intro!: outs_case_state outs_case_option outs_ErrorV P_namedValue assms(2))

lemma outs_lhs_visitStructureExpression: "P st \<Longrightarrow> outs P (lhs_visitStructureExpression i f r st)"
  unfolding lhs_visitStructureExpression_def
  by (rule outs_lhs_parts outs_stmt_prims outs_flow outs_bind_value P_updates | assumption)+

lemma outs_lhsVisit: "P st \<Longrightarrow> outs P (lhsVisit t r st)"
proof (cases t)
  case (PointerExpression i off f)
  then show "P st \<Longrightarrow> outs P (lhsVisit t r st)"
    using keeps_visitExpr by (auto intro!: outs_lhs_visitPointerExpression)
qed (auto simp: lhs_visitAddressOfExpression_def
      intro!: outs_lhs_visitIdentifier outs_lhs_visitStructureExpression outs_ErrorV)

lemma outs_visitAssignStatement:
  "keeps P v \<Longrightarrow> P st \<Longrightarrow> outs P (visitAssignStatement t v st)"
  unfolding visitAssignStatement_def
  by (rule outs_lhsVisit outs_prims outs_flow | erule keepsD | assumption)+

lemma outs_ifCondition: "keeps P v \<Longrightarrow> P st \<Longrightarrow> outs P (ifCondition v st)"
  unfolding ifCondition_def by (rule outs_prims outs_flow | erule keepsD | assumption)+

lemma P_endBranch: "P st \<Longrightarrow> P (endBranch b st)"
  by (simp add: endBranch_def P_updates)

lemma outs_visitIfStatement:
  assumes "keeps P vc" and "keeps P vt" and "\<And>v. ve = Some v \<Longrightarrow> keeps P v" and "P st"
  shows "outs P (visitIfStatement vc vt ve st)"
proof -
  have else_branch: "outs P (case ve of None \<Rightarrow> Some (None, s) | Some v \<Rightarrow> v (s\<lparr>justReturned := False\<rparr>))"
    if "P s" for s
    using that assms(3) by (auto split: option.split intro!: P_justReturned elim!: keepsD)
  show ?thesis
    unfolding visitIfStatement_def Let_def
    by (rule else_branch outs_ifCondition [OF assms(1)] keepsD [OF assms(2)] P_endBranch
        outs_stmt_prims outs_flow outs_bind_value P_updates assms(4) | assumption)+
qed

lemma keeps_visitVarDef: "keeps P (visitVarDef v)"
proof (cases v)
  case (VariableDefinition ty i e p)
  show ?thesis
    unfolding VariableDefinition visitVarDef.simps
    by (rule keepsI, rule outs_visitVariableDefinition) (auto simp: keeps_visitExpr)
qed (auto intro!: keepsI outs_visitStructureDeclaration)

text \<open>The statements without a block of their own.\<close>

lemma keeps_simple_statements:
  "keeps P (visitStmt (VariableStatement c v))"
  "keeps P (visitStmt (StructureDefinition c i b))"
  "keeps P (visitStmt (ExpressionStatement c e))"
  "keeps P (visitStmt (ReturnStatement c eo))"
  "keeps P (visitStmt (AssignStatement c t e))"
  "keeps P (visitStmt (ExternStatement c ty i as p))"
  by (auto intro!: keepsI outs_visitStructureDefinition outs_visitReturnStatement
      outs_visitAssignStatement outs_visitExternStatement
      simp: keepsD [OF keeps_visitVarDef] keepsD [OF keeps_visitExpr] keeps_visitExpr
        visitExpressionStatement_def)

lemma keeps_visitFunctionDefinition: "keeps P vb \<Longrightarrow> keeps P (visitFunctionDefinition t u i as vb hp)"
  by (rule keepsI, rule outs_visitFunctionDefinition)

lemma keeps_visitIfStatement:
  "keeps P vt \<Longrightarrow> (\<And>v. ve = Some v \<Longrightarrow> keeps P v) \<Longrightarrow> keeps P (visitIfStatement (visitExpr e) vt ve)"
  by (rule keepsI, rule outs_visitIfStatement [OF keeps_visitExpr])

end

subsection \<open>Blocks\<close>

text \<open>
  For a whole tree it remains to know that a predicate survives the start of a block, the creation
  of a closure outside of another closure, and the reconciliation of a group. What the closure's
  statement is known to do besides keeping \<open>P\<close> is \<open>Q\<close>.
\<close>

locale tree_inv = stmt_inv +
  fixes Q :: "visitor \<Rightarrow> bool"
  assumes Q_visitStmt: "Q (visitStmt s)"
    and P_start: "P st \<Longrightarrow> \<not> insideLambda st \<Longrightarrow> P (st\<lparr>executeCommit := True\<rparr>)"
    and outs_closure: "P st \<Longrightarrow> \<not> insideLambda st \<Longrightarrow> keeps P v \<Longrightarrow> Q v \<Longrightarrow>
      outs P (visitClosure s v l st)"
    and outs_reconGroup: "P st \<Longrightarrow> outs P (reconGroup st)"
begin

lemma outs_blockLoop:
  "(\<And>s v. (s, v) \<in> set ss \<Longrightarrow> keeps P v \<and> Q v) \<Longrightarrow> P st \<Longrightarrow> outs P (blockLoop cv i ss l st)"
proof (induction ss arbitrary: i l st)
  case (Cons sv ss)
  obtain s v where sv: "sv = (s, v)" by fastforce
  have v: "keeps P v" and Q: "Q v" using Cons.prems(1) [of s v] by (auto simp: sv)
  have rest: "\<And>i l st. P st \<Longrightarrow> outs P (blockLoop cv i ss l st)"
    by (rule Cons.IH [OF Cons.prems(1)]) auto
  have commit: "outs P (Option.bind (reconGroup st) (\<lambda>(_, st). v st))"
    using outs_reconGroup [OF Cons.prems(2)] v by (intro outs_bind) (auto intro: keepsD)
  show ?case
    unfolding sv blockLoop.simps
  proof (rule outs_bind_value)
    fix commits assume c: "(if \<not> insideLambda st then nth_opt cv i else Some True) = Some commits"
    have "outs P (if \<not> commits then visitClosure s v l st
        else Option.bind (reconGroup st) (\<lambda>(_, st). v st))"
      using c commit outs_closure [OF Cons.prems(2) _ v Q] by (auto split: if_splits)
    then show "outs P (Option.bind (if \<not> commits then visitClosure s v l st
        else Option.bind (reconGroup st) (\<lambda>(_, st). v st)) (\<lambda>(w, st). blockLoop cv (Suc i) ss w st))"
      by (rule outs_bind) (rule rest)
  qed
qed simp

lemma keeps_visitBlock:
  assumes "\<And>ss' s v. ss = Some ss' \<Longrightarrow> (s, v) \<in> set ss' \<Longrightarrow> keeps P v \<and> Q v"
  shows "keeps P (visitBlock ss)"
  by (rule keepsI)
    (auto simp: visitBlock_def split: option.split intro!: outs_blockLoop P_start dest: assms)

lemma keeps_visitStmt: "keeps P (visitStmt s)" and keeps_visitBlk: "keeps P (visitBlk b)"
proof (induction s and b)
  case (FunctionDefinition c t u i as b p)
  then show ?case by (simp add: keeps_visitFunctionDefinition)
next
  case (IfStatement c e b eb)
  then show ?case unfolding visitStmt.simps
    by (intro keeps_visitIfStatement) (auto simp: option.set_intros)
next
  case (Block ss)
  then show ?case unfolding visitBlk.simps by (intro keeps_visitBlock) (auto simp: Q_visitStmt)
qed (rule keeps_simple_statements)+

end

text \<open>
  The primitive updates of groups, and those of closures. Together they give the facts above.
\<close>

locale group_inv = stmt_inv +
  assumes P_execute: "P st \<Longrightarrow> P (st\<lparr>executeCommit := b'\<rparr>)"
    and P_cid: "P st \<Longrightarrow> P (st\<lparr>currCid := cv, currId := n'\<rparr>)"
    and P_id: "P st \<Longrightarrow> P (st\<lparr>currId := n'\<rparr>)"
    and P_marked: "P st \<Longrightarrow> P (st\<lparr>marked := marked st @ [s]\<rparr>)"
    and P_recon_mode: "P st \<Longrightarrow> P (st\<lparr>recon := b'\<rparr>)"
    and P_restore: "P st \<Longrightarrow> P st0 \<Longrightarrow> P (st\<lparr>namedValues := namedValues st0\<rparr>)"
    and P_erase: "P st \<Longrightarrow> P (st\<lparr>namedValues := um_erase nm (namedValues st)\<rparr>)"
    and P_erase_struct: "P st \<Longrightarrow> P (st\<lparr>structTypes := um_erase nm (structTypes st)\<rparr>)"
begin

lemmas P_group_updates = P_execute P_cid P_id P_marked P_recon_mode P_erase P_erase_struct P_updates

lemma outs_makeGroup: "P st \<Longrightarrow> outs P (makeGroup st)"
proof -
  assume P: "P st"
  have "keeps P (visitFunctionCall ''__make_context'' [])"
    by (rule keepsI, rule outs_visitFunctionCall) simp_all
  then have "outs P (visitVariableDefinition ''int'' ''cid''
      (Some (visitFunctionCall ''__make_context'' [])) False (st\<lparr>executeCommit := False\<rparr>))"
    using P by (intro outs_visitVariableDefinition P_execute) auto
  then show ?thesis
    using P unfolding makeGroup_def by (intro outs_if outs_bind outs_SomeI P_cid)
qed

lemma outs_captureValues: "P st \<Longrightarrow> outs P (captureValues vs st)"
proof (induction vs arbitrary: st)
  case (Cons v vs)
  show ?case
    by (cases v; simp only: captureValues.simps;
        (rule outs_prims Cons outs_flow outs_bind_value | assumption)+)
qed simp

lemma outs_storeEnv: "P st \<Longrightarrow> outs P (storeEnv a vs st)"
proof (induction vs arbitrary: st)
  case (Cons v vs)
  show ?case
    by (cases v; simp only: storeEnv.simps;
        (rule outs_expr outs_prims Cons outs_flow outs_bind_value | assumption)+)
qed simp

lemma outs_makeEnv: "P st \<Longrightarrow> outs P (makeEnv st)"
  unfolding makeEnv_def Let_def
  by (rule outs_captureValues outs_storeEnv outs_stmt_prims outs_flow outs_bind_value
      P_group_updates | assumption)+

lemma outs_reconEntry: "P st \<Longrightarrow> outs P (reconEntry s st)"
proof -
  assume P: "P st"
  have "P (st\<lparr>lambdaKeyword := Some kw, reconVector := reconVector st @ [None]\<rparr>)" for kw
    using P_recon [OF P_keyword [OF P, of "Some kw"], of None] by simp
  moreover have "outs P (visitAssignStatement lhs (visitExpr rhs) (st\<lparr>lambdaKeyword := None, recon := True\<rparr>))"
    for lhs rhs
    by (intro outs_visitAssignStatement keeps_visitExpr P_recon_mode P_keyword P)
  ultimately show ?thesis
    unfolding reconEntry_def Let_def
    by (auto split: option.split intro!: outs_bind P_recon_mode)
qed

lemma outs_seqVisit: "(\<And>v. v \<in> set vs \<Longrightarrow> keeps P v) \<Longrightarrow> P st \<Longrightarrow> outs P (seqVisit vs l st)"
proof (induction vs arbitrary: l st)
  case (Cons v vs)
  then show ?case by (auto intro!: outs_bind intro: keepsD)
qed simp

lemma keeps_lambdaBody: "keeps P v \<Longrightarrow> keeps P (lambdaBody s v)"
  unfolding lambdaBody_def
  by (rule keepsI, cases "lambdaRecon s"; clarsimp simp del: seqVisit.simps; rule outs_seqVisit)
    (auto intro!: keepsI outs_visitReturnStatement simp: keeps_visitExpr keepsD keepsD [OF keeps_visitExpr])

lemma outs_scheduleLambda: "P st \<Longrightarrow> outs P (scheduleLambda n l st)"
  unfolding scheduleLambda_def Let_def
  by (rule outs_stmt_prims outs_flow outs_bind_value P_group_updates | assumption | simp)+

lemma P_forget: "P st \<Longrightarrow> P (st\<lparr>structTypes := um_erase n (structTypes st), namedValues := um_erase n' (namedValues st)\<rparr>)"
  using P_erase [OF P_erase_struct, of st n' n] by simp

lemma outs_reconLoop: "P st \<Longrightarrow> outs P (reconLoop i rs st)"
proof (induction rs arbitrary: i st)
  case (Cons r rs)
  show ?case
    by (cases r; simp only: reconLoop.simps Let_def;
        (rule outs_prims Cons outs_flow outs_bind_value | assumption)+)
qed simp

lemma outs_recon_group: "P st \<Longrightarrow> outs P (reconGroup st)"
proof -
  assume P: "P st"
  have "P (st\<lparr>executeCommit := True, currId := currId st - 1\<rparr>)"
    using P_id [OF P_execute [OF P]] by simp
  moreover have "keeps P (visitIdentifier n)" for n
    by (rule keepsI) (rule outs_visitIdentifier)
  ultimately show ?thesis
    using P unfolding reconGroup_def Let_def
    by - (rule outs_reconLoop outs_visitFunctionCall outs_flow P_erase | assumption | simp)+
qed

end

locale block_inv = group_inv +
  assumes P_lambdaNum: "P st \<Longrightarrow> P (st\<lparr>lambdaNum := Suc (lambdaNum st)\<rparr>)"
    and P_inside: "P st \<Longrightarrow> P (st\<lparr>insideLambda := b'\<rparr>)"
    and P_module: "P st \<Longrightarrow> P (st\<lparr>modules := (modules st)(LambdaCtx := [])\<rparr>)"
    and P_jit: "P st \<Longrightarrow> P (st\<lparr>lambdaJIT := lambdaJIT st @ [(nm, modules st LambdaCtx)]\<rparr>)"
begin

lemmas P_block_updates = P_lambdaNum P_inside P_module P_jit P_group_updates

lemma P_jitLambda: "P st \<Longrightarrow> P (jitLambda n st)"
  using P_module [OF P_jit, of st n] by (simp add: jitLambda_def)

lemma outs_makeLambda: "keeps P v \<Longrightarrow> P st \<Longrightarrow> outs P (makeLambda n s v st)"
proof -
  assume v: "keeps P v" and P: "P st"
  have start: "P (st\<lparr>insideLambda := True, modules := (modules st)(LambdaCtx := []),
      insertPt := (insertPt st)(LambdaCtx := None)\<rparr>)"
    using P_point [OF P_module [OF P_inside [OF P]], of LambdaCtx None True]
    by (simp add: SetInsertPoint_def)
  show ?thesis
    unfolding makeLambda_def Let_def
    by (rule outs_visitFunctionDefinition [OF keeps_lambdaBody [OF v] start]
        outs_flow P_block_updates outs_bind_value | assumption | simp add: P_block_updates)+
qed

lemma outs_visitClosure: "keeps P v \<Longrightarrow> P st \<Longrightarrow> outs P (visitClosure s v l st)"
  unfolding visitClosure_def Let_def
  by (rule outs_makeGroup outs_makeEnv outs_reconEntry outs_makeLambda outs_scheduleLambda
      outs_flow P_forget P_jitLambda P_restore P_block_updates | assumption)+

end

sublocale block_inv \<subseteq> tree_inv P "\<lambda>_. True"
  by unfold_locales (auto intro: P_execute outs_visitClosure outs_recon_group)

end
