(* ===== verification/Fork_Main.thy ===== *)
theory Fork_Main
  imports CG_Block
begin

section \<open>Injected declarations and the driver (yy_overrides.h, main.cpp)\<close>

text \<open>
  \<open>buildInjections\<close> builds the declarations of the runtime's functions that the parser puts in
  front of every program; \<open>fork_main\<close> is the driver from the command line to the call of the
  compiled program. The generated parser, the file system, the JIT's symbol lookup and the
  addresses of compiled closures are parameters.
\<close>

subsection \<open>Injections\<close>

definition vfunc :: variableDefinition where
  "vfunc = VariableDefinition ''void'' ''func'' None True"
definition venv :: variableDefinition where
  "venv = VariableDefinition ''void'' ''env'' None True"
definition vid :: variableDefinition where
  "vid = VariableDefinition ''int'' ''id'' None False"
definition vcid :: variableDefinition where
  "vcid = VariableDefinition ''int'' ''cid'' None False"
definition vmax :: variableDefinition where
  "vmax = VariableDefinition ''int'' ''max'' None False"
definition vknownint :: variableDefinition where
  "vknownint = VariableDefinition ''int'' ''known'' None False"
definition vknownintptr :: variableDefinition where
  "vknownintptr = VariableDefinition ''int'' ''known'' None True"
definition vknownfloat :: variableDefinition where
  "vknownfloat = VariableDefinition ''float'' ''known'' None False"
definition vknownfloatptr :: variableDefinition where
  "vknownfloatptr = VariableDefinition ''float'' ''known'' None True"
definition voriginalint :: variableDefinition where
  "voriginalint = VariableDefinition ''int'' ''original'' None False"
definition voriginalintptr :: variableDefinition where
  "voriginalintptr = VariableDefinition ''int'' ''original'' None True"
definition voriginalfloat :: variableDefinition where
  "voriginalfloat = VariableDefinition ''float'' ''original'' None False"
definition voriginalfloatptr :: variableDefinition where
  "voriginalfloatptr = VariableDefinition ''float'' ''original'' None True"

lemmas injected_vars = vfunc_def venv_def vid_def vcid_def vmax_def vknownint_def
  vknownintptr_def vknownfloat_def vknownfloatptr_def voriginalint_def voriginalintptr_def
  voriginalfloat_def voriginalfloatptr_def

text \<open>The \<open>commit\<close> flag of a freshly constructed statement is \<open>false\<close> (node.cpp 46--48).\<close>

definition ExternStatement_new ::
  "keyword \<Rightarrow> string \<Rightarrow> variableDefinition list \<Rightarrow> bool \<Rightarrow> statement" where
  "ExternStatement_new type ident args hasPtr = ExternStatement False type ident args hasPtr"

definition buildInjections :: "statement list" where
  "buildInjections = [
     ExternStatement_new ''int'' ''malloc_int'' [vid] True,
     ExternStatement_new ''float'' ''malloc_float'' [vid] True,
     ExternStatement_new ''int'' ''calloc_int'' [vid] True,
     ExternStatement_new ''float'' ''calloc_float'' [vid] True,
     ExternStatement_new ''void'' ''free_int'' [voriginalintptr] False,
     ExternStatement_new ''void'' ''free_float'' [voriginalfloatptr] False,
     ExternStatement_new ''int'' ''__make_context'' [] False,
     ExternStatement_new ''void'' ''__fork_sched_int'' [vfunc, venv, vid, vcid] False,
     ExternStatement_new ''void'' ''__fork_sched_float'' [vfunc, venv, vid, vcid] False,
     ExternStatement_new ''void'' ''__fork_sched_intptr'' [vfunc, venv, vid, vcid] False,
     ExternStatement_new ''void'' ''__fork_sched_floatptr'' [vfunc, venv, vid, vcid] False,
     ExternStatement_new ''void'' ''__fork_sched_void'' [vfunc, venv, vid, vcid] False,
     ExternStatement_new ''int'' ''__recon_int'' [voriginalint, vknownint, vid, vmax, vcid] False,
     ExternStatement_new ''float'' ''__recon_float''
       [voriginalfloat, vknownfloat, vid, vmax, vcid] False,
     ExternStatement_new ''int'' ''__recon_intptr''
       [voriginalintptr, vknownintptr, vid, vmax, vcid] True,
     ExternStatement_new ''float'' ''__recon_floatptr''
       [voriginalfloatptr, vknownfloatptr, vid, vmax, vcid] True,
     ExternStatement_new ''void'' ''__recon_void'' [vid, vmax, vcid] False,
     ExternStatement_new ''void'' ''__destroy_context'' [vcid] False]"

text \<open>The action of the grammar's start symbol (parser.y 71--77).\<close>

definition start_symbol :: "statement list \<Rightarrow> block" where
  "start_symbol stmts = Block (Some (buildInjections @ stmts))"

subsection \<open>The driver\<close>

datatype main_outcome =
    Message string
  | Compiled "string + fn_module" bool cg

text \<open>
  \<open>fopen\<close> finds the source file; \<open>yyparse\<close> gives \<open>ast_root\<close>, or \<open>None\<close> when no tree was built.
\<close>

definition compile :: "(string \<Rightarrow> int) \<Rightarrow> block \<Rightarrow> (llvalue option \<times> cg) option" where
  "compile addr root = visitBlk root (CodeGenVisitor addr)"

definition fork_main ::
  "(string \<Rightarrow> 'file option) \<Rightarrow> ('file \<Rightarrow> block option) \<Rightarrow> (string \<Rightarrow> int) \<Rightarrow>
   (fn_module \<Rightarrow> string \<Rightarrow> bool) \<Rightarrow> string list \<Rightarrow> main_outcome option" where
  "fork_main fopen yyparse addr findSymbol argv =
     (if length argv = 2 then
        (case fopen (argv ! 1) of
           Some yyin \<Rightarrow>
             (case yyparse yyin of
                Some ast_root \<Rightarrow> do {
                  (_, c) \<leftarrow> compile addr ast_root;
                  let dump = printModule c;
                  (executed, c) \<leftarrow> executeMain findSymbol c;
                  Some (Compiled dump executed c)
                }
              | None \<Rightarrow> Some (Message ''Parser closed without returning an AST''))
         | None \<Rightarrow> Some (Message (''Error, failed to open file: '' @ argv ! 1)))
      else if length argv > 2 then Some (Message ''Error, too many inputs.'')
      else Some (Message ''Error, need file input.''))"

end
