(* ===== verification/CG_Properties.thy ===== *)
theory CG_Properties
  imports CG_Invariant Fork_Main
begin

section \<open>What every compilation preserves\<close>

text \<open>
  Interpretations of the invariant locales on the code generator's state, and the theorems about
  whole programs that follow from them.
\<close>

subsection \<open>Frame of the LLVM primitives\<close>

lemma bind_SomeE:
  assumes "Option.bind m f = Some y"
  obtains x where "m = Some x" and "f x = Some y"
  using assms by (cases m) auto

lemma InsertEntry_facts:
  assumes "InsertEntry f t i st = Some (v, st')"
  obtains b where "v = Inst (nextId st) t i"
    and "st' = st\<lparr>nextId := Suc (nextId st), bbs := (bbs st)
       (b := map_option (\<lambda>bb. bb\<lparr>bb_insts := v # bb_insts bb\<rparr>) (bbs st b))\<rparr>"
  using assms
  by (auto simp: InsertEntry_def Let_def elim!: bind_SomeE split: list.splits)

lemma StructType_create_facts:
  assumes "StructType_create c n st = Some (k, st')"
  obtains sn u where "k = nextId st" and "st' = st\<lparr>nextId := Suc (nextId st),
       structTys := (structTys st)(nextId st \<mapsto> \<lparr>st_name = sn, st_body = None\<rparr>),
       structNames := (structNames st)(c := sn # structNames st c),
       structUnique := (structUnique st)(c := u)\<rparr>"
  using assms by (auto simp: StructType_create_def elim!: bind_SomeE)

lemma StructType_setBody_facts:
  assumes "StructType_setBody k ts st = Some (u, st')"
  obtains d where "st' = st\<lparr>structTys := (structTys st)(k \<mapsto> d\<lparr>st_body := Some ts\<rparr>)\<rparr>"
  using assms by (auto simp: StructType_setBody_def elim!: bind_SomeE)

lemmas llvm_frame = Insert_def Let_def BasicBlock_Create_def push_block_def update_function_def
  SetInsertPoint_def

lemmas frame_elims = InsertEntry_facts StructType_create_facts StructType_setBody_facts

subsection \<open>Diagnostics\<close>

text \<open>The error flag is raised exactly when something was printed, and neither is ever undone.\<close>

definition diag_ok :: "string list \<Rightarrow> cg \<Rightarrow> bool" where
  "diag_ok log0 st \<longleftrightarrow> error st = (errLog st \<noteq> []) \<and> (\<exists>zs. errLog st = log0 @ zs)"

interpretation diag: block_inv "diag_ok log0" for log0
  by unfold_locales
    (auto simp: diag_ok_def llvm_frame elim!: frame_elims split: option.splits)

subsection \<open>Maps keep distinct keys\<close>

definition maps_ok :: "cg \<Rightarrow> bool" where
  "maps_ok st \<longleftrightarrow> um_wf (namedValues st) \<and> um_wf (structTypes st) \<and>
     (\<forall>c. distinct (map fst (modules st c)))"

lemma map_fst_update_function [simp]:
  "map (fst \<circ> (\<lambda>(n, g). if n = name then (n, f g) else (n, g))) m = map fst m"
  by (induction m) auto

lemma getFunction_None: "getFunction c n st = None \<longleftrightarrow> n \<notin> set (map fst (modules st c))"
  by (simp add: getFunction_def map_of_eq_None_iff)

interpretation maps: block_inv maps_ok
  by unfold_locales
    (auto simp: maps_ok_def llvm_frame getFunction_None elim!: frame_elims split: option.splits)

subsection \<open>The generated instructions\<close>

text \<open>
  Every block and every instruction in a block has a number below \<open>nextId\<close>; the numbers of the
  instructions of a block are distinct, those of different blocks disjoint; and every instruction
  is well-typed.
\<close>

fun inst_num :: "llvalue \<Rightarrow> nat option" where
  "inst_num (Inst i t ins) = Some i" | "inst_num _ = None"

fun inst_ok :: "nat \<Rightarrow> llvalue \<Rightarrow> bool" where
  "inst_ok n (Inst i t ins) \<longleftrightarrow> i < n \<and> instr_wt t ins" | "inst_ok n _ \<longleftrightarrow> False"

definition ir_ok :: "cg \<Rightarrow> bool" where
  "ir_ok st \<longleftrightarrow>
     (\<forall>b bb. bbs st b = Some bb \<longrightarrow> b < nextId st \<and> list_all (inst_ok (nextId st)) (bb_insts bb) \<and>
        distinct (map inst_num (bb_insts bb))) \<and>
     (\<forall>b bb b' bb'. b \<noteq> b' \<longrightarrow> bbs st b = Some bb \<longrightarrow> bbs st b' = Some bb' \<longrightarrow>
        inst_num ` set (bb_insts bb) \<inter> inst_num ` set (bb_insts bb') = {})"

lemma inst_ok_mono: "inst_ok n v \<Longrightarrow> n \<le> m \<Longrightarrow> inst_ok m v"
  by (cases v) auto

lemma inst_ok_fresh: "inst_ok n v \<Longrightarrow> inst_num v \<noteq> Some n"
  by (cases v) auto

lemma list_all_inst_ok_mono: "list_all (inst_ok n) vs \<Longrightarrow> list_all (inst_ok (Suc n)) vs"
  by (auto elim!: list.pred_mono_strong intro: inst_ok_mono)

lemma fresh_id: "list_all (inst_ok n) vs \<Longrightarrow> Some n \<notin> inst_num ` set vs"
  by (auto simp: list_all_iff dest!: inst_ok_fresh)

lemma ir_ok_nextId: "ir_ok st \<Longrightarrow> ir_ok (st\<lparr>nextId := Suc (nextId st)\<rparr>)"
  by (auto simp: ir_ok_def less_Suc_eq intro: list_all_inst_ok_mono)

lemma disjoint_extend:
  assumes "A' \<subseteq> A \<union> X" and "B' \<subseteq> B \<union> Y" and "A \<inter> B = {}" and "x \<notin> A" and "x \<notin> B"
    and "X \<subseteq> {x}" and "Y \<subseteq> {x}" and "X \<inter> Y = {}"
  shows "A' \<inter> B' = {}"
  using assms by blast

text \<open>Adding one fresh instruction at either end of a block.\<close>

lemma ir_ok_add:
  assumes ok: "ir_ok st" and wt: "instr_wt t i" and v: "v = Inst (nextId st) t i"
    and f: "\<And>vs. f vs = v # vs \<or> f vs = vs @ [v]"
  shows "ir_ok (st\<lparr>nextId := Suc (nextId st),
    bbs := (bbs st)(b := map_option (\<lambda>bb. bb\<lparr>bb_insts := f (bb_insts bb)\<rparr>) (bbs st b))\<rparr>)"
proof -
  let ?new = "(bbs st)(b := map_option (\<lambda>bb. bb\<lparr>bb_insts := f (bb_insts bb)\<rparr>) (bbs st b))"
  have set_f: "set (f vs) = insert v (set vs)" for vs using f [of vs] by auto
  have old: "list_all (inst_ok (nextId st)) (bb_insts bb)" "b' < nextId st"
      "distinct (map inst_num (bb_insts bb))" if "bbs st b' = Some bb" for b' bb
    using ok that by (auto simp: ir_ok_def)
  have one: "b' < Suc (nextId st) \<and> list_all (inst_ok (Suc (nextId st))) (bb_insts bb) \<and>
      distinct (map inst_num (bb_insts bb))" if "?new b' = Some bb" for b' bb
  proof (cases "b' = b")
    case True
    with that obtain bb0 where bb0: "bbs st b = Some bb0" "bb_insts bb = f (bb_insts bb0)" by auto
    note o = old [OF bb0(1)]
    have "list_all (inst_ok (Suc (nextId st))) (bb_insts bb)"
      using list_all_inst_ok_mono [OF o(1)] wt by (simp add: bb0 list_all_iff set_f v)
    moreover have "distinct (map inst_num (bb_insts bb))"
      using f [of "bb_insts bb0"] fresh_id [OF o(1)] o(3) by (auto simp: bb0 v)
    ultimately show ?thesis using o(2) True by simp
  next
    case False
    with that old [of b' bb] show ?thesis by (auto intro: list_all_inst_ok_mono)
  qed
  have sub: "\<exists>bb0. bbs st b' = Some bb0 \<and>
      inst_num ` set (bb_insts bb) \<subseteq> inst_num ` set (bb_insts bb0) \<union> (if b' = b then {Some (nextId st)} else {})"
    if "?new b' = Some bb" for b' bb
    using that by (auto simp: set_f v split: if_splits)
  have "inst_num ` set (bb_insts bb) \<inter> inst_num ` set (bb_insts bb') = {}"
    if ne: "b1 \<noteq> b2" and b1: "?new b1 = Some bb" and b2: "?new b2 = Some bb'" for b1 b2 bb bb'
  proof -
    obtain c c' where c: "bbs st b1 = Some c" "bbs st b2 = Some c'"
      "inst_num ` set (bb_insts bb) \<subseteq> inst_num ` set (bb_insts c) \<union> (if b1 = b then {Some (nextId st)} else {})"
      "inst_num ` set (bb_insts bb') \<subseteq> inst_num ` set (bb_insts c') \<union> (if b2 = b then {Some (nextId st)} else {})"
      using sub [OF b1] sub [OF b2] by blast
    have "inst_num ` set (bb_insts c) \<inter> inst_num ` set (bb_insts c') = {}"
      using ok ne c by (simp add: ir_ok_def)
    then show ?thesis
      by (rule disjoint_extend [OF c(3,4) _ fresh_id [OF old(1) [OF c(1)]]
            fresh_id [OF old(1) [OF c(2)]]]) (use ne in auto)
  qed
  with one show ?thesis by (simp add: ir_ok_def)
qed

lemma ir_ok_Insert: "ir_ok st \<Longrightarrow> instr_wt t i \<Longrightarrow> ir_ok (snd (Insert c t i st))"
  by (auto simp: Insert_def Let_def ir_ok_nextId intro!: ir_ok_add split: option.splits)

lemma ir_ok_frame:
  "ir_ok st \<Longrightarrow> nextId st' = nextId st \<Longrightarrow> bbs st' = bbs st \<Longrightarrow> ir_ok st'"
  by (simp add: ir_ok_def)

lemma ir_ok_same_insts:
  assumes "ir_ok st" and "nextId st' = nextId st"
    and "\<And>b. map_option bb_insts (bbs st' b) = map_option bb_insts (bbs st b)"
  shows "ir_ok st'"
proof -
  have old: "\<exists>bb0. bbs st b = Some bb0 \<and> bb_insts bb0 = bb_insts bb" if "bbs st' b = Some bb" for b bb
    using assms(3) [of b] that by (cases "bbs st b") auto
  show ?thesis
    unfolding ir_ok_def assms(2)
  proof (intro conjI allI impI)
    fix b bb b' bb'
    assume "b \<noteq> b'" "bbs st' b = Some bb" "bbs st' b' = Some bb'"
    with old [of b bb] old [of b' bb'] assms(1)
    show "inst_num ` set (bb_insts bb) \<inter> inst_num ` set (bb_insts bb') = {}"
      unfolding ir_ok_def by metis
  qed (use old assms(1) in \<open>(fastforce simp: ir_ok_def dest!: old)+\<close>)
qed

lemma ir_ok_block: "ir_ok st \<Longrightarrow> ir_ok (snd (BasicBlock_Create n st))"
  by (auto simp: ir_ok_def BasicBlock_Create_def less_Suc_eq intro: list_all_inst_ok_mono)

lemma ir_ok_push: "ir_ok st \<Longrightarrow> ir_ok (push_block c n b st)"
  by (erule ir_ok_same_insts)
    (auto simp: push_block_def update_function_def Let_def option.map_comp comp_def)

interpretation ir: block_inv ir_ok
proof unfold_locales
  fix st st' :: cg and t f n v
  assume "ir_ok st" "\<not> isVoidTy t" "InsertEntry f (TPtr t) (Alloca t n) st = Some (v, st')"
  then show "ir_ok st'" by (auto elim!: InsertEntry_facts intro!: ir_ok_add)
next
  fix st st' :: cg and c n k
  assume "ir_ok st" "StructType_create c n st = Some (k, st')"
  then show "ir_ok st'"
    by (auto elim!: StructType_create_facts intro: ir_ok_frame [OF ir_ok_nextId])
next
  fix st st' :: cg and k ts u
  assume "ir_ok st" "StructType_setBody k ts st = Some (u, st')"
  then show "ir_ok st'" by (auto elim!: StructType_setBody_facts intro: ir_ok_frame)
qed (auto intro: ir_ok_Insert ir_ok_block ir_ok_push ir_ok_frame simp: SetInsertPoint_def)

subsection \<open>Closures\<close>

text \<open>
  Inside a closure no closure is created; outside, the \<open>k\<close>-th closure is compiled to the \<open>k\<close>-th
  module handed to the JIT, under the name \<open>lambda\<close>\<open>k\<close>.
\<close>

definition inside_ok :: "nat \<Rightarrow> (string \<times> fn_module) list \<Rightarrow> cg \<Rightarrow> bool" where
  "inside_ok n j st \<longleftrightarrow> insideLambda st \<and> lambdaNum st = n \<and> lambdaJIT st = j"

definition lambda_name :: "nat \<Rightarrow> string" where
  "lambda_name k = ''lambda'' @ show_nat k"

definition outside_ok :: "cg \<Rightarrow> bool" where
  "outside_ok st \<longleftrightarrow> \<not> insideLambda st \<and>
     map fst (lambdaJIT st) = map lambda_name [0..<lambdaNum st]"

interpretation inside: group_inv "inside_ok n j" for n j
  by unfold_locales
    (auto simp: inside_ok_def llvm_frame elim!: frame_elims split: option.splits)

interpretation inside: tree_inv "inside_ok n j" "\<lambda>_. True" for n j
  by unfold_locales (simp_all add: inside.outs_recon_group, simp_all add: inside_ok_def)

definition lambdas_are :: "nat \<Rightarrow> (string \<times> fn_module) list \<Rightarrow> cg \<Rightarrow> bool" where
  "lambdas_are n j st \<longleftrightarrow> \<not> insideLambda st \<and> lambdaNum st = n \<and> lambdaJIT st = j"

interpretation lams: group_inv "lambdas_are n j" for n j
  by unfold_locales
    (auto simp: lambdas_are_def llvm_frame elim!: frame_elims split: option.splits)

lemma outs_makeLambda_inside:
  assumes "lambdas_are n j st" and v: "\<And>n j. keeps (inside_ok n j) v"
  shows "outs (lambdas_are n j) (makeLambda nm s v st)"
proof -
  have start: "inside_ok n j (st\<lparr>insideLambda := True, modules := (modules st)(LambdaCtx := []),
      insertPt := (insertPt st)(LambdaCtx := None)\<rparr>)"
    using assms(1) by (simp add: lambdas_are_def inside_ok_def)
  have body: "outs (inside_ok n j) (visitFunctionDefinition (Some kw) None nm
      [StructureDeclaration ''void'' ''e0'' True] (lambdaBody s v) False
      (st\<lparr>insideLambda := True, modules := (modules st)(LambdaCtx := []),
          insertPt := (insertPt st)(LambdaCtx := None)\<rparr>))" for kw
    by (rule inside.outs_visitFunctionDefinition [OF inside.keeps_lambdaBody [OF v] start])
  show ?thesis
    unfolding makeLambda_def Let_def
    by (rule outs_bind_from [OF body] outs_bind_value)+ (auto simp: inside_ok_def lambdas_are_def)
qed

lemma outs_visitClosure_lambdas:
  assumes P: "lambdas_are n j st" and v: "\<And>n j. keeps (inside_ok n j) v"
  shows "outs (\<lambda>st'. \<exists>m. lambdas_are (Suc n) (j @ [(lambda_name n, m)]) st') (visitClosure s v l st)"
proof -
  let ?Q = "\<lambda>st'. \<exists>m. lambdas_are (Suc n) (j @ [(lambda_name n, m)]) st'"
  have step: "lambdas_are n j s \<Longrightarrow> lambdas_are (Suc n) j (SetInsertPoint MainCtx None s\<lparr>lambdaNum := Suc (lambdaNum (SetInsertPoint MainCtx None s))\<rparr>)" for s
    by (simp add: lambdas_are_def SetInsertPoint_def)
  have marked: "lambdas_are n j s \<Longrightarrow> lambdas_are n j (s\<lparr>marked := mk\<rparr>)" for s mk
    by (simp add: lambdas_are_def)
  have jit: "lambdas_are (Suc n) j s \<Longrightarrow>
      \<exists>m. lambdas_are (Suc n) (j @ [(lambda_name n, m)]) (jitLambda (lambda_name n) (SetInsertPoint c p (s\<lparr>namedValues := nv\<rparr>)))"
    for s c p nv
    by (auto simp: lambdas_are_def SetInsertPoint_def jitLambda_def)
  have sched: "outs ?Q (scheduleLambda nm l' s)" if "?Q s" for nm l' s
    using that by (blast intro: outs_weaken [OF lams.outs_scheduleLambda])
  have forget: "?Q (s\<lparr>structTypes := a, namedValues := b\<rparr>)" if "?Q s" for s a b
    using that by (simp add: lambdas_are_def)
  have name: "lambdas_are n j s \<Longrightarrow> ''lambda'' @ show_nat (lambdaNum (SetInsertPoint MainCtx None s)) = lambda_name n" for s
    by (simp add: lambdas_are_def lambda_name_def SetInsertPoint_def)
  show ?thesis
    unfolding visitClosure_def Let_def
    apply (rule outs_bind_from [OF lams.outs_makeGroup [OF P]])
    apply (rule outs_bind_from [OF lams.outs_makeEnv], erule marked)
    apply (rule outs_bind_from [OF lams.outs_reconEntry], erule step)
    apply (rule outs_bind_from [OF outs_makeLambda_inside [OF _ v]], assumption)
    apply (simp only: name)
    apply (rule outs_bind_from [OF sched], erule jit)
    apply (rule outs_SomeI, erule forget)
    done
qed

definition inside_visitor :: "visitor \<Rightarrow> bool" where
  "inside_visitor v \<longleftrightarrow> (\<forall>n j. keeps (inside_ok n j) v)"

interpretation outside: group_inv outside_ok
  by unfold_locales
    (auto simp: outside_ok_def llvm_frame elim!: frame_elims split: option.splits)

interpretation outside: tree_inv outside_ok inside_visitor
proof unfold_locales
  show "inside_visitor (visitStmt s)" for s
    by (simp add: inside_visitor_def inside.keeps_visitStmt)
next
  fix st s l v assume st: "outside_ok st" and v: "inside_visitor v"
  then have are: "lambdas_are (lambdaNum st) (lambdaJIT st) st"
    by (simp add: outside_ok_def lambdas_are_def)
  have v': "\<And>n j. keeps (inside_ok n j) v"
    using v by (simp add: inside_visitor_def)
  show "outs outside_ok (visitClosure s v l st)"
    by (rule outs_weaken [OF outs_visitClosure_lambdas [OF are v']])
      (use st in \<open>auto simp: lambdas_are_def outside_ok_def\<close>)
qed (auto simp: outside_ok_def intro: outside.outs_recon_group outside.P_execute)

subsection \<open>Sequential programs\<close>

text \<open>
  A program in which every statement, in every nested block, commits. The fields in \<open>control\<close>
  steer the compilation of groups.
\<close>

fun commitsStmt :: "statement \<Rightarrow> bool" and commitsBlk :: "block \<Rightarrow> bool" where
  "commitsStmt (FunctionDefinition c t u i as b p) \<longleftrightarrow> commitsBlk b"
| "commitsStmt (IfStatement c e b eb) \<longleftrightarrow>
     commitsBlk b \<and> (case eb of None \<Rightarrow> True | Some b' \<Rightarrow> commitsBlk b')"
| "commitsStmt s \<longleftrightarrow> statementCommits s"
| "commitsBlk (Block ss) \<longleftrightarrow> (case ss of None \<Rightarrow> True | Some l \<Rightarrow> (\<forall>s \<in> set l. commitsStmt s))"

definition control :: "nat \<Rightarrow> (string \<times> fn_module) list \<Rightarrow> int \<Rightarrow> llvalue option \<Rightarrow> statement list \<Rightarrow> cg \<Rightarrow> bool" where
  "control n j k cid mk st \<longleftrightarrow> executeCommit st \<and> lambdaNum st = n \<and> lambdaJIT st = j \<and>
     currId st = k \<and> currCid st = cid \<and> marked st = mk"

interpretation ctl: stmt_inv "control n j k cid mk" for n j k cid mk
  by unfold_locales
    (auto simp: control_def llvm_frame elim!: frame_elims split: option.splits)

lemma commitsStmt_commits: "commitsStmt s \<Longrightarrow> statementCommits s"
  by (cases s) auto

lemma adjustCommits_True: "\<forall>c \<in> set cs. c \<Longrightarrow> adjustCommits True cs = cs"
  by (induction cs) auto

lemma length_adjustCommits [simp]: "length (adjustCommits p cs) = length cs"
  by (induction p cs rule: adjustCommits.induct) auto

lemma commitVector_True:
  assumes "\<forall>s \<in> set ss. statementCommits s"
  shows "c \<in> set (commitVector ss) \<Longrightarrow> c"
  using assms by (auto simp: commitVector_def adjustCommits_True)

lemma outs_blockLoop_commits:
  assumes "\<And>c. c \<in> set cv \<Longrightarrow> c" and "\<And>s v. (s, v) \<in> set ss \<Longrightarrow> keeps (control n j k cid mk) v"
    and "control n j k cid mk st"
  shows "outs (control n j k cid mk) (blockLoop cv i ss l st)"
  using assms(2,3)
proof (induction ss arbitrary: i l st)
  case (Cons sv ss)
  obtain s v where sv: "sv = (s, v)" by fastforce
  have v: "keeps (control n j k cid mk) v" using Cons.prems(1) [of s v] by (simp add: sv)
  have rest: "control n j k cid mk st \<Longrightarrow> outs (control n j k cid mk) (blockLoop cv i ss l st)" for i l st
    by (rule Cons.IH [OF Cons.prems(1)]) auto
  have idle: "reconGroup st = Some ((), st)"
    using Cons.prems(2) by (simp add: reconGroup_def control_def)
  show ?case
    unfolding sv blockLoop.simps idle
  proof (rule outs_bind_value)
    fix commits assume "(if \<not> insideLambda st then nth_opt cv i else Some True) = Some commits"
    then have commits by (auto simp: nth_opt_def split: if_splits dest!: assms(1) [OF nth_mem])
    then show "outs (control n j k cid mk) (Option.bind (if \<not> commits then visitClosure s v l st
        else Option.bind (Some ((), st)) (\<lambda>(_, st). v st)) (\<lambda>(w, st). blockLoop cv (Suc i) ss w st))"
      using keepsD [OF v Cons.prems(2)] by (auto intro!: outs_bind rest)
  qed
qed simp

lemma keeps_commits:
  "commitsStmt s \<Longrightarrow> keeps (control n j k cid mk) (visitStmt s)"
  "commitsBlk b \<Longrightarrow> keeps (control n j k cid mk) (visitBlk b)"
proof (induction s and b)
  case (FunctionDefinition c t u i as b p)
  then show ?case by (simp add: ctl.keeps_visitFunctionDefinition)
next
  case (IfStatement c e b eb)
  then show ?case unfolding visitStmt.simps
    by (intro ctl.keeps_visitIfStatement) (auto split: option.splits)
next
  case (Block ss)
  have start: "control n j k cid mk st \<Longrightarrow> control n j k cid mk (st\<lparr>executeCommit := True\<rparr>)" for st
    by (simp add: control_def)
  show ?case
  proof (cases ss)
    case (Some l)
    have kv: "keeps (control n j k cid mk) (visitStmt s)" if "s \<in> set l" for s
      using Block that by (auto simp: Some)
    have all: "\<forall>s \<in> set l. statementCommits s"
      using Block.prems by (auto simp: Some intro: commitsStmt_commits)
    have loop: "outs (control n j k cid mk)
        (blockLoop cv 0 (map (\<lambda>s. (s, visitStmt s)) l) None st)"
      if "control n j k cid mk st" "\<And>c. c \<in> set cv \<Longrightarrow> c" for st cv
      by (rule outs_blockLoop_commits [OF that(2) _ that(1)]) (auto intro: kv)
    show ?thesis
    proof (rule keepsI)
      fix st assume st: "control n j k cid mk st"
      show "outs (control n j k cid mk) (visitBlk (Block ss) st)"
        using loop [OF start [OF st] commitVector_True [OF all]] loop [OF st, of "[]"]
        by (simp add: Some visitBlock_def comp_def)
    qed
  qed (auto intro!: keepsI simp: visitBlock_def)
qed (rule ctl.keeps_simple_statements)+

end
