(* ===== verification/CG_Flow_Correct.thy ===== *)
theory CG_Flow_Correct
  imports CG_Stmt_Correct CG_Properties
begin

section \<open>Conditionals and blocks\<close>

text \<open>
  The rest of the simulation: conditionals, which create three blocks, and sequences of statements; with it
  every well-typed block of sequential statements is compiled without a diagnostic into code that behaves
  as the reference semantics says.
\<close>

subsection \<open>Steps that emit nothing\<close>

definition idle :: "cg \<Rightarrow> cg \<Rightarrow> bool" where
  "idle st st' \<longleftrightarrow> insts st' = insts st \<and> nextId st \<le> nextId st' \<and> (\<forall>k. bbs st k \<noteq> None \<longrightarrow> bbs st' k \<noteq> None) \<and>
     namedValues st' = namedValues st \<and> function_names st' = function_names st \<and> insideLambda st' = insideLambda st \<and> error st' = error st \<and> justReturned st' = justReturned st"

lemma idle_trans: "idle st st' \<Longrightarrow> idle st' st'' \<Longrightarrow> idle st st''"
  by (auto simp: idle_def)

lemma idle_facts:
  assumes "idle st st'"
  shows "grown e st st'" and "kept n b st st'" and "scope_ext \<Gamma> st \<Gamma> st'" and "getBuilder st' = getBuilder st"
    and "position Q st' b = position Q st b" and "nextId st \<le> nextId st'" and "error st' = error st" and "justReturned st' = justReturned st"
    and "insts st' = insts st" and "bbs st k \<noteq> None \<Longrightarrow> bbs st' k \<noteq> None"
  using assms by (auto simp: idle_def grown_def kept_def scope_ext_def getBuilder_def position_def intro!: exI [of _ "[]"])

lemma declares_idle:
  assumes "declares st \<Gamma>" and "idle st st'"
  shows "declares st' \<Gamma>"
proof -
  have "namedValues st' = namedValues st" "nextId st \<le> nextId st'" "getBuilder st' = getBuilder st"
    using assms(2) by (simp_all add: idle_def getBuilder_def)
  then show ?thesis using assms(1) unfolding declares_def by (metis order_less_le_trans)
qed

definition parent :: "'a llvm_scheme \<Rightarrow> nat \<Rightarrow> (ctx \<times> string) option" where
  "parent P k = do { bb \<leftarrow> bbs P k; bb_parent bb }"

lemma insert_function_parent: "insertPt st c = Some b \<Longrightarrow> insert_function c st = parent st b"
  by (simp add: insert_function_def parent_def)

lemma new_block:
  assumes "ready e F R \<Gamma> b st"
  obtains st' where "BasicBlock_Create nm st = (nextId st, st')" and "idle st st'" and "ready e F R \<Gamma> b st'"
    and "nextId st' = Suc (nextId st)" and "bbs st' (nextId st) \<noteq> None" and "\<forall>k. k \<noteq> nextId st \<longrightarrow> parent st' k = parent st k"
proof -
  note st = readyD [OF assms]
  let ?st' = "snd (BasicBlock_Create nm st)"
  have new: "bbs st (nextId st) = None" using st(8) by (metis fresh_def less_irrefl)
  have ins: "insts ?st' = insts st" using new by (auto simp: insts_def BasicBlock_Create_def)
  have idle: "idle st ?st'" using ins by (auto simp: idle_def BasicBlock_Create_def function_names_def)
  have par: "parent ?st' k = parent st k" if "k \<noteq> nextId st" for k using that by (simp add: parent_def BasicBlock_Create_def)
  have "b \<noteq> nextId st" using st(5) new by auto
  then have "insert_function MainCtx ?st' = Some F"
    using st(4,14) par insert_function_parent [of st MainCtx b] insert_function_parent [of ?st' MainCtx b]
    by (simp add: BasicBlock_Create_def)
  then have "in_function e F R b ?st'" using st(10) by (auto simp: in_function_def BasicBlock_Create_def getFunction_def)
  moreover have "insts st (nextId st) = []" using new by (simp add: insts_def)
  then have "fresh ?st'" using st(8) unfolding fresh_def ins by (auto simp: BasicBlock_Create_def less_SucI)
  moreover have "scoped e ?st' \<Gamma>"
    using st(9) declares_idle [OF _ idle] idle unfolding scoped_def ins by (auto simp: idle_def)
  ultimately have "ready e F R \<Gamma> b ?st'" by (simp add: ready_def)
  then show ?thesis using that [of ?st'] idle par by (simp add: BasicBlock_Create_def)
qed

lemma map_of_map_update:
  "map_of (map (\<lambda>(n, g). if n = k then (n, f g) else (n, g)) xs) k = map_option f (map_of xs k)"
  by (induction xs) auto

lemma push_block_ready:
  assumes "ready e F R \<Gamma> b st" and "bbs st k \<noteq> None"
  shows "idle st (push_block (fst F) (snd F) k st)" and "ready e F R \<Gamma> b (push_block (fst F) (snd F) k st)"
    and "parent (push_block (fst F) (snd F) k st) j = (if j = k then Some F else parent st j)"
    and "nextId (push_block (fst F) (snd F) k st) = nextId st"
proof -
  note st = readyD [OF assms(1)]
  let ?st' = "push_block (fst F) (snd F) k st"
  have ins: "insts ?st' = insts st" by (auto simp: insts_def push_block_def update_function_def Let_def map_option_case split: option.splits)
  show idle: "idle st ?st'" using ins by (auto simp: idle_def push_block_def update_function_def Let_def function_names_def)
  show par: "parent ?st' j = (if j = k then Some F else parent st j)" for j
    using assms(2) by (auto simp: parent_def push_block_def update_function_def Let_def)
  show nxt: "nextId ?st' = nextId st" by (simp add: push_block_def update_function_def Let_def)
  have ip: "insertPt ?st' = insertPt st" "namedValues ?st' = namedValues st" "getBuilder ?st' = getBuilder st"
    by (simp_all add: push_block_def update_function_def Let_def getBuilder_def)
  obtain g bs where g: "getFunction (fst F) (snd F) st = Some g" "fn_blocks g = e # bs" "fn_ret g = ret_ty R"
    using ready_function [OF assms(1)] .
  have "getFunction (fst F) (snd F) ?st' = Some (g\<lparr>fn_blocks := fn_blocks g @ [k]\<rparr>)"
    using g(1) by (simp add: getFunction_def push_block_def update_function_def Let_def map_of_map_update)
  moreover have "insert_function MainCtx ?st' = Some F"
    using st(4,14) ip(1) par [of b] insert_function_parent [of st MainCtx b] insert_function_parent [of ?st' MainCtx b] by simp
  moreover have "bbs ?st' e \<noteq> None" using idle_facts(10) [OF idle st(6)] .
  ultimately have "in_function e F R b ?st'"
    using st(10) g(2,3) by (simp add: in_function_def push_block_def update_function_def Let_def)
  moreover have "fresh ?st'"
    using st(8) unfolding fresh_def ins nxt by (auto simp: push_block_def update_function_def Let_def split: if_splits)
  moreover have "scoped e ?st' \<Gamma>" using st(9) unfolding scoped_def ins declares_def ip nxt .
  ultimately show "ready e F R \<Gamma> b ?st'" by (simp add: ready_def)
qed

lemma set_ip_ready:
  assumes "ready e F R \<Gamma> b st" and "parent st k = Some F"
  shows "idle st (SetInsertPoint MainCtx (Some k) st)" and "ready e F R \<Gamma> k (SetInsertPoint MainCtx (Some k) st)"
proof -
  note st = readyD [OF assms(1)]
  let ?st' = "SetInsertPoint MainCtx (Some k) st"
  have same: "insts ?st' = insts st" "bbs ?st' = bbs st" "nextId ?st' = nextId st" "namedValues ?st' = namedValues st" "getBuilder ?st' = getBuilder st"
    by (auto simp: SetInsertPoint_def insts_def getBuilder_def)
  show "idle st ?st'" using same by (simp add: idle_def SetInsertPoint_def function_names_def)
  have "insert_function MainCtx ?st' = Some F"
    using assms(2) insert_function_parent [of ?st' MainCtx k] by (simp add: SetInsertPoint_def parent_def)
  then have "in_function e F R k ?st'"
    using st(10) unfolding in_function_def same by (simp add: SetInsertPoint_def getFunction_def)
  moreover have "fresh ?st'" using st(8) unfolding fresh_def same .
  moreover have "scoped e ?st' \<Gamma>" using st(9) unfolding scoped_def declares_def same .
  ultimately show "ready e F R \<Gamma> k ?st'" by (simp add: ready_def)
qed

subsection \<open>Jumps\<close>

lemma jump_moves:
  assumes "bbs Q (CurBB SF) = Some bb" and "CurInst SF < length (bb_insts bb)" and "bb_insts bb ! CurInst SF = I"
    and "\<And>fs (s :: 'w interp). i_visit H Q I (s\<lparr>ECStack := SF\<lparr>CurInst := Suc (CurInst SF)\<rparr> # fs\<rparr>) =
      Some (s\<lparr>ECStack := SF\<lparr>CurBB := k, CurInst := 0\<rparr> # fs\<rparr>)"
  shows "moves H Q e (SF, m) (SF\<lparr>CurBB := k, CurInst := 0\<rparr>, m)"
proof -
  have "i_step H Q (s\<lparr>ECStack := SF # fs, mem := m\<rparr>) = Some (s\<lparr>ECStack := SF\<lparr>CurBB := k, CurInst := 0\<rparr> # fs, mem := m\<rparr>)"
    for s :: "'w interp" and fs
    using assms(1,2,3) assms(4) [of fs "s\<lparr>mem := m\<rparr>"] by (simp add: i_step_def interp_swap)
  then show ?thesis
    by (auto simp: moves_def addr_def lookupValue_def intro: reaches_step)
qed

abbreviation br_inst :: "cg \<Rightarrow> nat \<Rightarrow> llvalue" where
  "br_inst st k \<equiv> Inst (nextId st) (TVoid MainCtx) (Br k)"

lemma br_moves:
  assumes "ready e F R \<Gamma> b st" and "grown e (extend b [br_inst st k] st) Q" and "stands Q e b st \<Gamma> \<rho> SF m"
  shows "moves H Q e (SF, m) (SF\<lparr>CurBB := k, CurInst := 0\<rparr>, m)"
proof -
  obtain bb where "bbs Q (CurBB SF) = Some bb" "CurInst SF < length (bb_insts bb)" "bb_insts bb ! CurInst SF = br_inst st k"
    using next_instruction [OF readyD(5) [OF assms(1)] assms(2), of SF] assms(3) by (auto simp: stands_def)
  then show ?thesis by (rule jump_moves) (simp add: i_visitBranchInst_def SwitchToNewBasicBlock_def)
qed

abbreviation condbr_inst :: "cg \<Rightarrow> llvalue \<Rightarrow> nat \<Rightarrow> nat \<Rightarrow> llvalue" where
  "condbr_inst st c k k' \<equiv> Inst (nextId st) (TVoid MainCtx) (CondBr c k k')"

lemma condbr_moves:
  assumes "ready e F R \<Gamma> b st" and "grown e (extend b [condbr_inst st c k k'] st) Q" and "stands Q e b st' \<Gamma> \<rho> SF m"
    and "position Q st' b = position Q st b" and "holds c BoolT (bool_val q) SF"
  shows "moves H Q e (SF, m) (SF\<lparr>CurBB := if q then k else k', CurInst := 0\<rparr>, m)"
proof -
  obtain bb where "bbs Q (CurBB SF) = Some bb" "CurInst SF < length (bb_insts bb)" "bb_insts bb ! CurInst SF = condbr_inst st c k k'"
    using next_instruction [OF readyD(5) [OF assms(1)] assms(2), of SF] assms(3,4) by (auto simp: stands_def)
  then show ?thesis
    by (rule jump_moves) (use assms(5) in \<open>simp add: holds_def i_visitBranchInst_def SwitchToNewBasicBlock_def i1_def\<close>)
qed

text \<open>Arriving at the start of a block that is still empty.\<close>

lemma arrive:
  assumes "grown e P Q" and "bbs P k \<noteq> None" and "insts P k = []" and "k \<noteq> e"
    and "filter (\<lambda>I. \<not> is_alloca I) (insts st' k) = []" and "scope_ext \<Gamma> st \<Gamma>' st'"
    and "frame_ok Q e SF m" and "represents st \<Gamma> \<rho> SF m" and "dom \<rho> \<subseteq> dom \<Gamma>"
  shows "stands Q e k st' \<Gamma>' \<rho> (SF\<lparr>CurBB := k, CurInst := 0\<rparr>) m"
proof -
  from grownE [OF assms(1,2)] obtain As Js where "insts Q k = As @ insts P k @ Js" "\<forall>I \<in> set Js. \<not> is_alloca I" "k \<noteq> e \<longrightarrow> As = []"
    by metis
  then have "filter is_alloca (insts Q k) = []" using assms(3,4) by (simp add: filter_empty_conv)
  then have "position Q st' k = 0" using assms(5) by (simp add: position_def)
  moreover have "represents st' \<Gamma>' \<rho> SF m" using represents_scope_ext [OF assms(6,8,9)] .
  moreover have "dom \<rho> \<subseteq> dom \<Gamma>'" using assms(6,9) by (force simp: scope_ext_def)
  ultimately show ?thesis using assms(7)
    by (simp add: stands_def frame_ok_def represents_def addr_def lookupValue_def)
qed

subsection \<open>Conditions\<close>

lemma condition_emits:
  assumes ins: "insertPt st (getBuilder st) = Some b" and decl: "declares st \<Gamma>" and ty: "typeof \<Gamma> ex = Some s" "s \<noteq> BoolT"
  shows "emits H P b st (strip (ifCondition (visitExpr ex) st)) (lty (getBuilder st) BoolT)
    (computes BoolT (\<lambda>SF m y. represents st \<Gamma> \<rho> SF m \<and> (\<exists>x. eval H \<rho> ex = Some x \<and> y = bool_val (truth H x))))"
  unfolding ifCondition_def
proof (rule emits_visitor_then [OF visitExpr_emits [OF ins decl ty(1), where \<rho> = \<rho>]])
  fix v Is
  assume v: "getType v = lty (getBuilder st) s" "below (nextId (extend b Is st)) v"
  let ?st = "extend b Is st"
  have ins': "insertPt ?st (getBuilder ?st) = Some b" using ins by simp
  have "emits H P b ?st (if isDoubleTy (getType v) then castFloatToBoolean v ?st else castIntToBoolean v ?st) (lty (getBuilder ?st) BoolT)
    (computes BoolT (\<lambda>SF m y. \<exists>x. holds v s x SF \<and> y = bool_val (truth H x)))"
  proof (cases s)
    case IntT
    have "emits H P b ?st (castIntToBoolean v ?st) (lty (getBuilder ?st) BoolT)
      (computes BoolT (\<lambda>SF m y. \<exists>x. holds v IntT x SF \<and> y = bool_val (truth H x)))"
      by (rule computes_weaken [OF castIntToBoolean_emits [OF ins']]) (use v IntT in \<open>auto simp: holds_int\<close>)
    then show ?thesis using v IntT by simp
  next
    case FloatT
    have "emits H P b ?st (castFloatToBoolean v ?st) (lty (getBuilder ?st) BoolT)
      (computes BoolT (\<lambda>SF m y. \<exists>x. holds v FloatT x SF \<and> y = bool_val (truth H x)))"
      by (rule computes_weaken [OF castFloatToBoolean_emits [OF ins']]) (use v FloatT in \<open>auto simp: holds_float\<close>)
    then show ?thesis using v FloatT by simp
  qed (use ty in simp)
  then show "emits H P b ?st (strip (do { (cond, st) \<leftarrow> (case Some v of
         None \<Rightarrow> castPointerToInt (getIntNullPointer ?st) ?st
       | Some v \<Rightarrow> (if isPointerTy (getType v) then castPointerToInt v ?st else Some (v, ?st)));
     (if isDoubleTy (getType cond) then someV (castFloatToBoolean cond st)
      else if isIntegerTy (getType cond) then someV (castIntToBoolean cond st)
      else ErrorV ''Unable to determine condition type'' st) }))
    (lty (getBuilder st) BoolT) (computes BoolT (\<lambda>SF m y. \<exists>x. holds v s x SF \<and> y = bool_val (truth H x)))"
    using v ty(2) by (cases s) simp_all
next
  fix v SF m y
  assume "represents st \<Gamma> \<rho> SF m \<and> (\<exists>x. eval H \<rho> ex = Some x \<and> y = bool_val (truth H x))"
  then show "\<exists>x. (represents st \<Gamma> \<rho> SF m \<and> eval H \<rho> ex = Some x) \<and> has_type x s \<and>
      (\<forall>SF'. frame_ext (nextId st) SF SF' \<longrightarrow> holds v s x SF' \<longrightarrow> (\<exists>x. holds v s x SF' \<and> y = bool_val (truth H x)))"
    using eval_preserves_types [OF represents_env_ok [OF decl] ty(1)] by blast
qed

lemma condition_code:
  assumes ready: "ready e F R \<Gamma> b st" and ty: "typeof \<Gamma> ex = Some s" "s \<noteq> BoolT"
  obtains c Is where "ifCondition (visitExpr ex) st = Some (Some c, extend b Is st)" and "getType c = lty MainCtx BoolT"
    and "numbered (nextId st) Is"
    and "\<And>(Q :: cg) \<rho> SF m x. grown e (extend b Is st) Q \<Longrightarrow> stands Q e b st \<Gamma> \<rho> SF m \<Longrightarrow> eval H \<rho> ex = Some x \<Longrightarrow>
      \<exists>SF'. moves H Q e (SF, m) (SF', m) \<and> stands Q e b (extend b Is st) \<Gamma> \<rho> SF' m \<and> holds c BoolT (bool_val (truth H x)) SF'"
proof -
  note st = readyD [OF ready]
  have ins: "insertPt st (getBuilder st) = Some b" using st(1,4) by simp
  obtain c Is where c: "strip (ifCondition (visitExpr ex) st) = Some (c, extend b Is st)" "getType c = lty (getBuilder st) BoolT"
      "below (nextId st + length Is) c" "numbered (nextId st) Is"
      "\<forall>(P :: cg) \<rho>. delivers H P (nextId st) Is c
        (computes BoolT (\<lambda>SF m y. represents st \<Gamma> \<rho> SF m \<and> (\<exists>x. eval H \<rho> ex = Some x \<and> y = bool_val (truth H x))))"
    by (rule emits_uniform [where D = "\<lambda>(P :: cg) \<rho>. computes BoolT (\<lambda>SF m y. represents st \<Gamma> \<rho> SF m \<and> (\<exists>x. eval H \<rho> ex = Some x \<and> y = bool_val (truth H x)))",
        OF condition_emits [OF ins st(7) ty] st(5)])
  have "\<exists>SF'. moves H Q e (SF, m) (SF', m) \<and> stands Q e b (extend b Is st) \<Gamma> \<rho> SF' m \<and> holds c BoolT (bool_val (truth H x)) SF'"
    if "grown e (extend b Is st) Q" "stands Q e b st \<Gamma> \<rho> SF m" "eval H \<rho> ex = Some x" for Q :: cg and \<rho> SF m x
  proof -
    have "represents st \<Gamma> \<rho> SF m" using that(2) by (simp add: stands_def)
    then show ?thesis
      using delivers_moves [OF ready c(4) that(1) c(5) [rule_format] that(2)] that(3) has_type_bool(1) by metis
  qed
  then show ?thesis using that stripD [OF c(1)] c(2,4) st(1) by simp
qed

subsection \<open>Branches\<close>

text \<open>A branch leaves to the merge block, or returns.\<close>

definition leaves :: "'w host \<Rightarrow> 'a llvm_scheme \<Rightarrow> nat \<Rightarrow> sty option \<Rightarrow> nat \<Rightarrow> cg \<Rightarrow> senvt \<Rightarrow> outcome \<Rightarrow>
    ExecutionContext \<Rightarrow> memory \<Rightarrow> bool" where
  "leaves H Q e R mg st \<Gamma> out SF m \<longleftrightarrow> (case out of
       Normal \<rho> \<Rightarrow> \<exists>SF' m'. moves H Q e (SF, m) (SF'\<lparr>CurBB := mg, CurInst := 0\<rparr>, m') \<and> frame_ok Q e SF' m' \<and>
         represents st \<Gamma> \<rho> SF' m' \<and> dom \<rho> \<subseteq> dom \<Gamma>
     | Returned y \<Rightarrow> returns H Q e R y SF m)"

lemma branch_compiles:
  assumes ready: "ready e F R \<Gamma> k st" and mg: "mg < nextId st" "mg \<noteq> k" and j: "\<not> justReturned st"
    and body: "compiles H e F R \<Gamma> k st res \<Gamma>' X"
  obtains v b' st' where "res = Some (v, st')" and "ready e F R \<Gamma>' b' (endBranch mg st')" and "grown e st (endBranch mg st')"
    and "kept (nextId st) k st (endBranch mg st')" and "b' = k \<or> nextId st \<le> b'" and "scope_ext \<Gamma> st \<Gamma>' (endBranch mg st')"
    and "error (endBranch mg st') = error st" and "\<not> justReturned (endBranch mg st')"
    and "\<forall>(Q :: cg) \<rho> out SF m. grown e (endBranch mg st') Q \<longrightarrow> X \<rho> = Some out \<longrightarrow> stands Q e k st \<Gamma> \<rho> SF m \<longrightarrow>
      leaves H Q e R mg (endBranch mg st') \<Gamma>' out SF m"
proof -
  from body obtain v b' st' where 1: "res = Some (v, st')" "ready e F R \<Gamma>' b' st'" "grown e st st'" "error st' = error st"
      "justReturned st' \<longrightarrow> justReturned st \<or> (\<forall>\<rho> \<rho>'. X \<rho> \<noteq> Some (Normal \<rho>'))"
      "kept (nextId st) k st st'" "b' = k \<or> nextId st \<le> b'" "scope_ext \<Gamma> st \<Gamma>' st'"
      "\<And>(Q :: cg) \<rho> out SF m. grown e st' Q \<Longrightarrow> X \<rho> = Some out \<Longrightarrow> stands Q e k st \<Gamma> \<rho> SF m \<Longrightarrow> runs H Q e R b' st' \<Gamma>' out SF m"
    unfolding compiles_def by blast
  show ?thesis
  proof (cases "justReturned st'")
    case True
    then have e: "endBranch mg st' = st'\<lparr>justReturned := False\<rparr>" by (simp add: endBranch_def)
    have never: "X \<rho> \<noteq> Some (Normal \<rho>')" for \<rho> \<rho>' using True 1(5) j by blast
    show ?thesis
    proof (rule that [OF 1(1), unfolded e])
      show "kept (nextId st) k st (st'\<lparr>justReturned := False\<rparr>)" using 1(6) by (simp add: kept_def insts_def)
      show "scope_ext \<Gamma> st \<Gamma>' (st'\<lparr>justReturned := False\<rparr>)" using 1(8) by (simp add: scope_ext_def getBuilder_def)
      show "\<forall>(Q :: cg) \<rho> out SF m. grown e (st'\<lparr>justReturned := False\<rparr>) Q \<longrightarrow> X \<rho> = Some out \<longrightarrow> stands Q e k st \<Gamma> \<rho> SF m \<longrightarrow>
          leaves H Q e R mg (st'\<lparr>justReturned := False\<rparr>) \<Gamma>' out SF m"
      proof (intro allI impI)
        fix Q :: cg and \<rho> out SF m
        assume "grown e (st'\<lparr>justReturned := False\<rparr>) Q" "X \<rho> = Some out" "stands Q e k st \<Gamma> \<rho> SF m"
        then show "leaves H Q e R mg (st'\<lparr>justReturned := False\<rparr>) \<Gamma>' out SF m"
          using 1(9) [of Q \<rho> out SF m] never by (cases out) (auto simp: runs_def leaves_def)
      qed
    qed (use 1 in simp_all)
  next
    case False
    let ?I = "br_inst st' mg"
    have e: "endBranch mg st' = extend b' [?I] st'"
      using False readyD(1,4) [OF 1(2)] by (simp add: endBranch_def CreateBr_def Insert_extend)
    have num: "numbered (nextId st') [?I]" by (simp add: numbered_def)
    have g: "grown e st' (extend b' [?I] st')" by (rule grown_extend [OF readyD(5) [OF 1(2)] num])
    have n: "nextId st \<le> nextId st'" using 1(3) by (simp add: grown_def)
    show ?thesis
    proof (rule that [OF 1(1), unfolded e])
      show "ready e F R \<Gamma>' b' (extend b' [?I] st')" by (rule ready_extend [OF 1(2) num])
      show "grown e st (extend b' [?I] st')" by (rule grown_trans [OF 1(3) g])
      show "kept (nextId st) k st (extend b' [?I] st')"
        by (rule kept_trans [OF 1(6) kept_later [OF kept_extend [OF readyD(5) [OF 1(2)]] n 1(7)]])
      show "\<forall>(Q :: cg) \<rho> out SF m. grown e (extend b' [?I] st') Q \<longrightarrow> X \<rho> = Some out \<longrightarrow> stands Q e k st \<Gamma> \<rho> SF m \<longrightarrow>
          leaves H Q e R mg (extend b' [?I] st') \<Gamma>' out SF m"
      proof (intro allI impI)
        fix Q :: cg and \<rho> out SF m
        assume Q: "grown e (extend b' [?I] st') Q" and X: "X \<rho> = Some out" "stands Q e k st \<Gamma> \<rho> SF m"
        show "leaves H Q e R mg (extend b' [?I] st') \<Gamma>' out SF m"
        proof (cases out)
          case (Normal \<rho>')
          then obtain SF' m' where s: "moves H Q e (SF, m) (SF', m')" "stands Q e b' st' \<Gamma>' \<rho>' SF' m'"
            using 1(9) [OF grown_trans [OF g Q] X] by (auto simp: runs_def)
          have "moves H Q e (SF, m) (SF'\<lparr>CurBB := mg, CurInst := 0\<rparr>, m')"
            using moves_trans [OF s(1) br_moves [OF 1(2) Q s(2)]] .
          then show ?thesis using s(2) Normal by (auto simp: stands_def leaves_def)
        next
          case (Returned y)
          then show ?thesis using 1(9) [OF grown_trans [OF g Q] X] by (simp add: runs_def leaves_def)
        qed
      qed
    qed (use 1 False in simp_all)
  qed
qed

subsection \<open>Conditionals\<close>

lemma parent_extend [simp]: "parent (extend b Is st) k = parent st k"
  by (cases "bbs st k") (auto simp: parent_def extend_def)

lemma parent_justReturned [simp]: "parent (st\<lparr>justReturned := j\<rparr>) k = parent st k"
  by (simp add: parent_def)

lemma fresh_insts: "fresh P \<Longrightarrow> nextId P \<le> k \<Longrightarrow> insts P k = []"
proof (cases "bbs P k")
  case (Some bb)
  assume P: "fresh P" "nextId P \<le> k"
  then have "k < nextId P" using Some unfolding fresh_def by simp
  then show ?thesis using P(2) by simp
qed (simp add: insts_def)

text \<open>The three blocks and the branch to the first two.\<close>

lemma fork_blocks:
  assumes ready: "ready e F R \<Gamma> b st"
  obtains s1 s3 s4 where "BasicBlock_Create ''then'' st = (nextId st, s1)"
    and "BasicBlock_Create ''else'' (push_block (fst F) (snd F) (nextId st) s1) = (Suc (nextId st), s3)"
    and "BasicBlock_Create ''if'' s3 = (Suc (Suc (nextId st)), s4)"
    and "idle st s4" and "ready e F R \<Gamma> b s4" and "nextId s4 = Suc (Suc (Suc (nextId st)))" and "parent s4 (nextId st) = Some F"
    and "bbs s4 (nextId st) \<noteq> None" and "bbs s4 (Suc (nextId st)) \<noteq> None" and "bbs s4 (Suc (Suc (nextId st))) \<noteq> None"
proof -
  obtain s1 where 1: "BasicBlock_Create ''then'' st = (nextId st, s1)" "idle st s1" "ready e F R \<Gamma> b s1" "nextId s1 = Suc (nextId st)"
      "bbs s1 (nextId st) \<noteq> None"
    using new_block [OF ready, of "''then''"] by metis
  let ?s2 = "push_block (fst F) (snd F) (nextId st) s1"
  note 2 = push_block_ready [OF 1(3,5)]
  obtain s3 where 3: "BasicBlock_Create ''else'' ?s2 = (nextId ?s2, s3)" "idle ?s2 s3" "ready e F R \<Gamma> b s3" "nextId s3 = Suc (nextId ?s2)"
      "bbs s3 (nextId ?s2) \<noteq> None" "\<forall>k. k \<noteq> nextId ?s2 \<longrightarrow> parent s3 k = parent ?s2 k"
    by (rule new_block [OF 2(2), of "''else''"])
  obtain s4 where 4: "BasicBlock_Create ''if'' s3 = (nextId s3, s4)" "idle s3 s4" "ready e F R \<Gamma> b s4" "nextId s4 = Suc (nextId s3)"
      "bbs s4 (nextId s3) \<noteq> None" "\<forall>k. k \<noteq> nextId s3 \<longrightarrow> parent s4 k = parent s3 k"
    by (rule new_block [OF 3(3), of "''if''"])
  have n: "nextId ?s2 = Suc (nextId st)" "nextId s3 = Suc (Suc (nextId st))" using 2(4) 1(4) 3(4) by simp_all
  have idle24: "idle ?s2 s4" using idle_trans [OF 3(2) 4(2)] .
  have "bbs s4 (nextId st) \<noteq> None" using idle_facts(10) [OF idle24 idle_facts(10) [OF 2(1) 1(5)]] .
  moreover have "bbs s4 (Suc (nextId st)) \<noteq> None" using idle_facts(10) [OF 4(2) 3(5)] n by simp
  moreover have "parent s4 (nextId st) = Some F" using 4(6) [rule_format, of "nextId st"] 3(6) [rule_format, of "nextId st"] 2(3) [of "nextId st"] n by simp
  ultimately show ?thesis
    using that [of s1 s3 s4] 1(1) 3(1) 4(1,3,4,5) n idle_trans [OF 1(2) idle_trans [OF 2(1) idle24]] by simp
qed

abbreviation code :: "'a llvm_scheme \<Rightarrow> nat \<Rightarrow> llvalue list" where
  "code P k \<equiv> filter (\<lambda>I. \<not> is_alloca I) (insts P k)"

lemma CreateCondBr_extend:
  "getType c = lty MainCtx BoolT \<Longrightarrow> insertPt st MainCtx = Some b \<Longrightarrow>
    CreateCondBr MainCtx c k k' st = Some (condbr_inst st c k k', extend b [condbr_inst st c k k'] st)"
  by (simp add: CreateCondBr_def Insert_extend)

text \<open>The start of a conditional: the code of the condition, the blocks, the branch, and the compiler in the first block.\<close>

lemma if_start:
  assumes ready: "ready e F R \<Gamma> b st" and ty: "typeof \<Gamma> ex = Some s" "s \<noteq> BoolT"
  obtains n s7 where
    "visitIfStatement (visitExpr ex) vthen velse st = do {
          (_, st) \<leftarrow> vthen s7;
          let st = push_block (fst F) (snd F) (Suc n) (endBranch (Suc (Suc n)) st);
          let st = SetInsertPoint (getBuilder st) (Some (Suc n)) st;
          (_, st) \<leftarrow> (case velse of
              None \<Rightarrow> Some (None, st)
            | Some ve \<Rightarrow> ve (st\<lparr>justReturned := False\<rparr>));
          let st = push_block (fst F) (snd F) (Suc (Suc n)) (endBranch (Suc (Suc n)) st);
          let st = SetInsertPoint (getBuilder st) (Some (Suc (Suc n))) st;
          Some (Some (getVoidValue st), st)
        }"
    and "ready e F R \<Gamma> n s7" and "grown e st s7" and "kept (nextId st) b st s7" and "scope_ext \<Gamma> st \<Gamma> s7" and "error s7 = error st"
    and "\<not> justReturned s7" and "nextId st \<le> n" and "e < n" and "Suc (Suc n) < nextId s7"
    and "\<forall>k. n \<le> k \<longrightarrow> insts s7 k = []" and "bbs s7 (Suc n) \<noteq> None" and "bbs s7 (Suc (Suc n)) \<noteq> None"
    and "\<forall>(Q :: cg) \<rho> SF m x. grown e s7 Q \<longrightarrow> stands Q e b st \<Gamma> \<rho> SF m \<longrightarrow> eval H \<rho> ex = Some x \<longrightarrow>
      (\<exists>SF'. moves H Q e (SF, m) (SF'\<lparr>CurBB := if truth H x then n else Suc n, CurInst := 0\<rparr>, m) \<and> frame_ok Q e SF' m \<and>
        represents s7 \<Gamma> \<rho> SF' m)"
proof -
  note st = readyD [OF ready]
  obtain c Is where c: "ifCondition (visitExpr ex) st = Some (Some c, extend b Is st)" "getType c = lty MainCtx BoolT" "numbered (nextId st) Is"
      "\<And>(Q :: cg) \<rho> SF m x. grown e (extend b Is st) Q \<Longrightarrow> stands Q e b st \<Gamma> \<rho> SF m \<Longrightarrow> eval H \<rho> ex = Some x \<Longrightarrow>
        \<exists>SF'. moves H Q e (SF, m) (SF', m) \<and> stands Q e b (extend b Is st) \<Gamma> \<rho> SF' m \<and> holds c BoolT (bool_val (truth H x)) SF'"
    using condition_code [OF ready ty, of H] by metis
  let ?st1 = "extend b Is st"
  define n where "n = nextId ?st1"
  have r1: "ready e F R \<Gamma> b ?st1" by (rule ready_extend [OF ready c(3)])
  obtain s1 s3 s4 where s: "BasicBlock_Create ''then'' ?st1 = (n, s1)"
      "BasicBlock_Create ''else'' (push_block (fst F) (snd F) n s1) = (Suc n, s3)" "BasicBlock_Create ''if'' s3 = (Suc (Suc n), s4)"
      "idle ?st1 s4" "ready e F R \<Gamma> b s4" "nextId s4 = Suc (Suc (Suc n))" "parent s4 n = Some F"
      "bbs s4 n \<noteq> None" "bbs s4 (Suc n) \<noteq> None" "bbs s4 (Suc (Suc n)) \<noteq> None"
    using fork_blocks [OF r1] unfolding n_def .
  let ?I = "condbr_inst s4 c n (Suc n)"
  let ?s5 = "extend b [?I] s4"
  have num: "numbered (nextId s4) [?I]" by (simp add: numbered_def)
  have r5: "ready e F R \<Gamma> b ?s5" by (rule ready_extend [OF s(5) num])
  have br: "CreateCondBr MainCtx c n (Suc n) s4 = Some (?I, ?s5)" by (rule CreateCondBr_extend [OF c(2) readyD(4) [OF s(5)]])
  let ?s6 = "SetInsertPoint MainCtx (Some n) ?s5"
  note 6 = set_ip_ready [OF r5, of n]
  have p: "parent ?s5 n = Some F" using s(7) by simp
  let ?s7 = "?s6\<lparr>justReturned := False\<rparr>"
  have j: "insts (P\<lparr>justReturned := q\<rparr>) = insts P" "scope_ext \<Gamma> P' \<Gamma>' (P\<lparr>justReturned := q\<rparr>) = scope_ext \<Gamma> P' \<Gamma>' P"
    "represents (P\<lparr>justReturned := q\<rparr>) \<Gamma> \<rho> SF m = represents P \<Gamma> \<rho> SF m" for P P' :: cg and q \<Gamma> \<Gamma>' \<rho> SF m
    by (auto simp: insts_def scope_ext_def represents_def getBuilder_def)
  have g: "grown e ?st1 s4" "grown e s4 ?s5" "grown e ?s5 ?s7"
    using idle_facts(1) [OF s(4)] grown_extend [OF readyD(5) [OF s(5)] num] idle_facts(1) [OF 6(1) [OF p]] by simp_all
  have sc: "scope_ext \<Gamma> st \<Gamma> ?s7"
    using scope_ext_trans [OF _ scope_ext_trans [OF idle_facts(3) [OF s(4)]], of \<Gamma> st \<Gamma> \<Gamma> ?s5] idle_facts(3) [OF 6(1) [OF p], of \<Gamma>]
      scope_ext_trans [of \<Gamma> st \<Gamma> ?s5 \<Gamma> ?s6] by (simp add: j)
  have n: "nextId st \<le> n" "e < nextId st" using readyD(6,8) [OF ready] by (auto simp: n_def fresh_def)
  have empty: "insts ?s7 k = []" if "n \<le> k" for k
  proof -
    have "b \<noteq> k" using that readyD(5,8) [OF r1] unfolding n_def fresh_def by (metis leD)
    then show ?thesis
      using fresh_insts [OF readyD(8) [OF r1], of k] that readyD(5) [OF s(5)] idle_facts(9) [OF s(4)] idle_facts(9) [OF 6(1) [OF p]]
      by (simp add: j n_def)
  qed
  have s3b: "getBuilder s4 = MainCtx" "getBuilder ?s5 = MainCtx" using readyD(1) [OF s(5)] by simp_all
  show ?thesis
  proof (rule that [of ?s7 n])
    show "visitIfStatement (visitExpr ex) vthen velse st = do {
          (_, st) \<leftarrow> vthen ?s7;
          let st = push_block (fst F) (snd F) (Suc n) (endBranch (Suc (Suc n)) st);
          let st = SetInsertPoint (getBuilder st) (Some (Suc n)) st;
          (_, st) \<leftarrow> (case velse of
              None \<Rightarrow> Some (None, st)
            | Some ve \<Rightarrow> ve (st\<lparr>justReturned := False\<rparr>));
          let st = push_block (fst F) (snd F) (Suc (Suc n)) (endBranch (Suc (Suc n)) st);
          let st = SetInsertPoint (getBuilder st) (Some (Suc (Suc n))) st;
          Some (Some (getVoidValue st), st)
        }"
      unfolding visitIfStatement_def using c(1) s(1,2,3) br s3b readyD(1,14) [OF r1] by (simp add: Let_def)
    show "ready e F R \<Gamma> n ?s7" using 6(2) [OF p] by simp
    show "grown e st ?s7" using grown_trans [OF grown_extend [OF st(5) c(3)] grown_trans [OF g(1) grown_trans [OF g(2,3)]]] .
    show "kept (nextId st) b st ?s7"
      using kept_trans [OF kept_trans [OF kept_extend [OF st(5)] idle_facts(2) [OF s(4)]]
          kept_trans [OF kept_extend [OF readyD(5) [OF s(5)]] idle_facts(2) [OF 6(1) [OF p]]]] by (simp add: kept_def j)
    show "error ?s7 = error st" using idle_facts(7) [OF s(4)] idle_facts(7) [OF 6(1) [OF p]] by simp
    show "bbs ?s7 (Suc n) \<noteq> None" "bbs ?s7 (Suc (Suc n)) \<noteq> None"
      using s(9,10) idle_facts(10) [OF 6(1) [OF p]] by simp_all
    show "Suc (Suc n) < nextId ?s7" using s(6) idle_facts(6) [OF 6(1) [OF p]] by simp
    show "\<forall>(Q :: cg) \<rho> SF m x. grown e ?s7 Q \<longrightarrow> stands Q e b st \<Gamma> \<rho> SF m \<longrightarrow> eval H \<rho> ex = Some x \<longrightarrow>
      (\<exists>SF'. moves H Q e (SF, m) (SF'\<lparr>CurBB := if truth H x then n else Suc n, CurInst := 0\<rparr>, m) \<and> frame_ok Q e SF' m \<and>
        represents ?s7 \<Gamma> \<rho> SF' m)"
    proof (intro allI impI)
      fix Q :: cg and \<rho> SF m x
      assume Q: "grown e ?s7 Q" and at: "stands Q e b st \<Gamma> \<rho> SF m" and x: "eval H \<rho> ex = Some x"
      have Q5: "grown e ?s5 Q" using grown_trans [OF g(3) Q] .
      have Q1: "grown e ?st1 Q" using grown_trans [OF g(1) grown_trans [OF g(2) Q5]] .
      from c(4) [OF Q1 at x] obtain SF' where s': "moves H Q e (SF, m) (SF', m)" "stands Q e b ?st1 \<Gamma> \<rho> SF' m" "holds c BoolT (bool_val (truth H x)) SF'"
        by blast
      have rep: "represents ?s7 \<Gamma> \<rho> SF' m" using represents_scope_ext [OF sc, of \<rho> SF' m] s'(2) by (simp add: stands_def)
      have "moves H Q e (SF', m) (SF'\<lparr>CurBB := if truth H x then n else Suc n, CurInst := 0\<rparr>, m)"
        by (rule condbr_moves [OF s(5) Q5 s'(2) idle_facts(5) [OF s(4), symmetric] s'(3)])
      from moves_trans [OF s'(1) this]
      show "\<exists>SF'. moves H Q e (SF, m) (SF'\<lparr>CurBB := if truth H x then n else Suc n, CurInst := 0\<rparr>, m) \<and> frame_ok Q e SF' m \<and>
          represents ?s7 \<Gamma> \<rho> SF' m"
        using rep s'(2) unfolding stands_def by blast
    qed
  qed (use sc n empty in simp_all)
qed

text \<open>Moving the compiler on to a block that exists and is still empty.\<close>

lemma enter_block:
  assumes ready: "ready e F R \<Gamma> b st" and k: "bbs st k \<noteq> None"
  defines "st' \<equiv> SetInsertPoint MainCtx (Some k) (push_block (fst F) (snd F) k st)"
  shows "idle st st'" and "ready e F R \<Gamma> k st'"
proof -
  note 1 = push_block_ready [OF ready k]
  have p: "parent (push_block (fst F) (snd F) k st) k = Some F" using 1(3) by simp
  note 2 = set_ip_ready [OF 1(2) p]
  show "idle st st'" unfolding st'_def by (rule idle_trans [OF 1(1) 2(1)])
  show "ready e F R \<Gamma> k st'" unfolding st'_def by (rule 2(2))
qed

lemma code_later: "kept n b P Q \<Longrightarrow> k < n \<Longrightarrow> k \<noteq> b \<Longrightarrow> code P k = [] \<Longrightarrow> code Q k = []"
  by (simp add: kept_def)

lemma if_compiles:
  assumes ready: "ready e F R \<Gamma> b st" and ty: "typeof \<Gamma> ex = Some s" "s \<noteq> BoolT"
    and thn: "\<And>b st. ready e F R \<Gamma> b st \<Longrightarrow> compiles H e F R \<Gamma> b st (vthen st) \<Gamma>1 X1"
    and els: "\<And>b st. ready e F R \<Gamma>1 b st \<Longrightarrow> \<not> justReturned st \<Longrightarrow>
      compiles H e F R \<Gamma>1 b st (case velse of None \<Rightarrow> Some (None, st) | Some ve \<Rightarrow> ve (st\<lparr>justReturned := False\<rparr>)) \<Gamma>2 X2"
  shows "compiles H e F R \<Gamma> b st (visitIfStatement (visitExpr ex) vthen velse st) \<Gamma>2
    (\<lambda>\<rho>. do { v \<leftarrow> eval H \<rho> ex; (if truth H v then X1 \<rho> else X2 \<rho>) })"
proof -
  let ?vel = "\<lambda>st. case velse of None \<Rightarrow> Some (None, st) | Some ve \<Rightarrow> ve (st\<lparr>justReturned := False\<rparr>)"
  let ?Z = "\<lambda>\<rho>. do { v \<leftarrow> eval H \<rho> ex; (if truth H v then X1 \<rho> else X2 \<rho>) }"
  obtain n s7 where 1: "visitIfStatement (visitExpr ex) vthen velse st = do {
          (_, st) \<leftarrow> vthen s7;
          let st = push_block (fst F) (snd F) (Suc n) (endBranch (Suc (Suc n)) st);
          let st = SetInsertPoint (getBuilder st) (Some (Suc n)) st;
          (_, st) \<leftarrow> ?vel st;
          let st = push_block (fst F) (snd F) (Suc (Suc n)) (endBranch (Suc (Suc n)) st);
          let st = SetInsertPoint (getBuilder st) (Some (Suc (Suc n))) st;
          Some (Some (getVoidValue st), st)
        }"
      "ready e F R \<Gamma> n s7" "grown e st s7" "kept (nextId st) b st s7" "scope_ext \<Gamma> st \<Gamma> s7" "error s7 = error st"
      "\<not> justReturned s7" "nextId st \<le> n" "e < n" "Suc (Suc n) < nextId s7"
      "\<forall>k. n \<le> k \<longrightarrow> insts s7 k = []" "bbs s7 (Suc n) \<noteq> None" "bbs s7 (Suc (Suc n)) \<noteq> None"
      "\<forall>(Q :: cg) \<rho> SF m x. grown e s7 Q \<longrightarrow> stands Q e b st \<Gamma> \<rho> SF m \<longrightarrow> eval H \<rho> ex = Some x \<longrightarrow>
        (\<exists>SF'. moves H Q e (SF, m) (SF'\<lparr>CurBB := if truth H x then n else Suc n, CurInst := 0\<rparr>, m) \<and> frame_ok Q e SF' m \<and>
          represents s7 \<Gamma> \<rho> SF' m)"
    by (rule if_start [OF ready ty, of vthen velse H])
  let ?mg = "Suc (Suc n)"
  have mgn: "?mg \<noteq> n" "?mg \<noteq> Suc n" "Suc n \<noteq> n" by simp_all
  obtain v b1 t1 where 2: "vthen s7 = Some (v, t1)" "ready e F R \<Gamma>1 b1 (endBranch ?mg t1)" "grown e s7 (endBranch ?mg t1)"
      "kept (nextId s7) n s7 (endBranch ?mg t1)" "b1 = n \<or> nextId s7 \<le> b1" "scope_ext \<Gamma> s7 \<Gamma>1 (endBranch ?mg t1)"
      "error (endBranch ?mg t1) = error s7" "\<not> justReturned (endBranch ?mg t1)"
      "\<forall>(Q :: cg) \<rho> out SF m. grown e (endBranch ?mg t1) Q \<longrightarrow> X1 \<rho> = Some out \<longrightarrow> stands Q e n s7 \<Gamma> \<rho> SF m \<longrightarrow>
        leaves H Q e R ?mg (endBranch ?mg t1) \<Gamma>1 out SF m"
    by (rule branch_compiles [OF 1(2,10) mgn(1) 1(7) thn [OF 1(2)]])
  let ?t2 = "endBranch ?mg t1"
  have t2: "bbs ?t2 (Suc n) \<noteq> None" "bbs ?t2 ?mg \<noteq> None" using 1(12,13) 2(3) by (auto simp: grown_def)
  define t4 where "t4 = SetInsertPoint MainCtx (Some (Suc n)) (push_block (fst F) (snd F) (Suc n) ?t2)"
  note 3 = enter_block [OF 2(2) t2(1), folded t4_def]
  have n4: "?mg < nextId t4" "nextId s7 \<le> nextId ?t2" using 1(10) 2(3) idle_facts(6) [OF 3(1)] by (auto simp: grown_def)
  have j4: "\<not> justReturned t4" using 2(8) idle_facts(8) [OF 3(1)] by simp
  obtain w b2 u1 where 4: "?vel t4 = Some (w, u1)" "ready e F R \<Gamma>2 b2 (endBranch ?mg u1)" "grown e t4 (endBranch ?mg u1)"
      "kept (nextId t4) (Suc n) t4 (endBranch ?mg u1)" "b2 = Suc n \<or> nextId t4 \<le> b2" "scope_ext \<Gamma>1 t4 \<Gamma>2 (endBranch ?mg u1)"
      "error (endBranch ?mg u1) = error t4" "\<not> justReturned (endBranch ?mg u1)"
      "\<forall>(Q :: cg) \<rho> out SF m. grown e (endBranch ?mg u1) Q \<longrightarrow> X2 \<rho> = Some out \<longrightarrow> stands Q e (Suc n) t4 \<Gamma>1 \<rho> SF m \<longrightarrow>
        leaves H Q e R ?mg (endBranch ?mg u1) \<Gamma>2 out SF m"
    by (rule branch_compiles [OF 3(2) n4(1) mgn(2) j4 els [OF 3(2) j4]])
  let ?u2 = "endBranch ?mg u1"
  have u2: "bbs ?u2 ?mg \<noteq> None" using t2(2) idle_facts(10) [OF 3(1), of ?mg] 4(3) by (auto simp: grown_def)
  define u4 where "u4 = SetInsertPoint MainCtx (Some ?mg) (push_block (fst F) (snd F) ?mg ?u2)"
  note 5 = enter_block [OF 4(2) u2, folded u4_def]
  have b: "getBuilder (push_block (fst F) (snd F) (Suc n) ?t2) = MainCtx" "getBuilder (push_block (fst F) (snd F) ?mg ?u2) = MainCtx"
    using readyD(1) [OF push_block_ready(2) [OF 2(2) t2(1)]] readyD(1) [OF push_block_ready(2) [OF 4(2) u2]] by simp_all
  have visit: "visitIfStatement (visitExpr ex) vthen velse st = Some (Some (getVoidValue u4), u4)"
    unfolding 1(1) 2(1) Option.bind.bind_lunit prod.case Let_def b(1) t4_def [symmetric]
    unfolding 4(1) Option.bind.bind_lunit prod.case b(2) u4_def [symmetric] ..
  have n: "nextId st \<le> nextId s7" "nextId st \<le> nextId t4" using 1(8,10) n4 by auto
  have g: "grown e ?t2 u4" "grown e ?u2 u4" "grown e s7 u4"
    using idle_facts(1) [OF 3(1)] 4(3) idle_facts(1) [OF 5(1)] 2(3) by (blast intro: grown_trans)+
  have sc: "scope_ext \<Gamma>1 ?t2 \<Gamma>2 u4" "scope_ext \<Gamma>2 ?u2 \<Gamma>2 u4" "scope_ext \<Gamma> s7 \<Gamma>1 t4"
    using idle_facts(3) [OF 3(1)] 4(6) idle_facts(3) [OF 5(1)] 2(6) by (blast intro: scope_ext_trans)+
  have empty: "code s7 n = []" "code t4 (Suc n) = []" "code u4 ?mg = []" "insts s7 k = []" if "n \<le> k" for k
  proof -
    show "code s7 n = []" "insts s7 k = []" using 1(11) that by simp_all
    show "code t4 (Suc n) = []"
      using code_later [OF 2(4), of "Suc n"] 1(10,11) idle_facts(9) [OF 3(1)] by simp
    have "code t4 ?mg = []" using code_later [OF 2(4), of ?mg] 1(10,11) idle_facts(9) [OF 3(1)] by simp
    then show "code u4 ?mg = []" using code_later [OF 4(4), of ?mg] n4 idle_facts(9) [OF 5(1)] by simp
  qed
  show ?thesis
  proof (rule compilesI [OF visit])
    show "ready e F R \<Gamma>2 ?mg u4" by (rule 5(2))
    show "grown e st u4" by (rule grown_trans [OF 1(3) g(3)])
    show "kept (nextId st) b st u4"
      using kept_trans [OF kept_trans [OF 1(4) kept_later [OF 2(4) n(1)]]
          kept_trans [OF idle_facts(2) [OF 3(1)] kept_trans [OF kept_later [OF 4(4) n(2)] idle_facts(2) [OF 5(1)]]]] 1(8) by simp
    show "scope_ext \<Gamma> st \<Gamma>2 u4" using 1(5) 2(6) sc(1) by (blast intro: scope_ext_trans)
    show "runs H Q e R ?mg u4 \<Gamma>2 out SF m"
      if Q: "grown e u4 Q" and out: "?Z \<rho> = Some out" and at: "stands Q e b st \<Gamma> \<rho> SF m" for Q :: cg and \<rho> out SF m
    proof -
      obtain x where x: "eval H \<rho> ex = Some x" "(if truth H x then X1 \<rho> else X2 \<rho>) = Some out" using out by (auto simp: Option.bind_eq_Some_conv)
      have Qs: "grown e s7 Q" "grown e ?t2 Q" "grown e ?u2 Q" using g Q by (blast intro: grown_trans)+
      obtain SF1 where m1: "moves H Q e (SF, m) (SF1\<lparr>CurBB := if truth H x then n else Suc n, CurInst := 0\<rparr>, m)" "frame_ok Q e SF1 m"
          "represents s7 \<Gamma> \<rho> SF1 m"
        using 1(14) Qs(1) at x(1) by blast
      have \<rho>: "dom \<rho> \<subseteq> dom \<Gamma>" using at by (simp add: stands_def)
      have arrive': "stands Q e k st' \<Gamma>' \<rho>' (SF'\<lparr>CurBB := k, CurInst := 0\<rparr>) m'"
        if "n \<le> k" "bbs s7 k \<noteq> None" "code st' k = []" "scope_ext \<Gamma>0 st0 \<Gamma>' st'" "frame_ok Q e SF' m'" "represents st0 \<Gamma>0 \<rho>' SF' m'" "dom \<rho>' \<subseteq> dom \<Gamma>0"
        for k st' \<Gamma>' \<rho>' SF' m' \<Gamma>0 st0
        by (rule arrive [OF Qs(1) that(2) empty(4) [OF that(1)] _ that(3,4,5,6,7)]) (use that(1) 1(9) in simp)
      have merge: "runs H Q e R ?mg u4 \<Gamma>2 out SF' m'" if "leaves H Q e R ?mg st0 \<Gamma>0 out SF' m'" "scope_ext \<Gamma>0 st0 \<Gamma>2 u4" for \<Gamma>0 st0 SF' m'
        using that arrive' [OF _ 1(13) empty(3) [OF order_refl] that(2)] by (cases out) (fastforce simp: leaves_def runs_def)+
      show ?thesis
      proof (cases "truth H x")
        case True
        have s: "stands Q e n s7 \<Gamma> \<rho> (SF1\<lparr>CurBB := n, CurInst := 0\<rparr>) m"
          by (rule arrive' [OF _ readyD(5) [OF 1(2)] empty(1) [OF order_refl] scope_ext_refl m1(2,3) \<rho>]) simp_all
        have "leaves H Q e R ?mg ?t2 \<Gamma>1 out (SF1\<lparr>CurBB := n, CurInst := 0\<rparr>) m" using 2(9) Qs(2) x(2) s True by simp
        then show ?thesis using runs_moves [OF m1(1)] merge sc(1) True by simp
      next
        case False
        have s: "stands Q e (Suc n) t4 \<Gamma>1 \<rho> (SF1\<lparr>CurBB := Suc n, CurInst := 0\<rparr>) m"
          by (rule arrive' [OF _ 1(12) empty(2) [OF order_refl] sc(3) m1(2,3) \<rho>]) simp_all
        have "leaves H Q e R ?mg ?u2 \<Gamma>2 out (SF1\<lparr>CurBB := Suc n, CurInst := 0\<rparr>) m" using 4(9) Qs(3) x(2) s False by simp
        then show ?thesis using runs_moves [OF m1(1)] merge sc(2) False by simp
      qed
    qed
    show "error u4 = error st" using 1(6) 2(7) 4(7) idle_facts(7) [OF 3(1)] idle_facts(7) [OF 5(1)] by simp
    show "justReturned u4 \<Longrightarrow> justReturned st \<or> (\<forall>\<rho> \<rho>'. ?Z \<rho> \<noteq> Some (Normal \<rho>'))" using 4(8) idle_facts(8) [OF 5(1)] by simp
  qed (use 1(8) in simp)
qed

subsection \<open>Blocks\<close>

lemma skip_compiles:
  assumes "ready e F R \<Gamma> b st"
  shows "compiles H e F R \<Gamma> b st (Some (v, st)) \<Gamma> (\<lambda>\<rho>. Some (Normal \<rho>))"
proof (rule compilesI [OF refl assms])
  fix Q :: cg and \<rho> out SF m
  assume "Some (Normal \<rho>) = Some out" "stands Q e b st \<Gamma> \<rho> SF m"
  then show "runs H Q e R b st \<Gamma> out SF m"
    unfolding runs_def by (auto intro!: exI [of _ SF] exI [of _ m])
qed simp_all

lemma blockLoop_step:
  assumes "ready e F R \<Gamma> b st" and "nth_opt cv i = Some True"
  shows "blockLoop cv i ((s, vs) # rest) l st = do { (v, st) \<leftarrow> vs st; blockLoop cv (Suc i) rest v st }"
  using readyD(11,12) [OF assms(1)] assms(2) by (simp add: reconGroup_def)

lemma wt_stmts_commit: "wt_stmts R \<Gamma> ss = Some \<Gamma>' \<Longrightarrow> \<forall>s \<in> set ss. statementCommits s"
  by (induction ss arbitrary: \<Gamma>) (auto simp: Option.bind_eq_Some_conv)

lemma commitVector_sequential: "\<forall>s \<in> set ss. statementCommits s \<Longrightarrow> j < length ss \<Longrightarrow> nth_opt (commitVector ss) j = Some True"
  by (simp add: commitVector_def adjustCommits_True nth_opt_def)

text \<open>Every well-typed statement, block and list of statements is compiled correctly.\<close>

lemma statements_compile:
  "ready e F R \<Gamma> b st \<Longrightarrow> wt_stmt R \<Gamma> s = Some \<Gamma>' \<Longrightarrow>
    compiles H e F R \<Gamma> b st (visitStmt s st) \<Gamma>' (\<lambda>\<rho>. exec_stmt H R \<Gamma> \<rho> s)"
  "ready e F R \<Gamma> b st \<Longrightarrow> wt_block R \<Gamma> blk = Some \<Gamma>' \<Longrightarrow>
    compiles H e F R \<Gamma> b st (visitBlk blk st) \<Gamma>' (\<lambda>\<rho>. exec_block H R \<Gamma> \<rho> blk)"
  "ready e F R \<Gamma> b st \<Longrightarrow> wt_stmts R \<Gamma> ss = Some \<Gamma>' \<Longrightarrow> \<forall>j < length ss. nth_opt cv (i + j) = Some True \<Longrightarrow>
    compiles H e F R \<Gamma> b st (blockLoop cv i (map (\<lambda>s. (s, visitStmt s)) ss) l st) \<Gamma>' (\<lambda>\<rho>. exec_stmts H R \<Gamma> \<rho> ss)"
proof (induction R \<Gamma> s and R \<Gamma> blk and R \<Gamma> ss arbitrary: b st \<Gamma>' and b st \<Gamma>' and b st \<Gamma>' cv i l rule: wt_stmt_wt_block_wt_stmts.induct)
  case (1 R \<Gamma> c d)
  then obtain t where t: "\<Gamma> (vd_ident d) = None" "wt_def \<Gamma> d = Some t" "\<Gamma>' = \<Gamma>(vd_ident d \<mapsto> t)" by (auto simp: Option.bind_eq_Some_conv)
  then obtain k x ex where d: "d = VariableDefinition k x ex False" by (cases "(\<Gamma>, d)" rule: wt_def.cases) auto
  then show ?case using definition_compiles [OF 1(1), of k x ex t H] t(1,2) unfolding t(3) d by (simp add: fun_upd_def)
next
  case (2 R \<Gamma> c x ex)
  then obtain t s where "\<Gamma> x = Some t" "typeof \<Gamma> ex = Some s" "assignable t s" "\<Gamma>' = \<Gamma>" by (auto simp: Option.bind_eq_Some_conv)
  then show ?case using assignment_compiles [OF 2(1), of x t ex s H] by simp
next
  case (3 R \<Gamma> c ex)
  then show ?case using expression_compiles [OF 3(1), of ex _ H] by (auto simp: Option.bind_eq_Some_conv)
next
  case (4 R \<Gamma> c ex)
  then obtain u s where "R = Some u" "typeof \<Gamma> ex = Some s" "assignable u s" "\<Gamma>' = \<Gamma>" by (auto simp: Option.bind_eq_Some_conv)
  then show ?case using return_compiles [of e F u \<Gamma> b st ex s H] 4(1) by simp
next
  case (5 R \<Gamma> c)
  then have "R = None" "\<Gamma>' = \<Gamma>" by (auto simp: Option.bind_eq_Some_conv)
  then show ?case using return_void_compiles [of e F \<Gamma> b st H] 5(1) by simp
next
  case (6 R \<Gamma> c ex blk eb)
  then obtain s \<Gamma>1 where s: "typeof \<Gamma> ex = Some s" "s \<noteq> BoolT" "wt_block R \<Gamma> blk = Some \<Gamma>1"
      "(case eb of None \<Rightarrow> Some \<Gamma>1 | Some b' \<Rightarrow> wt_block R \<Gamma>1 b') = Some \<Gamma>'"
    by (auto simp: Option.bind_eq_Some_conv)
  let ?X2 = "\<lambda>\<rho>. case eb of None \<Rightarrow> Some (Normal \<rho>) | Some b' \<Rightarrow> exec_block H R \<Gamma>1 \<rho> b'"
  have "compiles H e F R \<Gamma> b st (visitIfStatement (visitExpr ex) (visitBlk blk) (map_option visitBlk eb) st) \<Gamma>'
    (\<lambda>\<rho>. do { v \<leftarrow> eval H \<rho> ex; (if truth H v then exec_block H R \<Gamma> \<rho> blk else ?X2 \<rho>) })"
  proof (rule if_compiles [OF 6(3) s(1,2)])
    fix b st assume "ready e F R \<Gamma> b st"
    then show "compiles H e F R \<Gamma> b st (visitBlk blk st) \<Gamma>1 (\<lambda>\<rho>. exec_block H R \<Gamma> \<rho> blk)"
      using 6(1) [of s "()" b st \<Gamma>1] s by simp
  next
    fix b st assume r: "ready e F R \<Gamma>1 b st" and j: "\<not> justReturned st"
    show "compiles H e F R \<Gamma>1 b st (case map_option visitBlk eb of None \<Rightarrow> Some (None, st) | Some ve \<Rightarrow> ve (st\<lparr>justReturned := False\<rparr>)) \<Gamma>' ?X2"
    proof (cases eb)
      case None
      then show ?thesis using skip_compiles [OF r] s(4) by simp
    next
      case (Some b')
      have "st\<lparr>justReturned := False\<rparr> = st" using j by simp
      then show ?thesis using 6(2) [of s _ \<Gamma>1 b' b st \<Gamma>'] r s Some by simp
    qed
  qed
  moreover have "(\<lambda>\<rho>. exec_stmt H R \<Gamma> \<rho> (IfStatement c ex blk eb)) =
      (\<lambda>\<rho>. do { v \<leftarrow> eval H \<rho> ex; (if truth H v then exec_block H R \<Gamma> \<rho> blk else ?X2 \<rho>) })"
    using s(3) by (intro ext) (cases eb; simp cong: if_cong)
  ultimately show ?case by simp
next
  case (8 R \<Gamma> ss)
  show ?case
  proof (cases ss)
    case None
    then show ?thesis using skip_compiles [OF 8(2)] 8(3) by (simp add: visitBlock_def)
  next
    case (Some l)
    then have wt: "wt_stmts R \<Gamma> l = Some \<Gamma>'" using 8(3) by simp
    have "st\<lparr>executeCommit := True\<rparr> = st" using readyD(12) [OF 8(2)] by simp
    then show ?thesis
      using 8(1) [OF Some 8(2) wt] commitVector_sequential [OF wt_stmts_commit [OF wt]] readyD(11) [OF 8(2)] Some
      by (simp add: visitBlock_def comp_def)
  qed
next
  case (9 R \<Gamma>)
  then show ?case using skip_compiles [OF 9(1)] by simp
next
  case (10 R \<Gamma> s ss)
  then obtain \<Gamma>1 where g: "wt_stmt R \<Gamma> s = Some \<Gamma>1" "wt_stmts R \<Gamma>1 ss = Some \<Gamma>'" "statementCommits s"
    by (auto simp: Option.bind_eq_Some_conv)
  have cv: "nth_opt cv i = Some True" "\<forall>j < length ss. nth_opt cv (Suc i + j) = Some True"
    using 10(5) by force (use 10(5) in force)
  have "compiles H e F R \<Gamma> b st (do { (v, st') \<leftarrow> visitStmt s st; blockLoop cv (Suc i) (map (\<lambda>s. (s, visitStmt s)) ss) v st' }) \<Gamma>'
      (\<lambda>\<rho>. do { out \<leftarrow> exec_stmt H R \<Gamma> \<rho> s; (case out of Normal \<rho>' \<Rightarrow> exec_stmts H R \<Gamma>1 \<rho>' ss | Returned v \<Rightarrow> Some (Returned v)) })"
  proof (rule compiles_then)
    show "compiles H e F R \<Gamma> b st (visitStmt s st) \<Gamma>1 (\<lambda>\<rho>. exec_stmt H R \<Gamma> \<rho> s)" using 10(1,3) g by simp
    show "compiles H e F R \<Gamma>1 b' st' (blockLoop cv (Suc i) (map (\<lambda>s. (s, visitStmt s)) ss) v st') \<Gamma>' (\<lambda>\<rho>. exec_stmts H R \<Gamma>1 \<rho> ss)"
      if "ready e F R \<Gamma>1 b' st'" for v b' st'
      using 10(2) [of _ \<Gamma>1 b' st' \<Gamma>' cv "Suc i" v] g that cv(2) by simp
  qed
  then show ?case using blockLoop_step [OF 10(3) cv(1)] g(1) by (simp cong: outcome.case_cong)
qed simp_all

end
