(* ===== verification/Fork_Injections.thy ===== *)
theory Fork_Injections
  imports CG_Properties
begin

section \<open>Extern declarations and names\<close>

text \<open>
  What a list of extern declarations does to the main module, and that the renaming loops of LLVM
  always find a name.
\<close>

subsection \<open>Renaming\<close>

lemma inj_append_show: "inj (\<lambda>k. p @ show_nat k)"
  using inj_show_nat by (auto simp: inj_def)

lemma createValueName_total:
  "\<exists>n' u'. createValueName used u n = Some (n', u') \<and> n' \<notin> set used"
proof (cases "n \<in> set used")
  case True
  obtain k where k: "first_free (Suc (length used)) (\<lambda>k. n @ show_nat k) used (Suc u) = Some k"
    using first_free_enough [OF inj_append_show] by blast
  then show ?thesis
    using True first_free_Some [OF k] by (simp add: createValueName_def)
qed (simp add: createValueName_def)

lemma setArgNames_total:
  "\<exists>ns'. setArgNames used u ns = Some ns' \<and> length ns' = length ns \<and> distinct ns' \<and>
     set ns' \<inter> set used = {}"
proof (induction ns arbitrary: used u)
  case (Cons n ns)
  obtain n' u' where n': "createValueName used u n = Some (n', u')" "n' \<notin> set used"
    using createValueName_total by blast
  obtain ns' where ns': "setArgNames (n' # used) u' ns = Some ns'" "length ns' = length ns"
      "distinct ns'" "set ns' \<inter> set (n' # used) = {}"
    using Cons.IH by blast
  show ?case
    using n' ns' by (intro exI [of _ "n' # ns'"]) auto
qed simp

lemma setArgNames_distinct:
  "distinct ns \<Longrightarrow> set ns \<inter> set used = {} \<Longrightarrow> setArgNames used u ns = Some ns"
  by (induction ns arbitrary: used) (auto simp: createValueName_def)

lemma struct_unique_name_total:
  "\<exists>n' u'. struct_unique_name c n st = Some (n', u') \<and> n' \<notin> set (structNames st c)"
proof (cases "n \<in> set (structNames st c)")
  case True
  have "inj (\<lambda>k. n @ ''.'' @ show_nat k)"
    using inj_append_show [of "n @ ''.''"] by simp
  then obtain k where k: "first_free (Suc (length (structNames st c))) (\<lambda>k. n @ ''.'' @ show_nat k)
      (structNames st c) (structUnique st c) = Some k"
    using first_free_enough by blast
  then show ?thesis
    using True first_free_Some [OF k] by (simp add: struct_unique_name_def)
qed (simp add: struct_unique_name_def)

subsection \<open>Declarations\<close>

definition declType :: "string \<Rightarrow> bool \<Rightarrow> bool \<Rightarrow> lltype option" where
  "declType ty p allowsVoid =
     (if p then (if ty = ''float'' then Some (doublePtrTy MainCtx)
                 else if ty = ''int'' \<or> ty = ''void'' then Some (int64PtrTy MainCtx) else None)
      else (if ty = ''float'' then Some (TDouble MainCtx)
            else if ty = ''int'' then Some (int64Ty MainCtx)
            else if ty = ''void'' \<and> allowsVoid then Some (TVoid MainCtx) else None))"

definition argType :: "variableDefinition \<Rightarrow> lltype option" where
  "argType v = declType (stringType v) (hasPointerType v) False"

text \<open>The function an extern declaration of primitive types stands for.\<close>

fun extern_sig :: "statement \<Rightarrow> (string \<times> lfunction) option" where
  "extern_sig (ExternStatement c ty i as p) = do {
     ret \<leftarrow> declType ty p True;
     check (list_all (\<lambda>a. argType a \<noteq> None) as \<and> distinct (map vd_ident as));
     Some (i, \<lparr>fn_ret = ret, fn_args = map (\<lambda>a. (vd_ident a, the (argType a))) as, fn_blocks = []\<rparr>)
   }"
| "extern_sig _ = None"

lemma getTypeFromString_decl:
  "declType ty p v = Some t \<Longrightarrow> \<not> insideLambda st \<Longrightarrow> getTypeFromString ty p v st = Some (Some t, st)"
  by (auto simp: declType_def getTypeFromString_def getContext_def getBuilder_def split: if_splits)

lemma argTypes_decl:
  "list_all (\<lambda>a. argType a \<noteq> None) as \<Longrightarrow> \<not> insideLambda st \<Longrightarrow>
     argTypes as st = Some (Some (map (\<lambda>a. the (argType a)) as), st)"
  by (induction as) (auto simp: argType_def getTypeFromString_decl)

lemma declType_firstClass: "declType ty p False = Some t \<Longrightarrow> isFirstClassType t"
  by (auto simp: declType_def isFirstClassType_def split: if_splits)

lemma generateFunction_declares:
  assumes sig: "extern_sig (ExternStatement c ty i as p) = Some (n, f)" and out: "\<not> insideLambda st"
  shows "generateFunction p ty i as st =
    Some (Some f, st\<lparr>modules := (modules st)(MainCtx := modules st MainCtx @ [(i, f)])\<rparr>)"
proof -
  obtain ret where ret: "declType ty p True = Some ret"
    and as: "list_all (\<lambda>a. argType a \<noteq> None) as" "distinct (map vd_ident as)"
    and f: "f = \<lparr>fn_ret = ret, fn_args = map (\<lambda>a. (vd_ident a, the (argType a))) as, fn_blocks = []\<rparr>"
    using sig by (auto elim!: bind_SomeE)
  have first: "list_all (\<lambda>a. isFirstClassType (snd a)) (map (\<lambda>a. (vd_ident a, the (argType a))) as)"
    using as(1) by (auto simp: list_all_iff argType_def dest!: bspec intro: declType_firstClass)
  show ?thesis
    using first out
    by (simp add: generateFunction_def argTypes_decl [OF as(1) out] getTypeFromString_decl [OF ret out]
        setArgNames_distinct [OF as(2)] Function_Create_def zip_map_map f getModule_def Let_def
        zip_same_conv_map comp_def)
qed

lemma visitExtern_declares:
  assumes sig: "extern_sig (ExternStatement c ty i as p) = Some (n, f)" and out: "\<not> insideLambda st"
    and new: "getFunction MainCtx i st = None"
  shows "visitExternStatement ty i as p st =
    Some (Some (VoidValue MainCtx), st\<lparr>modules := (modules st)(MainCtx := modules st MainCtx @ [(n, f)])\<rparr>)"
proof -
  have "n = i" using sig by (auto elim!: bind_SomeE)
  then show ?thesis
    using generateFunction_declares [OF sig out] new out by (simp add: visitExternStatement_def getModule_def getVoidValue_def)
qed

lemma blockLoop_externs:
  assumes "map extern_sig ss = map Some fs" and "\<not> insideLambda st" and "executeCommit st"
    and "distinct (map fst (modules st MainCtx @ fs))" and "i + length ss \<le> length cv"
    and "\<And>c. c \<in> set cv \<Longrightarrow> c"
  shows "\<exists>v. blockLoop cv i (map (\<lambda>s. (s, visitStmt s)) ss) l st =
    Some (v, st\<lparr>modules := (modules st)(MainCtx := modules st MainCtx @ fs)\<rparr>)"
  using assms
proof (induction ss arbitrary: fs i l st)
  case Nil
  then show ?case by simp
next
  case (Cons s ss)
  then obtain n f fs' where fs: "fs = (n, f) # fs'" and s: "extern_sig s = Some (n, f)"
    and ss: "map extern_sig ss = map Some fs'"
    by (cases fs) (auto simp: Cons_eq_map_conv)
  from s obtain c ty i' as p where ext: "s = ExternStatement c ty i' as p" by (cases s) auto
  have n: "n = i'" using s by (auto simp: ext elim!: bind_SomeE)
  let ?st = "st\<lparr>modules := (modules st)(MainCtx := modules st MainCtx @ [(n, f)])\<rparr>"
  have "getFunction MainCtx i' st = None"
    using Cons.prems(4) by (simp add: getFunction_None fs n)
  then have visit: "visitStmt s st = Some (Some (VoidValue MainCtx), ?st)"
    using visitExtern_declares [of c ty i' as p n f st] s Cons.prems(2) by (simp add: ext)
  have idle: "reconGroup st = Some ((), st)"
    using Cons.prems(3) by (simp add: reconGroup_def)
  have "cv ! i" by (rule Cons.prems(6) [OF nth_mem]) (use Cons.prems(5) in simp)
  then have "nth_opt cv i = Some True" using Cons.prems(5) by (simp add: nth_opt_def)
  then have first: "blockLoop cv i (map (\<lambda>s. (s, visitStmt s)) (s # ss)) l st =
      blockLoop cv (Suc i) (map (\<lambda>s. (s, visitStmt s)) ss) (Some (VoidValue MainCtx)) ?st"
    using visit idle Cons.prems(2) by simp
  have out: "\<not> insideLambda ?st" "executeCommit ?st" "Suc i + length ss \<le> length cv"
    and dist: "distinct (map fst (modules ?st MainCtx @ fs'))"
    using Cons.prems(2-5) by (auto simp: fs)
  have same: "?st\<lparr>modules := (modules ?st)(MainCtx := modules ?st MainCtx @ fs')\<rparr> =
      st\<lparr>modules := (modules st)(MainCtx := modules st MainCtx @ fs)\<rparr>"
    by (simp add: fs)
  show ?case
    unfolding first same [symmetric] by (rule Cons.IH [OF ss out(1,2) dist out(3) Cons.prems(6)])
qed

text \<open>A program that only declares external functions declares exactly those, in order.\<close>

lemma externs_declared:
  assumes "map extern_sig ss = map Some fs" and "distinct (map fst fs)"
  shows "\<exists>v. compile addr (Block (Some ss)) = Some (v, (CodeGenVisitor addr)
    \<lparr>modules := (modules (CodeGenVisitor addr))(MainCtx := fs)\<rparr>)"
proof -
  have "statementCommits s" if "s \<in> set ss" for s
  proof -
    have "extern_sig s \<noteq> None"
      using assms(1) that by (metis in_set_conv_nth length_map nth_map option.distinct(1))
    then show ?thesis by (cases s) auto
  qed
  then have all: "\<forall>s \<in> set ss. statementCommits s" by blast
  have "length (commitVector ss) = length ss" by (simp add: commitVector_def)
  then show ?thesis
    using blockLoop_externs [OF assms(1) _ _ _ _ commitVector_True [OF all],
        of "CodeGenVisitor addr" 0 "commitVector ss" None] assms(2)
    by (simp add: compile_def visitBlock_def CodeGenVisitor_def comp_def)
qed

end
