(* ===== verification/CG_Function_Correct.thy ===== *)
theory CG_Function_Correct
  imports CG_Flow_Correct Fork_Injections
begin

section \<open>Compiled functions\<close>

text \<open>
  From statements to functions: the frame of a call is set up by the stack allocations at the start of
  the entry block, the arguments are copied into stack variables, the body runs, and the return
  instruction hands its value to the caller and frees the frame.

  What the interpreter takes from the machine for this is memory: \<open>mallocs_ok\<close> says of a sequence of
  requests that each returns a block that was not in use.
\<close>

subsection \<open>The stack allocations of a frame\<close>

fun mallocs_ok :: "'w host \<Rightarrow> nat list \<Rightarrow> memory \<Rightarrow> bool" where
  "mallocs_ok H [] m \<longleftrightarrow> True"
| "mallocs_ok H (n # ns) m \<longleftrightarrow> (case h_malloc H n m of (p, m') \<Rightarrow>
     p \<noteq> 0 \<and> span p n \<inter> dom m = {} \<and> dom m' = dom m \<union> span p n \<and> (\<forall>a \<in> dom m. m' a = m a) \<and> mallocs_ok H ns m')"

lemma alloc_size [simp]: "getTypeAllocSize P (lty c t) = Some (bytesize t)"
  by (cases t) (simp_all add: getTypeAllocSize_def RoundUpToAlignment_def intAlign_def)

fun alloca_size :: "'a llvm_scheme \<Rightarrow> llvalue \<Rightarrow> nat" where
  "alloca_size P (Inst i t (Alloca t' x)) = (case getTypeAllocSize P t' of Some n \<Rightarrow> n | None \<Rightarrow> 0)"
| "alloca_size P _ = 0"

lemma alloca_size_variable [simp]: "alloca_size P (variable c x t i) = bytesize t"
  by (simp add: variable_def)

lemma addr_KArg [simp]: "addr (SF\<lparr>Allocas := ps\<rparr>) = addr SF" "addr (SetValue (KInst i) g SF) i = PointerVal g"
  by (simp_all add: addr_def [abs_def] lookupValue_def SetValue_def)

lemma alloca_step:
  assumes "h_malloc H (bytesize t) m = (p, m')" and "p \<noteq> 0"
  shows "visitLocal H P (variable c x t i) (SF, m) = Some ((SetValue (KInst i) (PTOGV p) SF)\<lparr>Allocas := Allocas SF @ [p]\<rparr>, m')"
proof -
  have "max 1 (bytesize t mod 2 ^ 32) = bytesize t" by (cases t) simp_all
  then show ?thesis
    using assms by (simp add: variable_def i_visitAllocaInst_def Let_def SetValue_def check_def del: One_nat_def)
qed

definition laid_out :: "llvalue list \<Rightarrow> memory \<Rightarrow> ExecutionContext \<Rightarrow> memory \<Rightarrow> bool" where
  "laid_out As m SF m' \<longleftrightarrow> (\<forall>x t i. variable MainCtx x t i \<in> set As \<longrightarrow>
     mapped m' (addr SF i) (bytesize t) \<and> span (addr SF i) (bytesize t) \<inter> dom m = {} \<and>
     (\<forall>y s j. variable MainCtx y s j \<in> set As \<longrightarrow> i \<noteq> j \<longrightarrow> span (addr SF i) (bytesize t) \<inter> span (addr SF j) (bytesize s) = {}))"

lemma PointerVal_PTOGV [simp]: "PointerVal (PTOGV p) = p"
  by (simp add: PTOGV_def)

lemma allocas_run:
  assumes "distinct (map inst_id As)" and "\<forall>I \<in> set As. \<exists>x t i. I = variable MainCtx x t i"
    and "mallocs_ok H (map (alloca_size P) As) m"
  shows "\<exists>SF' m'. execs H P As (SF, m) = Some (SF', m') \<and> SF' = SF\<lparr>Values := Values SF', Allocas := Allocas SF'\<rparr> \<and>
    (\<forall>k. k \<notin> (KInst \<circ> inst_id) ` set As \<longrightarrow> Values SF' k = Values SF k) \<and>
    dom m \<subseteq> dom m' \<and> (\<forall>a \<in> dom m. m' a = m a) \<and> laid_out As m SF' m'"
  using assms
proof (induction As arbitrary: SF m)
  case Nil
  then show ?case by (simp add: laid_out_def)
next
  case (Cons I As)
  then obtain x t i where I: "I = variable MainCtx x t i" by auto
  obtain p m1 where p: "h_malloc H (bytesize t) m = (p, m1)" "p \<noteq> 0" "span p (bytesize t) \<inter> dom m = {}"
      "dom m1 = dom m \<union> span p (bytesize t)" "\<forall>a \<in> dom m. m1 a = m a" "mallocs_ok H (map (alloca_size P) As) m1"
    using Cons.prems(3) by (auto simp: I)
  let ?SF1 = "(SetValue (KInst i) (PTOGV p) SF)\<lparr>Allocas := Allocas SF @ [p]\<rparr>"
  from Cons.IH [OF _ _ p(6), of ?SF1] Cons.prems(1,2) obtain SF' m' where r: "execs H P As (?SF1, m1) = Some (SF', m')"
      "SF' = ?SF1\<lparr>Values := Values SF', Allocas := Allocas SF'\<rparr>"
      "\<forall>k. k \<notin> (KInst \<circ> inst_id) ` set As \<longrightarrow> Values SF' k = Values ?SF1 k"
      "dom m1 \<subseteq> dom m'" "\<forall>a \<in> dom m1. m' a = m1 a" "laid_out As m1 SF' m'"
    by auto
  have new: "i \<notin> inst_id ` set As" using Cons.prems(1) by (simp add: I)
  then have "KInst i \<notin> (KInst \<circ> inst_id) ` set As" by auto
  then have "Values SF' (KInst i) = Values ?SF1 (KInst i)" using r(3) by blast
  then have a: "addr SF' i = p" by (simp add: addr_def lookupValue_def SetValue_def)
  have old: "span (addr SF' j) (bytesize s) \<inter> dom m = {}" "span p (bytesize t) \<inter> span (addr SF' j) (bytesize s) = {}"
      "mapped m' (addr SF' j) (bytesize s)"
    if "variable MainCtx y s j \<in> set As" for y s j
    using r(6) that p(4) unfolding laid_out_def by blast+
  have "laid_out (I # As) m SF' m'"
    unfolding laid_out_def
  proof (intro allI impI conjI)
    fix y s j assume y: "variable MainCtx y s j \<in> set (I # As)"
    show "mapped m' (addr SF' j) (bytesize s)"
    proof (cases "variable MainCtx y s j \<in> set As")
      case False
      then show ?thesis using y a p(4) r(4) by (auto simp: I mapped_def)
    qed (rule old(3))
    show "span (addr SF' j) (bytesize s) \<inter> dom m = {}"
    proof (cases "variable MainCtx y s j \<in> set As")
      case False
      then show ?thesis using y a p(3) by (simp add: I)
    qed (rule old(1))
    fix z u k assume z: "variable MainCtx z u k \<in> set (I # As)" "j \<noteq> k"
    show "span (addr SF' j) (bytesize s) \<inter> span (addr SF' k) (bytesize u) = {}"
    proof (cases "variable MainCtx y s j \<in> set As \<and> variable MainCtx z u k \<in> set As")
      case True
      then show ?thesis using r(6) z(2) unfolding laid_out_def by blast
    next
      case False
      then show ?thesis using y z old(2) a by (auto simp: I)
    qed
  qed
  moreover have "SF' = SF\<lparr>Values := Values SF', Allocas := Allocas SF'\<rparr>"
    by (subst r(2)) (simp add: SetValue_def)
  moreover have "Values SF' k = Values SF k" if "k \<notin> (KInst \<circ> inst_id) ` set (I # As)" for k
    using r(3) that by (simp add: I SetValue_def)
  moreover have "execs H P (I # As) (SF, m) = Some (SF', m')" using alloca_step [OF p(1,2), of P MainCtx x i SF] r(1) by (simp add: I)
  ultimately show ?case
    using p(4,5) r(4,5) by (intro exI [of _ SF'] exI [of _ m']) auto
qed

subsection \<open>Entering a function\<close>

text \<open>The state of the compiler at the start of a function: its only block is empty and no variable is in scope.\<close>

definition slot_sizes :: "'a llvm_scheme \<Rightarrow> nat \<Rightarrow> nat list" where
  "slot_sizes Q e = map (alloca_size Q) (filter is_alloca (insts Q e))"

lemma enter_function:
  assumes ready: "ready e F R Map.empty e st" and empty: "insts st e = []" and Q: "grown e st Q"
    and mem: "mallocs_ok H (slot_sizes Q e) m" and SF: "CurBB SF = e" "CurInst SF = 0"
  obtains SF' m' where "reaches H Q (s\<lparr>ECStack := SF # fs, mem := m\<rparr>) (s\<lparr>ECStack := SF' # fs, mem := m'\<rparr>)"
    and "stands Q e e st Map.empty Map.empty SF' m'" and "CurFunction SF' = CurFunction SF" and "Caller SF' = Caller SF"
    and "\<forall>f i. Values SF' (KArg f i) = Values SF (KArg f i)"
    and "\<forall>a \<in> dom m. m' a = m a" and "footprint Q e SF' \<inter> dom m = {}"
proof -
  from grownE [OF Q readyD(6) [OF ready]] obtain As Js bb where q: "insts Q e = As @ Js" "added (nextId st) (nextId Q) As"
      "\<forall>I \<in> set Js. \<not> is_alloca I" "bbs Q e = Some bb"
    using empty by (metis append_self_conv2 not_None_eq)
  have fil: "filter is_alloca (insts Q e) = As" using q(2,3) added_alloca by (auto simp: q(1) filter_id_conv filter_empty_conv)
  have As: "distinct (map inst_id As)" "\<forall>I \<in> set As. \<exists>x t i. I = variable MainCtx x t i" using q(2) by (auto simp: added_def)
  from allocas_run [OF As, of H Q m SF] obtain SF' m' where r: "execs H Q As (SF, m) = Some (SF', m')"
      "SF' = SF\<lparr>Values := Values SF', Allocas := Allocas SF'\<rparr>"
      "\<forall>k. k \<notin> (KInst \<circ> inst_id) ` set As \<longrightarrow> Values SF' k = Values SF k" "\<forall>a \<in> dom m. m' a = m a" "laid_out As m SF' m'"
    using mem fil by (auto simp: slot_sizes_def)
  let ?SF' = "SF'\<lparr>CurInst := length As\<rparr>"
  have pc: "CurBB SF' = CurBB SF" "CurFunction SF' = CurFunction SF" "Caller SF' = Caller SF" by (subst r(2); simp)+
  have cells: "(t, i) \<in> cells Q e \<longleftrightarrow> (\<exists>x. variable MainCtx x t i \<in> set As)" for t i
    using q(1,3) by (auto simp: cells_def)
  have "bb_insts bb = [] @ As @ Js" using q(1,4) by (simp add: insts_def)
  from execs_reaches [OF _ this, of Q SF H m SF' m', where s = s and fs = fs]
  have "reaches H Q (s\<lparr>ECStack := SF # fs, mem := m\<rparr>) (s\<lparr>ECStack := ?SF' # fs, mem := m'\<rparr>)"
    using SF q(4) r(1) by simp
  moreover have "frame_ok Q e ?SF' m'"
    using r(5) unfolding frame_ok_def laid_out_def cells CurInst_irrelevant by blast
  then have "stands Q e e st Map.empty Map.empty ?SF' m'"
    using pc SF(1) empty fil by (simp add: stands_def position_def represents_def)
  moreover have "footprint Q e ?SF' \<inter> dom m = {}"
    using r(5) unfolding footprint_def laid_out_def CurInst_irrelevant by (auto simp: cells) blast
  moreover have "CurFunction ?SF' = CurFunction SF" "Caller ?SF' = Caller SF" using pc by simp_all
  moreover have "\<forall>f i. Values ?SF' (KArg f i) = Values SF (KArg f i)" using r(3) by auto
  ultimately show ?thesis using that r(4) by blast
qed

subsection \<open>Parameters\<close>

text \<open>Each argument is stored in a stack variable with the name of its parameter.\<close>

definition param_list :: "(string \<times> sty) list \<Rightarrow> (string \<times> lltype) list" where
  "param_list ps = map (\<lambda>(x, t). (x, lty MainCtx t)) ps"

definition passes :: "string \<Rightarrow> nat \<Rightarrow> sty list \<Rightarrow> sval list \<Rightarrow> ExecutionContext \<Rightarrow> bool" where
  "passes f i ts vs SF \<longleftrightarrow> length vs = length ts \<and>
     (\<forall>j < length ts. has_type (vs ! j) (ts ! j) \<and> Values SF (KArg f (i + j)) = Some (gv_of (ts ! j) (vs ! j)))"

lemma passes_Cons:
  "passes f i (t # ts) vs SF \<longleftrightarrow> (\<exists>v vs'. vs = v # vs' \<and> has_type v t \<and>
     Values SF (KArg f i) = Some (gv_of t v) \<and> passes f (Suc i) ts vs' SF)"
  by (cases vs) (auto simp: passes_def less_Suc_eq_0_disj)

lemma extend_namedValues: "extend b Is (st\<lparr>namedValues := nv\<rparr>) = (extend b Is st)\<lparr>namedValues := nv\<rparr>"
  by (simp add: extend_def)

lemma allocArgs_step:
  assumes ready: "ready e (MainCtx, f) R \<Gamma> b st"
  shows "allocArgs f i ((x, lty MainCtx t) # as) st = allocArgs f (Suc i) as
    (extend b [store_inst (new_variable e x t st) (Argument f i (lty MainCtx t)) (variable MainCtx x t (nextId st))] (new_variable e x t st))"
proof -
  note st = readyD [OF ready]
  let ?v = "variable MainCtx x t (nextId st)"
  let ?A = "st\<lparr>nextId := Suc (nextId st), bbs := (bbs st)(e := map_option (\<lambda>bb. bb\<lparr>bb_insts := ?v # bb_insts bb\<rparr>) (bbs st e))\<rparr>"
  let ?I = "Inst (Suc (nextId st)) (TVoid MainCtx) (Store (Argument f i (lty MainCtx t)) ?v)"
  have new: "new_variable e x t st = ?A\<lparr>namedValues := um_insert x (Some ?v) (namedValues st)\<rparr>" by (simp add: new_variable_def)
  have "\<not> isVoidTy (lty MainCtx t)" by (cases t) simp_all
  then have "createAlloca (getModule st, f) (lty MainCtx t) x st = Some (?v, ?A)"
    using st(3,10) by (auto simp: in_function_def createAlloca_def CreateAlloca_def InsertEntry_def check_def variable_def Let_def)
  moreover have "CreateStore (getBuilder ?A) (Argument f i (lty MainCtx t)) ?v ?A = Some (?I, extend b [?I] ?A)"
    using st(1,4) Insert_extend [of ?A MainCtx b] by (simp add: CreateStore_def getBuilder_def)
  ultimately show ?thesis by (simp add: new extend_namedValues)
qed

text \<open>Storing the arguments.\<close>

lemma parameters_compile:
  assumes "ready e (MainCtx, f) R \<Gamma> b st" and "distinct (map fst ps)" and "\<forall>p \<in> set ps. \<Gamma> (fst p) = None"
  obtains st' where "allocArgs f i (param_list ps) st = Some ((), st')" and "ready e (MainCtx, f) R (\<Gamma> ++ map_of ps) b st'"
    and "grown e st st'" and "error st' = error st" and "function_names st' = function_names st"
    and "\<forall>(Q :: cg) \<rho> vs SF m. grown e st' Q \<longrightarrow> stands Q e b st \<Gamma> \<rho> SF m \<longrightarrow> passes f i (map snd ps) vs SF \<longrightarrow>
      (\<exists>SF' m'. moves H Q e (SF, m) (SF', m') \<and> stands Q e b st' (\<Gamma> ++ map_of ps) (\<rho> ++ map_of (zip (map fst ps) vs)) SF' m')"
  using assms
proof (induction ps arbitrary: \<Gamma> i st thesis)
  case Nil
  show ?case
    by (rule Nil(1) [of st]) (use Nil(2) in \<open>auto simp: param_list_def intro: moves_refl\<close>)
next
  case (Cons p ps)
  obtain x t where p: "p = (x, t)" by (cases p)
  note r0 = Cons.prems(2) and new = Cons.prems(3,4)
  let ?st1 = "new_variable e x t st"
  let ?v = "variable MainCtx x t (nextId st)" and ?a = "Argument f i (lty MainCtx t)"
  let ?I = "store_inst ?st1 ?a ?v"
  let ?st2 = "extend b [?I] ?st1"
  have x: "\<Gamma> x = None" using new(2) by (simp add: p)
  have none: "map_of (namedValues st) x = None" using readyD(7) [OF r0] x by (simp add: declares_def)
  have r1: "ready e (MainCtx, f) R (\<Gamma>(x \<mapsto> t)) b ?st1" by (rule ready_new_variable [OF r0 x])
  have num: "numbered (nextId ?st1) [?I]" by (simp add: numbered_def)
  have r2: "ready e (MainCtx, f) R (\<Gamma>(x \<mapsto> t)) b ?st2" by (rule ready_extend [OF r1 num])
  have fresh: "\<forall>q \<in> set ps. (\<Gamma>(x \<mapsto> t)) (fst q) = None" "distinct (map fst ps)"
    using new by (auto simp: p image_iff)
  from Cons.IH [OF _ r2 fresh(2,1)] obtain st' where st': "allocArgs f (Suc i) (param_list ps) ?st2 = Some ((), st')"
      "ready e (MainCtx, f) R (\<Gamma>(x \<mapsto> t) ++ map_of ps) b st'" "grown e ?st2 st'" "error st' = error ?st2" "function_names st' = function_names ?st2"
      "\<forall>(Q :: cg) \<rho> vs SF m. grown e st' Q \<longrightarrow> stands Q e b ?st2 (\<Gamma>(x \<mapsto> t)) \<rho> SF m \<longrightarrow> passes f (Suc i) (map snd ps) vs SF \<longrightarrow>
        (\<exists>SF' m'. moves H Q e (SF, m) (SF', m') \<and> stands Q e b st' (\<Gamma>(x \<mapsto> t) ++ map_of ps) (\<rho> ++ map_of (zip (map fst ps) vs)) SF' m')"
    by metis
  have xs: "x \<notin> set (map fst ps)" using new(1) by (simp add: p)
  have env: "g(x \<mapsto> u) ++ map_of h = g ++ map_of ((x, u) # h)" if "fst ` set h \<subseteq> set (map fst ps)" for g :: "string \<Rightarrow> 'z option" and u h
  proof -
    have "x \<notin> dom (map_of h)" using that xs by (auto simp: dom_map_of_conv_image_fst)
    then show ?thesis by (simp add: map_add_upd_left)
  qed
  have g12: "grown e ?st1 ?st2" by (rule grown_extend [OF readyD(5) [OF r1] num])
  have grown: "grown e st st'"
    using grown_trans [OF grown_trans [OF grown_new_variable [OF readyD(6) [OF r0]] g12] st'(3)] .
  have args: "allocArgs f i (param_list (p # ps)) st = Some ((), st')"
    using allocArgs_step [OF r0, of i x t "param_list ps"] st'(1) by (simp add: p param_list_def)
  have run: "\<exists>SF' m'. moves H Q e (SF, m) (SF', m') \<and> stands Q e b st' (\<Gamma> ++ map_of (p # ps)) (\<rho> ++ map_of (zip (map fst (p # ps)) vs)) SF' m'"
    if Q: "grown e st' Q" and at: "stands Q e b st \<Gamma> \<rho> SF m" and vs: "passes f i (map snd (p # ps)) vs SF" for Q :: cg and \<rho> vs SF m
  proof -
    obtain v vs' where v: "vs = v # vs'" "has_type v t" "Values SF (KArg f i) = Some (gv_of t v)" "passes f (Suc i) (map snd ps) vs' SF"
      using vs by (auto simp: p passes_Cons)
    have 1: "stands Q e b ?st1 (\<Gamma>(x \<mapsto> t)) (\<rho>(x := None)) SF m" by (rule stands_new_variable [OF r0 x at])
    have Q2: "grown e ?st2 Q" using grown_trans [OF st'(3) Q] .
    have h: "holds ?a t v SF" using v(2,3) by (simp add: holds_def getOperandValue_def lookupValue_def)
    have nv: "map_of (namedValues ?st1) x = Some (Some ?v)" using none by simp
    from store_moves [OF r1 _ _ nv Q2 1 h, of H] obtain SF1 m1 where 2: "moves H Q e (SF, m) (SF1, m1)"
        "stands Q e b ?st2 (\<Gamma>(x \<mapsto> t)) (\<rho>(x \<mapsto> v)) SF1 m1"
      by auto
    have "passes f (Suc i) (map snd ps) vs' SF1" using v(4) movesD(5) [OF 2(1)] by (simp add: passes_def)
    from st'(6) [rule_format, OF Q 2(2) this] obtain SF' m' where 3: "moves H Q e (SF1, m1) (SF', m')"
        "stands Q e b st' (\<Gamma>(x \<mapsto> t) ++ map_of ps) (\<rho>(x \<mapsto> v) ++ map_of (zip (map fst ps) vs')) SF' m'"
      by blast
    moreover have "fst ` set (zip (map fst ps) vs') \<subseteq> set (map fst ps)" by (auto dest: set_zip_leftD)
    ultimately show ?thesis
      using moves_trans [OF 2(1) 3(1)] v(1) p env [of ps] env [of "zip (map fst ps) vs'"]
      by (intro exI [of _ SF'] exI [of _ m']) simp
  qed
  have ready: "ready e (MainCtx, f) R (\<Gamma> ++ map_of (p # ps)) b st'" using st'(2) env [of ps] by (simp add: p)
  show ?case by (rule Cons.prems(1) [OF args ready grown]) (use st'(4,5) run in simp, use st'(4,5) in simp, use run in blast)
qed

subsection \<open>A function stays what it is\<close>

text \<open>Nothing the code generator does changes the signature or the entry block of a function.\<close>

definition has_entry :: "string \<Rightarrow> lltype \<Rightarrow> (string \<times> lltype) list \<Rightarrow> nat \<Rightarrow> 'a llvm_scheme \<Rightarrow> bool" where
  "has_entry f r as e st \<longleftrightarrow> (\<exists>bs. getFunction MainCtx f st = Some \<lparr>fn_ret = r, fn_args = as, fn_blocks = e # bs\<rparr>)"

lemma has_entry_modules: "has_entry f r as e st \<Longrightarrow> modules st' = modules st \<Longrightarrow> has_entry f r as e st'"
  by (simp add: has_entry_def getFunction_def)

lemma map_of_map_other:
  "n \<noteq> k \<Longrightarrow> map_of (map (\<lambda>(x, g). if x = n then (x, h g) else (x, g)) xs) k = map_of xs k"
  by (induction xs) auto

lemma has_entry_push: "has_entry f r as e st \<Longrightarrow> has_entry f r as e (push_block c n b st)"
  by (cases "n = f \<and> c = MainCtx")
    (auto simp: has_entry_def getFunction_def push_block_def update_function_def Let_def map_of_map_update map_of_map_other)

lemma has_entry_declare:
  "has_entry f r as e st \<Longrightarrow> has_entry f r as e (st\<lparr>modules := (modules st)(c := modules st c @ [(n, g)])\<rparr>)"
  by (auto simp: has_entry_def getFunction_def map_add_def)

lemma has_entry_lambda: "has_entry f r as e st \<Longrightarrow> has_entry f r as e (st\<lparr>modules := (modules st)(LambdaCtx := [])\<rparr>)"
  by (simp add: has_entry_def getFunction_def)

interpretation sg: block_inv "has_entry f r as e" for f r as e
  by unfold_locales
    (auto simp: Insert_def Let_def BasicBlock_Create_def SetInsertPoint_def elim!: frame_elims split: option.splits
      intro: has_entry_push has_entry_declare has_entry_lambda has_entry_modules)

subsection \<open>The start of a function\<close>

definition toplevel :: "cg \<Rightarrow> bool" where
  "toplevel st \<longleftrightarrow> \<not> insideLambda st \<and> executeCommit st \<and> \<not> recon st \<and> fresh st"

definition signature :: "sty option \<Rightarrow> (string \<times> sty) list \<Rightarrow> lfunction" where
  "signature R ps = \<lparr>fn_ret = ret_ty R, fn_args = param_list ps, fn_blocks = []\<rparr>"

definition begin_function :: "string \<Rightarrow> lfunction \<Rightarrow> cg \<Rightarrow> cg" where
  "begin_function f g st = (SetInsertPoint MainCtx (Some (nextId st)) (push_block MainCtx f (nextId st)
     (snd (BasicBlock_Create ''func'' (st\<lparr>modules := (modules st)(MainCtx := modules st MainCtx @ [(f, g)])\<rparr>)))))\<lparr>namedValues := []\<rparr>"

lemma begin_function_facts:
  fixes R :: "sty option" and ps :: "(string \<times> sty) list"
  assumes top: "toplevel st" and new: "getFunction MainCtx f st = None"
  defines "st' \<equiv> begin_function f (signature R ps) st"
  shows "ready (nextId st) (MainCtx, f) R Map.empty (nextId st) st'" and "insts st' (nextId st) = []"
    and "has_entry f (ret_ty R) (param_list ps) (nextId st) st'" and "error st' = error st" and "function_names st' = function_names st @ [f]"
    and "\<And>b. b \<noteq> nextId st \<Longrightarrow> bbs st' b = bbs st b" and "nextId st' = Suc (nextId st)"
proof -
  let ?e = "nextId st"
  let ?g = "\<lparr>fn_ret = ret_ty R, fn_args = param_list ps, fn_blocks = [?e]\<rparr>"
  note defs = st'_def begin_function_def SetInsertPoint_def push_block_def update_function_def BasicBlock_Create_def Let_def
  show bbs: "bbs st' b = bbs st b" if "b \<noteq> ?e" for b using that by (simp add: defs)
  have bb: "bbs st' ?e = Some \<lparr>bb_parent = Some (MainCtx, f), bb_name = ''func'', bb_insts = []\<rparr>" by (simp add: defs)
  then show ins: "insts st' ?e = []" by (simp add: insts_def)
  show nxt: "nextId st' = Suc ?e" "error st' = error st" "function_names st' = function_names st @ [f]"
    by (simp_all add: defs function_names_def)
  have f: "getFunction MainCtx f st' = Some ?g"
    using new by (simp add: defs getFunction_def map_of_map_update map_add_def signature_def)
  then show "has_entry f (ret_ty R) (param_list ps) ?e st'" by (simp add: has_entry_def)
  have "insert_function MainCtx st' = Some (MainCtx, f)" using bb by (simp add: insert_function_def, simp add: defs)
  then have "in_function ?e (MainCtx, f) R ?e st'"
    using top f bb unfolding in_function_def by (auto simp: toplevel_def) (simp_all add: defs)
  moreover have "fresh st'"
    using top ins bbs unfolding fresh_def toplevel_def nxt
    by (metis (no_types, lifting) empty_iff insts_def less_SucI lessI list.set(1))
  moreover have "scoped ?e st' Map.empty" by (simp add: scoped_def declares_def) (simp add: defs)
  ultimately show "ready ?e (MainCtx, f) R Map.empty ?e st'" by (simp add: ready_def)
qed

lemma param_argType: "param v = Some (x, t) \<Longrightarrow> argType v = Some (lty MainCtx t) \<and> vd_ident v = x"
  by (cases v rule: param.cases) (auto simp: argType_def declType_def keyword_type_def split: if_splits)

lemma signature_params:
  assumes "those (map param as) = Some ps" and "return_type k = Some R" and "distinct (map fst ps)"
  shows "extern_sig (ExternStatement c k f as False) = Some (f, signature R ps)"
proof -
  have ps: "list_all2 (\<lambda>v p. argType v = Some (lty MainCtx (snd p)) \<and> vd_ident v = fst p) as ps"
    using assms(1) unfolding those_map_list_all2 by (rule list_all2_mono) (metis param_argType prod.collapse)
  then have "map vd_ident as = map fst ps" "map (\<lambda>a. (vd_ident a, the (argType a))) as = param_list ps"
      "list_all (\<lambda>a. argType a \<noteq> None) as"
    unfolding param_list_def by (induction as ps rule: list_all2_induct) auto
  moreover have "declType k False True = Some (ret_ty R)"
    using assms(2) by (auto simp: return_type_def keyword_type_def declType_def split: if_splits)
  ultimately show ?thesis using assms(3) by (simp add: signature_def check_def)
qed

lemma visitFunctionDefinition_start:
  assumes "toplevel st" and "getFunction MainCtx f st = None"
    and "extern_sig (ExternStatement False k f as False) = Some (f, signature R ps)"
  shows "visitFunctionDefinition (Some k) u f as vb False st =
    do { (_, st) \<leftarrow> allocArgs f 0 (param_list ps) (begin_function f (signature R ps) st); vb st }"
proof -
  have out: "\<not> insideLambda st" using assms(1) by (simp add: toplevel_def)
  have push: "insideLambda (push_block c g b s) = insideLambda s" for c g b and s :: cg
    by (simp add: push_block_def update_function_def Let_def)
  have "insideLambda (SetInsertPoint c b s) = insideLambda s" for c b and s :: cg by (simp add: SetInsertPoint_def)
  then show ?thesis
    using generateFunction_declares [OF assms(3) out] assms(2) out push
    by (simp add: visitFunctionDefinition_def signature_def begin_function_def getModule_def getBuilder_def Let_def
        BasicBlock_Create_def cong: if_cong)
qed

subsection \<open>Returning\<close>

definition pops :: "'w host \<Rightarrow> sty option \<Rightarrow> sval option \<Rightarrow> 'w interp \<Rightarrow> 'w interp option" where
  "pops H R v s = (case v of
     None \<Rightarrow> popStackAndReturnValueToCaller H (TVoid MainCtx) GenericValue s
   | Some y \<Rightarrow> popStackAndReturnValueToCaller H (ret_ty R) (gv_of (the R) y) s)"

lemma returns_pops:
  assumes "returns H Q e R v SF m"
  obtains SF' m' where "moves H Q e (SF, m) (SF', m')"
    and "\<forall>s fs s'. pops H R v (s\<lparr>ECStack := SF'\<lparr>CurInst := Suc (CurInst SF')\<rparr> # fs, mem := m'\<rparr>) = Some s' \<longrightarrow>
      reaches H Q (s\<lparr>ECStack := SF # fs, mem := m\<rparr>) s'"
proof -
  from assms obtain SF' m' i t r bb where 1: "moves H Q e (SF, m) (SF', m')" "bbs Q (CurBB SF') = Some bb"
      "CurInst SF' < length (bb_insts bb)" "bb_insts bb ! CurInst SF' = Inst i t (Ret r)"
      "case v of None \<Rightarrow> r = None | Some y \<Rightarrow> \<exists>w u. R = Some u \<and> r = Some w \<and> getType w = lty MainCtx u \<and> holds w u y SF'"
    unfolding returns_def by blast
  have "reaches H Q (s\<lparr>ECStack := SF # fs, mem := m\<rparr>) s'"
    if "pops H R v (s\<lparr>ECStack := SF'\<lparr>CurInst := Suc (CurInst SF')\<rparr> # fs, mem := m'\<rparr>) = Some s'" for s fs s'
  proof (rule reaches_trans [OF movesD(1) [OF 1(1)] reaches_step])
    show "i_step H Q (s\<lparr>ECStack := SF' # fs, mem := m'\<rparr>) = Some s'"
      using that 1(2-5) by (cases v) (auto simp: pops_def i_step_def i_visitReturnInst_def holds_def interp_swap)
  qed
  then show ?thesis using that 1(1) by blast
qed

subsection \<open>Calling a compiled function\<close>

definition answers :: "'w host \<Rightarrow> 'a llvm_scheme \<Rightarrow> string \<Rightarrow> sty list \<Rightarrow> sval list \<Rightarrow> sty option \<Rightarrow> sval option \<Rightarrow> 'w interp \<Rightarrow> bool" where
  "answers H Q f ts vs R v s \<longleftrightarrow> (\<exists>s0 SF m. callFunction H Q (MainCtx, f) (map2 gv_of ts vs) s = Some s0 \<and>
     (\<forall>a \<in> dom (mem s). m a = mem s a) \<and>
     (\<forall>s'. pops H R v (s\<lparr>ECStack := SF # ECStack s, mem := m\<rparr>) = Some s' \<longrightarrow> reaches H Q s0 s'))"

lemma arguments_lookup:
  "j < length gs \<Longrightarrow> map_of (map (\<lambda>(k, v). (KArg f k, v)) (enumerate 0 gs)) (KArg f j) = Some (gs ! j)"
proof -
  assume j: "j < length gs"
  let ?xs = "map (\<lambda>(k, v). (KArg f k, v)) (enumerate 0 gs)"
  have "map fst ?xs = map (KArg f) [0..<length gs]" by (rule nth_equalityI) (simp_all add: nth_enumerate_eq)
  then have "distinct (map fst ?xs)" by (simp only: distinct_map) (simp add: inj_on_def)
  moreover have "(KArg f j, gs ! j) \<in> set ?xs" using j by (force simp: in_set_enumerate_eq)
  ultimately show ?thesis by simp
qed

lemma function_answers:
  fixes Q :: cg
  assumes ready: "ready e (MainCtx, f) R Map.empty e st" and empty: "insts st e = []" and Q: "grown e st Q"
    and entry: "has_entry f (ret_ty R) (param_list ps) e Q"
    and body: "\<And>SF m. stands Q e e st Map.empty Map.empty SF m \<Longrightarrow> passes f 0 (map snd ps) vs SF \<Longrightarrow> returns H Q e R v SF m"
    and vs: "list_all2 has_type vs (map snd ps)" and mem: "mallocs_ok H (slot_sizes Q e) (mem s)"
  shows "answers H Q f (map snd ps) vs R v s"
proof -
  let ?gvs = "map2 gv_of (map snd ps) vs"
  let ?SF = "\<lparr>CurFunction = (MainCtx, f), CurBB = e, CurInst = 0, Caller = None,
    Values = map_of (map (\<lambda>(k, v). (KArg f k, v)) (enumerate 0 ?gvs)), Allocas = []\<rparr>"
  have len: "length vs = length ps" using vs by (simp add: list_all2_conv_all_nth)
  have call: "callFunction H Q (MainCtx, f) ?gvs s = Some (s\<lparr>ECStack := ?SF # ECStack s\<rparr>)"
    using entry len by (auto simp: has_entry_def callFunction_def param_list_def check_def)
  have pc: "CurBB ?SF = e" "CurInst ?SF = 0" by simp_all
  obtain SF1 m1 where
      1: "reaches H Q (s\<lparr>ECStack := ?SF # ECStack s, mem := mem s\<rparr>) (s\<lparr>ECStack := SF1 # ECStack s, mem := m1\<rparr>)"
      "stands Q e e st Map.empty Map.empty SF1 m1" "CurFunction SF1 = CurFunction ?SF" "Caller SF1 = Caller ?SF"
      "\<forall>f i. Values SF1 (KArg f i) = Values ?SF (KArg f i)"
      "\<forall>a \<in> dom (mem s). m1 a = mem s a" "footprint Q e SF1 \<inter> dom (mem s) = {}"
    by (rule enter_function [OF ready empty Q mem pc])
  have arg: "Values ?SF (KArg f j) = Some (gv_of (map snd ps ! j) (vs ! j))" if "j < length ps" for j
    using arguments_lookup [of j ?gvs f] that len by simp
  have "passes f 0 (map snd ps) vs SF1"
    using arg 1(5) vs len by (simp add: passes_def list_all2_conv_all_nth)
  from returns_pops [OF body [OF 1(2) this]] obtain SF2 m2 where
      2: "moves H Q e (SF1, m1) (SF2, m2)"
      "\<forall>s fs s'. pops H R v (s\<lparr>ECStack := SF2\<lparr>CurInst := Suc (CurInst SF2)\<rparr> # fs, mem := m2\<rparr>) = Some s' \<longrightarrow>
        reaches H Q (s\<lparr>ECStack := SF1 # fs, mem := m1\<rparr>) s'"
    by metis
  have "m2 a = mem s a" if "a \<in> dom (mem s)" for a
    using movesD(8) [OF 2(1)] 1(6,7) that by (metis disjoint_iff)
  then show ?thesis
    unfolding answers_def using call 2(2) reaches_trans [OF 1(1)]
    by (intro exI [of _ "s\<lparr>ECStack := ?SF # ECStack s\<rparr>"] exI [of _ "SF2\<lparr>CurInst := Suc (CurInst SF2)\<rparr>"] exI [of _ m2]) simp
qed

text \<open>A new function leaves the code of the others alone.\<close>

lemma grown_new_function:
  assumes "grown e P Q" and "\<And>b. b \<noteq> e \<Longrightarrow> bbs P b = bbs st b" and "bbs st e = None" and "nextId st \<le> nextId P"
  shows "grown x st Q"
  unfolding grown_def
proof (intro conjI allI impI)
  show "nextId st \<le> nextId Q" using assms(1,4) by (simp add: grown_def)
  fix b assume b: "bbs st b \<noteq> None"
  then have "b \<noteq> e" using assms(3) by auto
  then have P: "bbs P b = bbs st b" "insts P b = insts st b" using assms(2) by (simp_all add: insts_def)
  then obtain Js where "insts Q b = insts st b @ Js" "\<forall>I \<in> set Js. \<not> is_alloca I" "bbs Q b \<noteq> None"
    using grownE [OF assms(1), of b] b \<open>b \<noteq> e\<close> by (metis append_Nil)
  then show "bbs Q b \<noteq> None" "\<exists>As Js. insts Q b = As @ insts st b @ Js \<and> added (nextId st) (nextId Q) As \<and>
      (\<forall>I \<in> set Js. \<not> is_alloca I) \<and> (b \<noteq> x \<longrightarrow> As = [])"
    by (simp, intro exI [of _ "[]"] exI [of _ Js]) simp
qed

lemma exec_functionD:
  assumes "exec_function H (FunctionDefinition c (Some k) u f as body False) vs = Some r"
    and "return_type k = Some R" and "those (map param as) = Some ps"
  shows "list_all2 has_type vs (map snd ps)" and "exec_block H R (map_of ps) (map_of (zip (map fst ps) vs)) body = Some (Returned r)"
proof -
  obtain out where out: "list_all2 has_type vs (map snd ps)" "exec_block H R (map_of ps) (map_of (zip (map fst ps) vs)) body = Some out"
      "(case out of Returned v \<Rightarrow> Some v | Normal \<rho> \<Rightarrow> None) = Some r"
    using assms by (auto simp: Option.bind_eq_Some_conv)
  show "list_all2 has_type vs (map snd ps)" by fact
  show "exec_block H R (map_of ps) (map_of (zip (map fst ps) vs)) body = Some (Returned r)" using out by (cases out) auto
qed

definition computes_function :: "'w host \<Rightarrow> statement \<Rightarrow> string \<Rightarrow> nat \<Rightarrow> sty option \<Rightarrow> (string \<times> sty) list \<Rightarrow> cg \<Rightarrow> bool" where
  "computes_function H fn f e R ps st' \<longleftrightarrow> has_entry f (ret_ty R) (param_list ps) e st' \<and>
     (\<forall>(Q :: cg) vs r s. grown e st' Q \<longrightarrow> has_entry f (ret_ty R) (param_list ps) e Q \<longrightarrow> exec_function H fn vs = Some r \<longrightarrow>
        mallocs_ok H (slot_sizes Q e) (mem s) \<longrightarrow> answers H Q f (map snd ps) vs R r s)"

lemma function_compiles:
  assumes top: "toplevel st" and new: "getFunction MainCtx f st = None"
    and fn: "fn = FunctionDefinition c (Some k) u f as body False"
    and sig: "return_type k = Some R" "those (map param as) = Some ps" "distinct (map fst ps)"
    and wt: "wt_block R (map_of ps) body = Some \<Gamma>'"
  obtains v st' where "visitStmt fn st = Some (v, st')" and "toplevel st'" and "error st' = error st" and "\<forall>x. grown x st st'"
    and "function_names st' = function_names st @ [f]" and "computes_function H fn f (nextId st) R ps st'"
proof -
  let ?e = "nextId st"
  let ?st0 = "begin_function f (signature R ps) st"
  note st0 = begin_function_facts [OF top new, where R = R and ps = ps]
  have none: "\<forall>p \<in> set ps. Map.empty (fst p) = (None :: sty option)" by simp
  obtain st1 where args: "allocArgs f 0 (param_list ps) ?st0 = Some ((), st1)" "ready ?e (MainCtx, f) R (Map.empty ++ map_of ps) ?e st1"
      "grown ?e ?st0 st1" "error st1 = error ?st0" "function_names st1 = function_names ?st0"
      "\<forall>(Q :: cg) \<rho> vs SF m. grown ?e st1 Q \<longrightarrow> stands Q ?e ?e ?st0 Map.empty \<rho> SF m \<longrightarrow> passes f 0 (map snd ps) vs SF \<longrightarrow>
        (\<exists>SF' m'. moves H Q ?e (SF, m) (SF', m') \<and>
           stands Q ?e ?e st1 (Map.empty ++ map_of ps) (\<rho> ++ map_of (zip (map fst ps) vs)) SF' m')"
    by (rule parameters_compile [OF st0(1) sig(3) none])
  note 1 = args [unfolded empty_map_add, rule_format]
  from statements_compile(2) [OF 1(2) wt, of H] obtain v b st2 where 2: "visitBlk body st1 = Some (v, st2)" "ready ?e (MainCtx, f) R \<Gamma>' b st2"
      "grown ?e st1 st2" "error st2 = error st1" "scope_ext (map_of ps) st1 \<Gamma>' st2"
      "\<And>(Q :: cg) \<rho> out SF m. grown ?e st2 Q \<Longrightarrow> exec_block H R (map_of ps) \<rho> body = Some out \<Longrightarrow>
        stands Q ?e ?e st1 (map_of ps) \<rho> SF m \<Longrightarrow> runs H Q ?e R b st2 \<Gamma>' out SF m"
    unfolding compiles_def by blast
  have "visitStmt fn st = visitBlk body st1"
    using visitFunctionDefinition_start [OF top new signature_params [OF sig(2,1,3)]] 1(1) by (simp add: fn)
  then have visit: "visitStmt fn st = Some (v, st2)" using 2(1) by simp
  have "bbs st ?e = None" using top unfolding toplevel_def fresh_def by blast
  then have grown: "grown x st st2" for x
    using grown_new_function [OF grown_trans [OF 1(3) 2(3)]] st0(6,7) by (metis le_SucI order_refl)
  have entry: "has_entry f (ret_ty R) (param_list ps) ?e st2"
    using sg.outs_allocArgs [OF st0(3), of f 0 "param_list ps"] 1(1) 2(1)
      keepsD [OF sg.keeps_visitBlk, of f "ret_ty R" "param_list ps" ?e st1 body] by (simp add: outs_def)
  have "answers H Q f (map snd ps) vs R r s"
    if Q: "grown ?e st2 Q" and e: "has_entry f (ret_ty R) (param_list ps) ?e Q" and r: "exec_function H fn vs = Some r"
      and m: "mallocs_ok H (slot_sizes Q ?e) (mem s)" for Q :: cg and vs r s
  proof (rule function_answers [OF st0(1,2) grown_trans [OF grown_trans [OF 1(3) 2(3)] Q] e _ _ m])
    have vs: "list_all2 has_type vs (map snd ps)" "exec_block H R (map_of ps) (map_of (zip (map fst ps) vs)) body = Some (Returned r)"
      by (rule exec_functionD [OF r [unfolded fn] sig(1,2)])+
    then show "list_all2 has_type vs (map snd ps)" by simp
    fix SF m assume "stands Q ?e ?e ?st0 Map.empty Map.empty SF m" "passes f 0 (map snd ps) vs SF"
    from 1(6) [OF grown_trans [OF 2(3) Q] this] obtain SF' m' where
        3: "moves H Q ?e (SF, m) (SF', m')" "stands Q ?e ?e st1 (map_of ps) (map_of (zip (map fst ps) vs)) SF' m'" by auto
    show "returns H Q ?e R r SF m"
      using runs_moves [OF 3(1) 2(6) [OF Q vs(2) 3(2)]] by (simp add: runs_def)
  qed
  then have "computes_function H fn f ?e R ps st2" using entry by (simp add: computes_function_def)
  moreover have "toplevel st2" using readyD(8,11,12,13) [OF 2(2)] by (simp add: toplevel_def)
  moreover have "function_names st2 = function_names st @ [f]" using 1(5) 2(5) st0(5) by (simp add: scope_ext_def)
  ultimately show ?thesis using that visit grown st0(4) 1(4) 2(4) by simp
qed

subsection \<open>Programs\<close>

lemma computes_function_later:
  assumes "computes_function H fn f e R ps st" and "grown e st st'" and "has_entry f (ret_ty R) (param_list ps) e st'"
  shows "computes_function H fn f e R ps st'"
  using assms grown_trans unfolding computes_function_def by blast

text \<open>The definition of a function of the program: name, return type, parameters.\<close>

fun function_sig :: "statement \<Rightarrow> (string \<times> sty option \<times> (string \<times> sty) list) option" where
  "function_sig (FunctionDefinition c (Some k) u f as body False) = do {
     R \<leftarrow> return_type k; ps \<leftarrow> those (map param as); Some (f, R, ps) }"
| "function_sig _ = None"

definition function_in :: "'w host \<Rightarrow> statement \<Rightarrow> cg \<Rightarrow> bool" where
  "function_in H fn st \<longleftrightarrow> (\<exists>f R ps e. function_sig fn = Some (f, R, ps) \<and> computes_function H fn f e R ps st)"

lemma wt_functionE:
  assumes "wt_function fn"
  obtains c k u f as body R ps \<Gamma> where "fn = FunctionDefinition c (Some k) u f as body False"
    and "return_type k = Some R" and "those (map param as) = Some ps" and "distinct (map fst ps)" and "wt_block R (map_of ps) body = Some \<Gamma>"
    and "function_sig fn = Some (f, R, ps)"
  using assms by (cases fn rule: wt_function.cases) (auto split: option.splits)

lemma function_in_later:
  assumes "function_in H fn st" and "visitStmt s st = Some (v, st')" and "\<forall>x. grown x st st'"
  shows "function_in H fn st'"
proof -
  obtain f R ps e where f: "function_sig fn = Some (f, R, ps)" "computes_function H fn f e R ps st"
    using assms(1) by (auto simp: function_in_def)
  then have "has_entry f (ret_ty R) (param_list ps) e st" by (simp add: computes_function_def)
  then have "has_entry f (ret_ty R) (param_list ps) e st'"
    using keepsD [OF sg.keeps_visitStmt] assms(2) by (metis outsD)
  then show ?thesis using computes_function_later f assms(3) unfolding function_in_def by blast
qed

lemma functions_compile:
  assumes "toplevel st" and "\<forall>fn \<in> set fns. wt_function fn" and "distinct (function_names st @ map (\<lambda>fn. fst (the (function_sig fn))) fns)"
    and "\<forall>j < length fns. nth_opt cv (i + j) = Some True"
  shows "\<exists>v st'. blockLoop cv i (map (\<lambda>s. (s, visitStmt s)) fns) l st = Some (v, st') \<and> toplevel st' \<and> error st' = error st \<and>
    (\<forall>g. function_in H g st \<longrightarrow> function_in H g st') \<and> (\<forall>fn \<in> set fns. function_in H fn st')"
  using assms
proof (induction fns arbitrary: i l st)
  case (Cons fn fns)
  obtain c k u f as body R ps \<Gamma> where fn: "fn = FunctionDefinition c (Some k) u f as body False"
      "return_type k = Some R" "those (map param as) = Some ps" "distinct (map fst ps)" "wt_block R (map_of ps) body = Some \<Gamma>"
      "function_sig fn = Some (f, R, ps)"
    using Cons.prems(2) wt_functionE [of fn] by (metis list.set_intros(1))
  have "getFunction MainCtx f st = None"
    using Cons.prems(3) fn(6) by (auto simp: getFunction_None function_names_def)
  from function_compiles [OF Cons.prems(1) this fn(1-5), of H] obtain v st1 where
      1: "visitStmt fn st = Some (v, st1)" "toplevel st1" "error st1 = error st" "\<forall>x. grown x st st1"
      "function_names st1 = function_names st @ [f]" "computes_function H fn f (nextId st) R ps st1"
    by metis
  have cv: "nth_opt cv i = Some True" "\<forall>j < length fns. nth_opt cv (Suc i + j) = Some True"
    using Cons.prems(4) by force (use Cons.prems(4) in force)
  have new: "\<forall>fn \<in> set fns. wt_function fn" "distinct (function_names st1 @ map (\<lambda>fn. fst (the (function_sig fn))) fns)"
    using Cons.prems(2,3) fn(6) 1(5) by auto
  from Cons.IH [OF 1(2) new cv(2), of v] obtain w st2 where
      2: "blockLoop cv (Suc i) (map (\<lambda>s. (s, visitStmt s)) fns) v st1 = Some (w, st2)" "toplevel st2" "error st2 = error st1"
      "\<forall>g. function_in H g st1 \<longrightarrow> function_in H g st2" "\<forall>fn \<in> set fns. function_in H fn st2"
    by blast
  have "blockLoop cv i (map (\<lambda>s. (s, visitStmt s)) (fn # fns)) l st = Some (w, st2)"
    using 1(1) 2(1) cv(1) Cons.prems(1) by (simp add: reconGroup_def toplevel_def)
  moreover have "function_in H fn st1" using 1(6) fn(6) by (auto simp: function_in_def)
  moreover have "function_in H g st1" if "function_in H g st" for g by (rule function_in_later [OF that 1(1,4)])
  ultimately show ?case using 2 1(3) by auto
qed simp

end
