(* ===== verification/CG_Claims.thy ===== *)
theory CG_Claims
  imports Fork_Injections
begin

section \<open>Properties of the compiler\<close>

text \<open>
  Theorems about \<^verbatim>\<open>codeGenVisitor.cpp\<close>, \<^verbatim>\<open>node.cpp\<close>, \<^verbatim>\<open>yy_overrides.h\<close> and \<^verbatim>\<open>main.cpp\<close> for whole
  programs, derived from the invariants.
\<close>

subsection \<open>The initial state\<close>

lemma initial_ok [simp]:
  "diag_ok [] (CodeGenVisitor addr)" "maps_ok (CodeGenVisitor addr)" "ir_ok (CodeGenVisitor addr)"
  "outside_ok (CodeGenVisitor addr)" "control 0 [] 0 None [] (CodeGenVisitor addr)"
  by (simp_all add: CodeGenVisitor_def diag_ok_def maps_ok_def ir_ok_def outside_ok_def control_def)

lemma compile_keeps: "keeps P (visitBlk root) \<Longrightarrow> P (CodeGenVisitor addr) \<Longrightarrow>
    compile addr root = Some (v, st) \<Longrightarrow> P st"
  by (auto simp: compile_def keeps_def dest: outsD)

lemma inj_lambda_name: "inj lambda_name"
  using inj_show_nat by (auto simp: inj_def lambda_name_def)

lemma executeMain_error:
  "error st \<Longrightarrow> executeMain fs st = Some (False, st\<lparr>outLog := outLog st @ [''Main execution halted due to errors'']\<rparr>)"
  by (simp add: executeMain_def)

subsection \<open>Small programs for the witnesses\<close>

definition main_fn :: "statement list \<Rightarrow> statement" where
  "main_fn ss = FunctionDefinition False (Some ''void'') None ''main'' [] (Block (Some ss)) False"

definition tiny :: block where
  "tiny = Block (Some [main_fn [
     VariableStatement True (VariableDefinition ''int'' ''x'' (Some (Integer 3)) False),
     AssignStatement True (Identifier ''x'') (BinaryOperator (Identifier ''x'') ''+'' (Integer 1)),
     ReturnStatement False None]])"

definition bad :: block where
  "bad = Block (Some [main_fn [AssignStatement True (Identifier ''x'') (Integer 1)]])"

definition compiled :: "(cg \<Rightarrow> bool) \<Rightarrow> block \<Rightarrow> bool" where
  "compiled Q root = (case compile (\<lambda>_. 0) root of None \<Rightarrow> False | Some (v, st) \<Rightarrow> Q st)"

lemma compiledE:
  assumes "compiled Q root"
  obtains v st where "compile (\<lambda>_. 0) root = Some (v, st)" and "Q st"
  using assms by (auto simp: compiled_def split: option.splits)

lemma tiny_compiles: "compiled (\<lambda>st. \<not> error st \<and> nextId st = 7 \<and> lambdaNum st = 0) tiny"
  by code_simp

lemma bad_compiles: "compiled (\<lambda>st. error st \<and> length (errLog st) = 2) bad"
  by code_simp

text \<open>
  Evaluating a compilation with closures by simplification: the congruences keep the simplifier
  out of a continuation until the step before it has returned.
\<close>

lemma bind_cong_weak: "m = m' \<Longrightarrow> Option.bind m f = Option.bind m' f"
  by simp

lemma Let_cong_weak: "a = b \<Longrightarrow> Let a f = Let b f"
  by simp

lemmas eval_congs = bind_cong_weak Let_cong_weak option.case_cong_weak prod.case_cong_weak

lemmas eval_defs = compiled_def compile_def CodeGenVisitor_def visitBlock_def commitVector_def
  visitVariableDefinition_def createAlloca_def CreateAlloca_def InsertEntry_def Insert_def Let_def
  main_fn_def nth_opt_def reconGroup_def visitFunctionDefinition_def generateFunction_def
  getTypeFromString_def getFunction_def getModule_def getBuilder_def getContext_def
  BasicBlock_Create_def push_block_def update_function_def SetInsertPoint_def Function_Create_def
  um_insert_def um_count_def um_erase_def insert_function_def scalarInitialiser_def
  visitInteger_def CreateStore_def visitAssignStatement_def lhs_visitIdentifier_def namedValue_def
  getAllocaType_def storeResult_def visitIdentifier_def someV_def CreateLoad_def
  visitReturnStatement_def CreateRet_def check_def ErrorV_def visitExpressionStatement_def
  createValueName_def isFirstClassType_def getVoidValue_def visitClosure_def makeGroup_def makeEnv_def
  StructType_create_def StructType_setBody_def struct_unique_name_def getStructField_def
  CreateStructGEP_def reconEntry_def makeLambda_def jitLambda_def scheduleLambda_def schedName_def
  lambdaBody_def bindEnvironment_def CreateBitOrPointerCast_def CreateCast_def castIntToPointer_def
  visitAddressOfExpression_def CreateCall_def returnValue_def visitFunctionCall_def show_nat_def
  char_of_def

definition par :: block where
  "par = Block (Some [main_fn [ExpressionStatement False (Integer 1), ExpressionStatement True (Integer 2)]])"

lemma par_compiles: "compiled (\<lambda>st. lambdaNum st = 2) par"
  by (simp add: eval_defs par_def cong: eval_congs)

subsection \<open>Claims\<close>

text \<open>
  Claim C7. The statements of a block that are compiled in place are
  exactly those that commit themselves and whose predecessor commits (or that come first); every
  other statement, that is each statement without a semicolon and the committing statement right
  after one, becomes a closure.
\<close>

theorem commit_vector_closed_form:
  "commitVector ss =
     map (\<lambda>i. statementCommits (ss ! i) \<and> (i = 0 \<or> statementCommits (ss ! (i - 1)))) [0..<length ss]"
proof -
  have step: "adjustCommits p cs = map (\<lambda>i. cs ! i \<and> (if i = 0 then p else cs ! (i - 1))) [0..<length cs]"
    for p cs
  proof (induction p cs rule: adjustCommits.induct)
    case (2 prev c cs)
    have "adjustCommits prev (c # cs) = (c \<and> prev) # adjustCommits c cs"
      by simp
    also have "adjustCommits c cs = map (\<lambda>i. cs ! i \<and> (if i = 0 then c else cs ! (i - 1))) [0..<length cs]"
      using 2 by (cases c; cases prev) auto
    finally show ?case
      by (auto simp: map_upt_Suc nth_Cons' simp del: upt_Suc)
  qed simp
  show ?thesis
    by (auto simp: commitVector_def step)
qed

text \<open>
  Claim C15. The error flag is up exactly when a diagnostic was
  printed, and it stays up: once an error was reported, compiling any further statement keeps
  every diagnostic, the module is not dumped, and the compiled program is never run.
\<close>

theorem diagnosed_errors_are_final:
  assumes "compile addr root = Some (v, st)"
  shows "(error st \<longleftrightarrow> errLog st \<noteq> []) \<and>
    (error st \<longrightarrow> printModule st = Inl ''IR dump prevented due to errors'' \<and>
       (\<forall>s u st'. visitStmt s st = Some (u, st') \<longrightarrow> error st' \<and> (\<exists>zs. errLog st' = errLog st @ zs) \<and>
          executeMain findSymbol st' =
            Some (False, st'\<lparr>outLog := outLog st' @ [''Main execution halted due to errors'']\<rparr>)))"
proof -
  have flag: "error st \<longleftrightarrow> errLog st \<noteq> []"
    using compile_keeps [OF diag.keeps_visitBlk initial_ok(1) assms] by (simp add: diag_ok_def)
  then have start: "diag_ok (errLog st) st" by (simp add: diag_ok_def)
  have "diag_ok (errLog st) st'" if "visitStmt s st = Some (u, st')" for s u st'
    using outsD [OF keepsD [OF diag.keeps_visitStmt start] that] .
  then have "visitStmt s st = Some (u, st') \<Longrightarrow> error st \<Longrightarrow> error st' \<and> (\<exists>zs. errLog st' = errLog st @ zs)"
    for s u st'
    using flag by (fastforce simp: diag_ok_def)
  then show ?thesis
    using flag by (auto simp: printModule_def executeMain_error)
qed

theorem diagnosed_errors_are_final_witness:
  "\<exists>v st. compile (\<lambda>_. 0) bad = Some (v, st) \<and> error st \<and>
     printModule st = Inl ''IR dump prevented due to errors''"
proof -
  obtain v st where st: "compile (\<lambda>_. 0) bad = Some (v, st)" "error st"
    using bad_compiles by (auto elim: compiledE)
  then show ?thesis using diagnosed_errors_are_final [OF st(1)] by blast
qed





text \<open>
  Claim C8. After compiling any program the compiler is outside of every
  closure, the number of modules handed to the closure JIT is \<open>lambdaNum\<close>, the \<open>k\<close>-th one is named
  \<open>lambda\<close>\<open>k\<close>, and all names are different; no closure is ever created while another one is compiled.
\<close>

theorem closures_are_numbered:
  assumes "compile addr root = Some (v, st)"
  shows "\<not> insideLambda st \<and> length (lambdaJIT st) = lambdaNum st \<and>
    (\<forall>k < lambdaNum st. fst (lambdaJIT st ! k) = ''lambda'' @ show_nat k) \<and>
    distinct (map fst (lambdaJIT st))"
proof -
  have ok: "\<not> insideLambda st" and names: "map fst (lambdaJIT st) = map lambda_name [0..<lambdaNum st]"
    using compile_keeps [OF outside.keeps_visitBlk initial_ok(4) assms] by (auto simp: outside_ok_def)
  have len: "length (lambdaJIT st) = lambdaNum st"
    using arg_cong [OF names, of length] by simp
  have "fst (lambdaJIT st ! k) = ''lambda'' @ show_nat k" if "k < lambdaNum st" for k
    using arg_cong [OF names, of "\<lambda>l. l ! k"] that len by (simp add: lambda_name_def)
  then show ?thesis
    using ok len inj_lambda_name by (auto simp: names distinct_map inj_on_def inj_def)
qed

theorem closures_are_numbered_witness:
  "\<exists>v st. compile (\<lambda>_. 0) par = Some (v, st) \<and> lambdaNum st = 2 \<and>
     fst (lambdaJIT st ! 1) = ''lambda1'' \<and> length (lambdaJIT st) = 2"
proof -
  obtain v st where st: "compile (\<lambda>_. 0) par = Some (v, st)" "lambdaNum st = 2"
    using par_compiles by (auto elim: compiledE)
  moreover have "show_nat 1 = ''1''" by code_simp
  ultimately show ?thesis using closures_are_numbered [OF st(1)] by auto
qed

text \<open>
  Claim C9. A program in which every statement commits, in
  every function and every nested block, is compiled without any parallelism: no closure is
  created, nothing is handed to the closure JIT, no group is opened and no statement of the tree is
  re-marked.
\<close>

theorem sequential_programs_stay_sequential:
  assumes "commitsBlk root" and "compile addr root = Some (v, st)"
  shows "lambdaNum st = 0 \<and> lambdaJIT st = [] \<and> currCid st = None \<and> currId st = 0 \<and>
    executeCommit st \<and> marked st = []"
  using compile_keeps [OF keeps_commits(2) [OF assms(1)] initial_ok(5) assms(2)]
  by (simp add: control_def)

theorem sequential_programs_stay_sequential_witness:
  "\<exists>v st. compile (\<lambda>_. 0) tiny = Some (v, st) \<and> lambdaJIT st = [] \<and> currCid st = None"
proof -
  have "commitsBlk tiny" by (simp add: tiny_def main_fn_def)
  moreover obtain v st where st: "compile (\<lambda>_. 0) tiny = Some (v, st)"
    using tiny_compiles by (auto elim: compiledE)
  ultimately show ?thesis using sequential_programs_stay_sequential by blast
qed

lemma blockLoop_inside:
  assumes "\<And>s v. (s, v) \<in> set ss \<Longrightarrow> inside_visitor v" and "insideLambda st"
  shows "blockLoop cv i ss l st = seqVisit (map snd ss) l st"
  using assms
proof (induction ss arbitrary: i l st)
  case (Cons sv ss)
  obtain s v where sv: "sv = (s, v)" by fastforce
  have v: "inside_visitor v" using Cons.prems(1) [of s v] by (simp add: sv)
  have idle: "reconGroup st = Some ((), st)" using Cons.prems(2) by (simp add: reconGroup_def)
  have k: "keeps (inside_ok (lambdaNum st) (lambdaJIT st)) v" using v by (simp add: inside_visitor_def)
  have ok: "inside_ok (lambdaNum st) (lambdaJIT st) st" using Cons.prems(2) by (simp add: inside_ok_def)
  have "insideLambda st'" if "v st = Some (w, st')" for w st'
    using outsD [OF keepsD [OF k ok] that] by (simp add: inside_ok_def)
  moreover have "insideLambda st' \<Longrightarrow> blockLoop cv i ss l st' = seqVisit (map snd ss) l st'" for i l st'
    by (rule Cons.IH) (use Cons.prems(1) in auto)
  ultimately show ?case
    using Cons.prems(2) idle by (cases "v st") (auto simp: sv)
qed simp

text \<open>
  Claim C18. Inside a closure a block is compiled as the plain
  sequence of its statements, whether or not they commit: parallel statements nested in a closure
  are run one after the other, and the compiler does not leave the closure.
\<close>

theorem blocks_in_closures_are_sequential:
  assumes "insideLambda st"
  shows "visitBlk (Block (Some ss)) st = seqVisit (map visitStmt ss) None st \<and>
    (\<forall>v st'. visitBlk (Block (Some ss)) st = Some (v, st') \<longrightarrow>
       insideLambda st' \<and> lambdaNum st' = lambdaNum st \<and> lambdaJIT st' = lambdaJIT st)"
proof -
  have "inside_visitor (visitStmt s)" for s
    by (simp add: inside_visitor_def inside.keeps_visitStmt)
  then have "visitBlk (Block (Some ss)) st = seqVisit (map visitStmt ss) None st"
    using assms blockLoop_inside [of "map (\<lambda>s. (s, visitStmt s)) ss" st "[]" 0 None]
    by (auto simp: visitBlock_def comp_def)
  moreover have "inside_ok (lambdaNum st) (lambdaJIT st) st'"
    if "visitBlk (Block (Some ss)) st = Some (v, st')" for v st'
    using outsD [OF keepsD [OF inside.keeps_visitBlk] that] assms by (simp add: inside_ok_def)
  ultimately show ?thesis by (auto simp: inside_ok_def)
qed

theorem blocks_in_closures_are_sequential_witness:
  "visitBlk (Block (Some [ExpressionStatement False (Integer 1), ExpressionStatement False (Integer 2)]))
     ((CodeGenVisitor (\<lambda>_. 0))\<lparr>insideLambda := True\<rparr>) =
   Some (Some (ConstantInt (int64Ty LambdaCtx) 2), (CodeGenVisitor (\<lambda>_. 0))\<lparr>insideLambda := True\<rparr>)"
  using blocks_in_closures_are_sequential
    [of "(CodeGenVisitor (\<lambda>_. 0))\<lparr>insideLambda := True\<rparr>"
        "[ExpressionStatement False (Integer 1), ExpressionStatement False (Integer 2)]", THEN conjunct1]
  by (simp add: visitExpressionStatement_def visitInteger_def getContext_def)

end
