(* ===== verification/Fork_Claims.thy ===== *)
theory Fork_Claims
  imports CG_Claims
begin

section \<open>Properties of the driver, the injected declarations and the tree\<close>

text \<open>
  Theorems about \<^verbatim>\<open>yy_overrides.h\<close> against \<^verbatim>\<open>lib.h\<close>, \<^verbatim>\<open>main.cpp\<close>, \<^verbatim>\<open>node.cpp\<close>,
  \<^verbatim>\<open>statementVisitor.cpp\<close>, and about faults of the code generator.
\<close>

subsection \<open>The interface of the library\<close>

text \<open>
  The functions of \<^verbatim>\<open>lib.h\<close> that the injected declarations name, by how their arguments and
  results are passed.
\<close>

datatype cty = CInt64 | CDouble | CPtr | CVoid

definition lib_h :: "(string \<times> cty \<times> cty list) list" where
  "lib_h = [
     (''malloc_int'', CPtr, [CInt64]), (''malloc_float'', CPtr, [CInt64]),
     (''calloc_int'', CPtr, [CInt64]), (''calloc_float'', CPtr, [CInt64]),
     (''free_int'', CVoid, [CPtr]), (''free_float'', CVoid, [CPtr]),
     (''__make_context'', CInt64, []),
     (''__fork_sched_int'', CVoid, [CPtr, CPtr, CInt64, CInt64]),
     (''__fork_sched_float'', CVoid, [CPtr, CPtr, CInt64, CInt64]),
     (''__fork_sched_intptr'', CVoid, [CPtr, CPtr, CInt64, CInt64]),
     (''__fork_sched_floatptr'', CVoid, [CPtr, CPtr, CInt64, CInt64]),
     (''__fork_sched_void'', CVoid, [CPtr, CPtr, CInt64, CInt64]),
     (''__recon_int'', CInt64, [CInt64, CInt64, CInt64, CInt64, CInt64]),
     (''__recon_float'', CDouble, [CDouble, CInt64, CInt64, CInt64, CInt64]),
     (''__recon_intptr'', CPtr, [CPtr, CInt64, CInt64, CInt64, CInt64]),
     (''__recon_floatptr'', CPtr, [CPtr, CInt64, CInt64, CInt64, CInt64]),
     (''__recon_void'', CVoid, [CInt64, CInt64, CInt64]),
     (''__destroy_context'', CVoid, [CInt64])]"

fun cty_of :: "lltype \<Rightarrow> cty" where
  "cty_of (TInt c w) = CInt64" | "cty_of (TDouble c) = CDouble" | "cty_of (TPtr t) = CPtr"
| "cty_of _ = CVoid"

definition abi :: "string \<times> lfunction \<Rightarrow> string \<times> cty \<times> cty list" where
  "abi p = (fst p, cty_of (fn_ret (snd p)), map (\<lambda>a. cty_of (snd a)) (fn_args (snd p)))"

definition injected :: "(string \<times> lfunction) list" where
  "injected = map (the \<circ> extern_sig) buildInjections"

lemmas injection_defs = buildInjections_def ExternStatement_new_def injected_vars declType_def
  argType_def check_def

lemma injected_sigs: "map extern_sig buildInjections = map Some injected"
  by (simp add: injected_def injection_defs)

lemma map_fst_injected: "map fst injected = map fst lib_h"
  by (simp add: injected_def injection_defs lib_h_def)

lemma distinct_lib_h: "distinct (map fst lib_h)"
  by (simp add: lib_h_def)

lemma injected_recon_float: "map_of injected ''__recon_float'' = Some \<lparr>fn_ret = TDouble MainCtx,
    fn_args = [(''original'', TDouble MainCtx), (''known'', TDouble MainCtx), (''id'', int64Ty MainCtx),
      (''max'', int64Ty MainCtx), (''cid'', int64Ty MainCtx)], fn_blocks = []\<rparr>"
  by (simp add: injected_def injection_defs)


subsection \<open>The driver\<close>

text \<open>
  Claim C21. The driver calls the compiled program exactly when
  compilation printed no diagnostic; then the module was dumped before and contained a symbol
  \<open>main\<close> the JIT could find. With a wrong number of arguments, an unreadable file or a failed parse
  it prints one message and compiles nothing.
\<close>

theorem main_runs_only_clean_programs:
  shows "(\<forall>dump executed c. fork_main fopen yyparse addr findSymbol argv = Some (Compiled dump executed c) \<longrightarrow>
        length argv = 2 \<and> (\<exists>yyin root v c0. fopen (argv ! 1) = Some yyin \<and> yyparse yyin = Some root \<and>
          compile addr root = Some (v, c0) \<and> error c = error c0 \<and>
          (executed \<longleftrightarrow> errLog c0 = []) \<and>
          (executed \<longrightarrow> dump = Inr (modules c0 MainCtx) \<and> findSymbol (modules c0 MainCtx) ''main'')))
    \<and> (length argv \<noteq> 2 \<or> fopen (argv ! 1) = None \<or> (\<exists>f. fopen (argv ! 1) = Some f \<and> yyparse f = None) \<longrightarrow>
        (\<exists>msg. fork_main fopen yyparse addr findSymbol argv = Some (Message msg)))"
proof -
  have flag: "error c0 \<longleftrightarrow> errLog c0 \<noteq> []" if "compile addr root = Some (v, c0)" for root v c0
    using compile_keeps [OF diag.keeps_visitBlk initial_ok(1) that] by (simp add: diag_ok_def)
  show ?thesis
    by (auto simp: fork_main_def executeMain_def printModule_def Let_def check_def flag
        split: if_splits option.splits elim!: bind_SomeE)
qed

theorem main_runs_only_clean_programs_witness:
  "\<exists>m c. fork_main (\<lambda>_. Some ()) (\<lambda>_. Some tiny) (\<lambda>_. 0) (\<lambda>m n. True) [''fc'', ''tiny.f''] =
       Some (Compiled (Inr m) True c) \<and> \<not> error c"
proof -
  obtain v st where st: "compile (\<lambda>_. 0) tiny = Some (v, st)" "\<not> error st"
    using tiny_compiles by (auto elim: compiledE)
  then obtain d c where c: "fork_main (\<lambda>_. Some ()) (\<lambda>_. Some tiny) (\<lambda>_. 0) (\<lambda>m n. True) [''fc'', ''tiny.f''] =
      Some (Compiled d True c)" "\<not> error c"
    by (simp add: fork_main_def executeMain_def Let_def)
  then show ?thesis
    using main_runs_only_clean_programs [of "\<lambda>_. Some ()" "\<lambda>_. Some tiny" "\<lambda>_. 0" "\<lambda>m n. True" "[''fc'', ''tiny.f'']"]
    by auto
qed

subsection \<open>The tree\<close>

text \<open>
  Validating a structure definition accepts exactly the names not
  seen before and enters them, so that the same definition is rejected a second time; afterwards
  declarations and functions may use exactly the names that were known and the new one.
\<close>

theorem type_table_validation:
  assumes "StructureDefinition_validate ident t = (ok, t')"
  shows "(ok \<longleftrightarrow> \<not> tt_check ident t) \<and>
    (\<forall>u. StructureDeclaration_validate u t' \<longleftrightarrow> u = ident \<or> StructureDeclaration_validate u t) \<and>
    (\<forall>u. FunctionDefinition_validate u t' \<longleftrightarrow> u = Some ident \<or> FunctionDefinition_validate u t) \<and>
    StructureDefinition_validate ident t' = (False, t') \<and>
    (distinct (types t) \<longrightarrow> distinct (types t'))"
  using assms
  by (auto simp: StructureDefinition_validate_def StructureDeclaration_validate_def
      FunctionDefinition_validate_def tt_check_def tt_insert_def split: if_splits option.splits)

theorem type_table_validation_witness:
  "StructureDefinition_validate ''node'' (tt_insert ''node'' TypeTable) = (False, tt_insert ''node'' TypeTable)"
proof -
  have "StructureDefinition_validate ''node'' TypeTable = (True, tt_insert ''node'' TypeTable)"
    by (simp add: StructureDefinition_validate_def TypeTable_def tt_check_def)
  then show ?thesis using type_table_validation by blast
qed

text \<open>
  Claim C36. For a structure with a non-empty body the visitor collects
  exactly the variable definitions and exactly the structure declarations of the body, each in the
  order of the source; for an empty body, whose statement list is a null pointer, it aborts.
\<close>

theorem structure_fields_collected:
  "getVariables (Block (Some ss)) = Some (List.map_filter is_var ss) \<and>
   getStructs (Block (Some ss)) = Some (List.map_filter is_struct_decl ss) \<and>
   getVariables (Block None) = None \<and> getStructs (Block None) = None \<and>
   visitStructureDefinition i (Block None) st = None"
  by (simp add: getVariables_def getStructs_def sv_visitBlock_def fold_sv_accept StatementVisitor_def
      visitStructureDefinition_def)


lemma structVars_types:
  "structVars vs st = Some (Some fs, st') \<Longrightarrow> st' = st \<and>
     list_all2 (\<lambda>v (t, n). n = vd_ident v \<and>
       getTypeFromString (stringType v) (hasPointerType v) False st = Some (Some t, st)) vs fs"
proof (induction vs arbitrary: fs)
  case (Cons v vs)
  obtain t st1 where t: "getTypeFromString (stringType v) (hasPointerType v) False st = Some (Some t, st1)"
    and rest: "\<exists>gs. structVars vs st1 = Some (Some gs, st') \<and> fs = (t, vd_ident v) # gs"
    using Cons.prems by (auto simp: ErrorV_def elim!: bind_SomeE split: if_splits option.splits)
  have "st1 = st"
    using t by (auto simp: getTypeFromString_def ErrorV_def split: if_splits option.splits)
  then show ?case using t rest Cons.IH by auto
qed simp

definition field_struct :: "string \<Rightarrow> lltype \<Rightarrow> (string, lltype \<times> string list) umap \<Rightarrow> variableDefinition \<Rightarrow> lltype \<Rightarrow> bool" where
  "field_struct i self tab s t \<longleftrightarrow>
     (if hasPointerType s \<and> stringType s = i then t = TPtr self
      else stringType s \<noteq> i \<and> (\<exists>u flds. map_of tab (stringType s) = Some (u, flds) \<and>
        t = (if hasPointerType s then TPtr u else u)))"

lemma structDecls_types:
  "structDecls i self ss st = Some (Some fs, st') \<Longrightarrow> st' = st \<and>
     list_all2 (\<lambda>s (t, n). n = vd_ident s \<and> field_struct i self (structTypes st) s t) ss fs"
proof (induction ss arbitrary: fs)
  case (Cons s ss)
  obtain t gs where fs: "fs = (t, vd_ident s) # gs" and t: "field_struct i self (structTypes st) s t"
    and rest: "structDecls i self ss st = Some (Some gs, st')"
    using Cons.prems
    by (force simp: ErrorV_def field_struct_def elim!: bind_SomeE split: if_splits option.splits)
  then show ?case using Cons.IH [OF rest] by simp
qed simp

lemma getTypeFromString_cong:
  "structTypes st1 = structTypes st \<Longrightarrow> insideLambda st1 = insideLambda st \<Longrightarrow>
     map_option fst (getTypeFromString ty p v st1) = map_option fst (getTypeFromString ty p v st)"
  by (simp add: getTypeFromString_def getContext_def getBuilder_def ErrorV_def split: option.split)

lemma list_all2_fields:
  assumes "list_all2 (\<lambda>v (t, n). n = f v \<and> P v t) vs fs"
  shows "map snd fs = map f vs" and "list_all2 P vs (map fst fs)"
  using assms by (induction vs fs rule: list_all2_induct) auto

lemma field_index_nth: "field_index f xs = Some j \<Longrightarrow> j < length xs \<and> xs ! j = f"
  by (induction xs arbitrary: j) (auto split: if_splits)



end
