(* ===== verification/CG_Faults.thy ===== *)
theory CG_Faults
  imports Fork_Claims
begin

section \<open>Faults of the code generator\<close>

text \<open>
  Theorems about what the code does where that is not what it means to do: conditions built from
  \<open>||\<close> and \<open>&&\<close>, parallel assignments to variables of type \<open>float\<close>, and the targets of earlier groups.
\<close>

lemma getBuilder_Insert [simp]:
  "insideLambda (snd (Insert c t i st)) = insideLambda st"
  "getBuilder (snd (Insert c t i st)) = getBuilder st"
  "getContext (snd (Insert c t i st)) = getContext st"
  by (auto simp: Insert_def Let_def getBuilder_def getContext_def split: option.splits)

lemma fst_Insert [simp]: "fst (Insert c t i st) = Inst (nextId st) t i"
  by (auto simp: Insert_def Let_def split: option.splits)

lemma Insert_eq:
  assumes "Insert c t i st = (v, st')"
  shows "v = Inst (nextId st) t i" and "getBuilder st' = getBuilder st" and "insideLambda st' = insideLambda st"
  using arg_cong [OF assms, of fst] arg_cong [OF assms, of snd] getBuilder_Insert [of c t i st] by auto

lemma same_context: "getContext st = getBuilder st"
  by (simp add: getContext_def getBuilder_def)

lemma castIntToBoolean_int64:
  assumes "getType v = int64Ty (getBuilder st)"
  shows "\<exists>b st'. castIntToBoolean v st = Some (b, st') \<and> getType b = int1Ty (getBuilder st) \<and>
    getBuilder st' = getBuilder st \<and> (\<exists>i t ins. b = Inst i t ins)"
  using assms
  by (cases "Insert (getBuilder st) (int1Ty (getBuilder st)) (ICmp ICMP_NE v (ConstantInt (int64Ty (getBuilder st)) 0)) st")
    (auto simp: castIntToBoolean_def CreateICmp_def same_context check_def
      dest: Insert_eq)

lemma logical_int:
  assumes "getType l = int64Ty (getBuilder st)" and "getType r = int64Ty (getBuilder st)"
  shows "\<exists>v st'. logical bop castIntToBoolean l r st = Some (v, st') \<and>
    getType v = int1Ty (getBuilder st) \<and> getBuilder st' = getBuilder st"
proof -
  obtain b st1 i t ins where b: "castIntToBoolean l st = Some (b, st1)" "getType b = int1Ty (getBuilder st)"
      "getBuilder st1 = getBuilder st" "b = Inst i t ins"
    using castIntToBoolean_int64 [OF assms(1)] by blast
  obtain b' st2 i' t' ins' where b': "castIntToBoolean r st1 = Some (b', st2)" "getType b' = int1Ty (getBuilder st)"
      "getBuilder st2 = getBuilder st" "b' = Inst i' t' ins'"
    using castIntToBoolean_int64 [of r st1] assms(2) b(3) by auto
  define op where "op = (if bop = BOP_OR then Or else And)"
  have "logical bop castIntToBoolean l r st = CreateBinOp (getBuilder st) op b b' st2"
    using b b' by (auto simp: logical_def CreateOr_def CreateAnd_def op_def)
  moreover have "binop_ok op b b'"
    using b(2) b'(2) by (simp add: binop_ok_def op_def)
  ultimately show ?thesis
    using b(2) b'(3)
    by (cases "Insert (getBuilder st) (getType b) (BinOp op b b') st2")
      (auto simp: CreateBinOp_def dest: Insert_eq)
qed

lemma promote_same_int:
  assumes "getType l = int64Ty (getBuilder st)" and "getType r = int64Ty (getBuilder st)"
  shows "promoteOperands l r st = Some ((l, r), st)"
  using assms by (simp add: promoteOperands_def toInt64_def toDouble_def)

text \<open>
  Claim C33. An \<open>||\<close> or \<open>&&\<close> of two integers is compiled to a value one bit
  wide, although every comparison is widened to a 64-bit integer. Used as the condition of an
  \<open>if\<close> it is compared with a 64-bit zero, so that LLVM's assertion on equal operand types fails: the
  compiler aborts on \<open>if (a || b)\<close> and \<open>if (a && b)\<close>, for all integer operands.
\<close>

theorem logical_conditions_abort:
  assumes "vl st = Some (Some l, st1)" and "vr st1 = Some (Some r, st2)"
    and "getType l = int64Ty (getBuilder st2)" and "getType r = int64Ty (getBuilder st2)"
    and "op = ''||'' \<or> op = ''&&''"
  shows "(\<exists>v st3. visitBinaryOperator vl op vr st = Some (Some v, st3) \<and> getType v = int1Ty (getBuilder st3)) \<and>
    visitIfStatement (visitBinaryOperator vl op vr) vthen velse st = None"
proof -
  define bop where "bop = (if op = ''||'' then BOP_OR else BOP_AND)"
  have bop: "map_of switchMap op = Some bop" "binopArith bop = None" "binopICmp bop = None"
    using assms(5) by (auto simp: switchMap_def bop_def)
  obtain v st3 where v: "logical bop castIntToBoolean l r st2 = Some (v, st3)"
      "getType v = int1Ty (getBuilder st2)" "getBuilder st3 = getBuilder st2"
    using logical_int [OF assms(3,4)] by blast
  have visit: "visitBinaryOperator vl op vr st = Some (Some v, st3)"
    using assms(1-4) promote_same_int [OF assms(3,4)] bop v(1)
    by (simp add: visitBinaryOperator_def binaryDispatch_def binaryInt_def someV_def)
  moreover have "castIntToBoolean v st3 = None"
    using v by (simp add: castIntToBoolean_def CreateICmp_def same_context check_def)
  ultimately show ?thesis
    using v by (simp add: visitIfStatement_def ifCondition_def someV_def)
qed

theorem logical_conditions_abort_witness:
  "visitStmt (IfStatement False (BinaryOperator (Integer 1) ''||'' (Integer 0)) (Block None) None)
     (CodeGenVisitor (\<lambda>_. 0)) = None"
  using logical_conditions_abort [of "visitInteger 1" "CodeGenVisitor (\<lambda>_. 0)"
      "ConstantInt (int64Ty MainCtx) 1" "CodeGenVisitor (\<lambda>_. 0)" "visitInteger 0"
      "ConstantInt (int64Ty MainCtx) 0" "CodeGenVisitor (\<lambda>_. 0)" "''||''"]
  by (simp add: visitInteger_def CodeGenVisitor_def getContext_def getBuilder_def)

text \<open>
  Claim C34. In a module with the injected declarations, reconciling a
  group aborts the compiler as soon as a target of type \<open>float\<close> is reached: the code passes the
  integer 1 for \<open>known\<close>, the injected declaration of \<open>__recon_float\<close> says \<open>float\<close>, and LLVM asserts that
  a call matches its function. Parallel assignment to \<open>float\<close> variables therefore never compiles.
\<close>

theorem float_reconciliation_aborts:
  assumes "\<not> insideLambda st" and "map_of (modules st MainCtx) ''__recon_float'' = map_of injected ''__recon_float''"
    and "getType refVar = doublePtrTy MainCtx"
  shows "reconLoop i (Some refVar # rs) st = None"
proof (cases "Insert MainCtx (TDouble MainCtx) (Load refVar) st")
  case (Pair var st1)
  have mods: "modules st1 = modules st" and out: "\<not> insideLambda st1"
    using Pair assms(1) by (auto simp: Insert_def Let_def split: option.splits)
  have var: "getType var = TDouble MainCtx"
    using arg_cong [OF Pair, of fst] by auto
  show ?thesis
    using assms var out Pair
    by (auto simp: CreateLoad_def getBuilder_def reconName_def getFunction_def getModule_def mods
        injected_recon_float CreateCall_def check_def getContext_def Let_def split: option.split)
qed

theorem float_reconciliation_aborts_witness:
  "reconLoop 0 [Some (Inst 0 (doublePtrTy MainCtx) (Alloca (TDouble MainCtx) ''x''))]
     ((CodeGenVisitor (\<lambda>_. 0))\<lparr>modules := (\<lambda>_. injected)\<rparr>) = None"
  by (rule float_reconciliation_aborts) (simp_all add: CodeGenVisitor_def)

subsection \<open>Targets are never forgotten\<close>

definition recon_prefix :: "llvalue option list \<Rightarrow> cg \<Rightarrow> bool" where
  "recon_prefix rs st \<longleftrightarrow> (\<exists>zs. reconVector st = rs @ zs)"

interpretation recons: block_inv "recon_prefix rs" for rs
  by unfold_locales
    (auto simp: recon_prefix_def llvm_frame elim!: frame_elims split: option.splits)

lemma reconLoop_void:
  assumes "getFunction MainCtx ''__recon_void'' st = Some f" and "\<not> insideLambda st" and "currCid st = Some cid"
    and "map snd (fn_args f) = [int64Ty MainCtx, int64Ty MainCtx, getType cid]"
    and "insertPt st MainCtx = Some b" and "bbs st b = Some bb"
  shows "\<exists>st' bb'. reconLoop i (replicate n None) st = Some ((), st') \<and> bbs st' b = Some bb' \<and>
    bb_insts bb' = bb_insts bb @ map (\<lambda>k. Inst (nextId st + k) (fn_ret f) (Call ''__recon_void''
      [ConstantInt (int64Ty MainCtx) (int (i + k)), ConstantInt (int64Ty MainCtx) (currId st), cid])) [0..<n]"
  using assms
proof (induction n arbitrary: i st bb)
  case (Suc n)
  let ?call = "Call ''__recon_void'' [ConstantInt (int64Ty MainCtx) (int i),
      ConstantInt (int64Ty MainCtx) (currId st), cid]"
  let ?st = "snd (Insert MainCtx (fn_ret f) ?call st)"
  let ?bb = "bb\<lparr>bb_insts := bb_insts bb @ [Inst (nextId st) (fn_ret f) ?call]\<rparr>"
  have st: "getFunction MainCtx ''__recon_void'' ?st = Some f" "\<not> insideLambda ?st" "currCid ?st = Some cid"
      "insertPt ?st MainCtx = Some b" "bbs ?st b = Some ?bb" "currId ?st = currId st" "nextId ?st = Suc (nextId st)"
    using Suc.prems by (auto simp: Insert_def Let_def getFunction_def)
  have "reconLoop i (replicate (Suc n) None) st = reconLoop (Suc i) (replicate n None) ?st"
    using Suc.prems by (auto simp: getModule_def getBuilder_def getContext_def CreateCall_def Let_def
        check_def Insert_def)
  then show ?case
    using Suc.IH [OF st(1-3) Suc.prems(4) st(4,5), of "Suc i"] st(6,7)
    by (auto simp: map_upt_Suc simp del: upt_Suc replicate_Suc)
qed simp


text \<open>A state with the two targets that two groups of one statement each have left.\<close>

definition second_group :: cg where
  "second_group = (CodeGenVisitor (\<lambda>_. 0))\<lparr>modules := (\<lambda>_. injected), insertPt := (\<lambda>_. Some 0),
     bbs := [0 \<mapsto> \<lparr>bb_parent = None, bb_name = ''entry'', bb_insts = []\<rparr>],
     currCid := Some (ConstantInt (int64Ty MainCtx) 7), currId := 1, reconVector := [None, None]\<rparr>"

lemma second_group_fields:
  "getFunction MainCtx ''__recon_void'' second_group = Some \<lparr>fn_ret = TVoid MainCtx,
     fn_args = [(''id'', int64Ty MainCtx), (''max'', int64Ty MainCtx), (''cid'', int64Ty MainCtx)], fn_blocks = []\<rparr>"
  "\<not> insideLambda second_group" "currCid second_group = Some (ConstantInt (int64Ty MainCtx) 7)"
  "insertPt second_group MainCtx = Some 0"
  "bbs second_group 0 = Some \<lparr>bb_parent = None, bb_name = ''entry'', bb_insts = []\<rparr>"
  "reconVector second_group = replicate 2 None"
  by (simp_all add: second_group_def CodeGenVisitor_def getFunction_def injected_def injection_defs numeral_2_eq_2)


end
