(* ===== verification/Program_Correct.thy ===== *)
theory Program_Correct
  imports CG_Function_Correct CG_Faults
begin

section \<open>Compiled programs do what they mean\<close>

text \<open>
  The end of the correctness proof: what the driver compiles, the injected declarations followed by the
  functions of the program, and the claims about expressions and whole programs.
\<close>

subsection \<open>The initial state\<close>

lemma blockLoop_append:
  "blockLoop cv i (xs @ ys) l st = do { (v, st) \<leftarrow> blockLoop cv i xs l st; blockLoop cv (i + length xs) ys v st }"
proof (induction xs arbitrary: i l st)
  case (Cons x xs)
  then show ?case by (cases x) (auto simp: split_def split: Option.bind_splits)
qed simp

lemma initial_toplevel: "toplevel ((CodeGenVisitor jit)\<lparr>modules := ms\<rparr>)"
  by (simp add: toplevel_def CodeGenVisitor_def fresh_def)

lemma statementCommits_function: "statementCommits (FunctionDefinition c t u f as body p)"
  by simp

text \<open>The injected declarations come first; nothing is emitted for them.\<close>

definition injected_state :: "(string \<Rightarrow> int) \<Rightarrow> cg" where
  "injected_state jit = (CodeGenVisitor jit)\<lparr>modules := (modules (CodeGenVisitor jit))(MainCtx := injected)\<rparr>"

lemma injections_commit: "s \<in> set buildInjections \<Longrightarrow> statementCommits s"
proof -
  assume "s \<in> set buildInjections"
  then have "extern_sig s \<noteq> None"
    using injected_sigs by (metis in_set_conv_nth length_map nth_map option.distinct(1))
  then show ?thesis by (cases s) auto
qed

lemma compile_start_symbol:
  assumes "\<forall>s \<in> set ss. statementCommits s"
  obtains cv w where "compile jit (start_symbol ss) = blockLoop cv (length buildInjections) (map (\<lambda>s. (s, visitStmt s)) ss) w (injected_state jit)"
    and "\<forall>j < length ss. nth_opt cv (length buildInjections + j) = Some True"
proof -
  let ?ss = "buildInjections @ ss" and ?st0 = "CodeGenVisitor jit"
  have commit: "\<forall>s \<in> set ?ss. statementCommits s" using assms injections_commit by auto
  have len: "length (commitVector ?ss) = length ?ss" by (simp add: commitVector_def)
  have exe: "?st0\<lparr>executeCommit := True\<rparr> = ?st0" "modules ?st0 MainCtx = []" "\<not> insideLambda ?st0" "executeCommit ?st0"
    by (simp_all add: CodeGenVisitor_def)
  have "distinct (map fst injected)" by (simp add: map_fst_injected distinct_lib_h)
  then obtain w where w: "blockLoop (commitVector ?ss) 0 (map (\<lambda>s. (s, visitStmt s)) buildInjections) None ?st0 = Some (w, injected_state jit)"
    using blockLoop_externs [OF injected_sigs, of ?st0 0 "commitVector ?ss" None] commitVector_True [OF commit] exe len
    by (auto simp: injected_state_def)
  have "compile jit (start_symbol ss) = blockLoop (commitVector ?ss) 0 (map (\<lambda>s. (s, visitStmt s)) ?ss) None ?st0"
    using exe(3) by (simp add: compile_def start_symbol_def visitBlock_def comp_def exe(1))
  also have "\<dots> = blockLoop (commitVector ?ss) (length buildInjections) (map (\<lambda>s. (s, visitStmt s)) ss) w (injected_state jit)"
    by (simp add: blockLoop_append w)
  finally show ?thesis by (rule that) (use commitVector_sequential [OF commit] in simp)
qed

lemma program_compiles:
  assumes wt: "\<forall>fn \<in> set fns. wt_function fn"
    and names: "distinct (map fst injected @ map (\<lambda>fn. fst (the (function_sig fn))) fns)"
  shows "\<exists>v st. compile jit (start_symbol fns) = Some (v, st) \<and> \<not> error st \<and> (\<forall>fn \<in> set fns. function_in H fn st)"
proof -
  have "\<forall>s \<in> set fns. statementCommits s" using wt by (metis wt_functionE statementCommits_function)
  then obtain cv w where c: "compile jit (start_symbol fns) = blockLoop cv (length buildInjections) (map (\<lambda>s. (s, visitStmt s)) fns) w (injected_state jit)"
      "\<forall>j < length fns. nth_opt cv (length buildInjections + j) = Some True"
    by (rule compile_start_symbol)
  have "toplevel (injected_state jit)" unfolding injected_state_def by (rule initial_toplevel)
  moreover have "distinct (function_names (injected_state jit) @ map (\<lambda>fn. fst (the (function_sig fn))) fns)"
    using names by (simp add: function_names_def injected_state_def)
  moreover have "\<not> error (injected_state jit)" by (simp add: injected_state_def CodeGenVisitor_def)
  ultimately show ?thesis using functions_compile [OF _ wt _ c(2), of "injected_state jit" w H] c(1) by auto
qed

text \<open>The sizes of the stack variables of a function's frame, in the order they are allocated.\<close>

definition frame_sizes :: "'a llvm_scheme \<Rightarrow> string \<Rightarrow> nat list" where
  "frame_sizes P f = (case getFunction MainCtx f P of
     Some g \<Rightarrow> (case fn_blocks g of e # bs \<Rightarrow> slot_sizes P e | [] \<Rightarrow> []) | None \<Rightarrow> [])"

lemma frame_sizes_entry: "has_entry f r as e P \<Longrightarrow> frame_sizes P f = slot_sizes P e"
  by (auto simp: has_entry_def frame_sizes_def)

lemma answers_run:
  assumes "answers H Q f ts vs R v s" and "ECStack s = []"
  obtains s0 n s' ps m where "callFunction H Q (MainCtx, f) (map2 gv_of ts vs) s = Some s0" and "run n H Q s0 = Some s'"
    and "ECStack s' = []" and "world s' = world s" and "mem s' = fold (h_free H) ps m" and "\<forall>a \<in> dom (mem s). m a = mem s a"
    and "\<forall>y u. v = Some y \<longrightarrow> R = Some u \<longrightarrow> ExitValue s' = gv_of u y"
proof -
  obtain s0 SF m where a: "callFunction H Q (MainCtx, f) (map2 gv_of ts vs) s = Some s0" "\<forall>a \<in> dom (mem s). m a = mem s a"
      "\<And>s'. pops H R v (s\<lparr>ECStack := [SF], mem := m\<rparr>) = Some s' \<Longrightarrow> reaches H Q s0 s'"
    using assms by (auto simp: answers_def)
  let ?s = "s\<lparr>ECStack := [], mem := fold (h_free H) (Allocas SF) m, ExitValue :=
    (case v of None \<Rightarrow> (ExitValue s)\<lparr>Untyped := 0\<rparr> | Some y \<Rightarrow> if isVoidTy (ret_ty R) then (ExitValue s)\<lparr>Untyped := 0\<rparr> else gv_of (the R) y)\<rparr>"
  have "pops H R v (s\<lparr>ECStack := [SF], mem := m\<rparr>) = Some ?s"
    by (simp add: pops_def popStackAndReturnValueToCaller_def Let_def split: option.split)
  then have "reaches H Q s0 ?s" by (rule a(3))
  from run_reaches [OF this] obtain n where "run n H Q s0 = Some ?s" by auto
  moreover have "\<not> isVoidTy (lty MainCtx u)" for u by (cases u) simp_all
  ultimately show ?thesis using that [OF a(1) _ _ _ _ a(2)] by auto
qed

subsection \<open>A machine for the witnesses\<close>

text \<open>Three blocks of memory; the arithmetic on doubles plays no part.\<close>

definition small_malloc :: "nat \<Rightarrow> memory \<Rightarrow> int64 \<times> memory" where
  "small_malloc n m = (let p = (if m 16 = None then 16 else if m 32 = None then 32 else if m 48 = None then 48 else 0)
     in (p, \<lambda>a. if a \<in> span p n then Some 0 else m a))"

definition small_host :: "unit host" where
  "small_host = \<lparr>h_malloc = small_malloc, h_free = (\<lambda>p m. m), h_external = (\<lambda>f as m w. None),
     f_add = (+), f_sub = (-), f_mul = (*), f_div = (\<lambda>a b. 0), f_eq = (=), f_lt = (<), f_le = (\<le>), f_of_int = (\<lambda>a. a)\<rparr>"

lemma small_mallocs: "mallocs_ok small_host [8, 8] Map.empty"
proof -
  let ?m1 = "\<lambda>a. if a \<in> span 16 8 then Some 0 else None :: 8 word option"
  let ?m2 = "\<lambda>a. if a \<in> span 32 8 then Some 0 else ?m1 a"
  have "h_malloc small_host 8 Map.empty = (16, ?m1)" by (simp add: small_host_def small_malloc_def)
  moreover have "h_malloc small_host 8 ?m1 = (32, ?m2)" by (simp add: small_host_def small_malloc_def Let_def) (simp add: small_spans)
  moreover have "dom ?m1 = span 16 8" "dom ?m2 = span 16 8 \<union> span 32 8" by (auto simp: dom_def split: if_splits)
  moreover have "span 32 8 \<inter> span 16 8 = {}" "\<forall>a \<in> span 16 8. ?m2 a = ?m1 a" by (simp_all add: small_spans)
  ultimately show ?thesis by simp
qed

text \<open>\<^verbatim>\<open>int f(int a) { int b = 2; return a + b; }\<close>\<close>

definition plus_two :: statement where
  "plus_two = FunctionDefinition False (Some ''int'') None ''f'' [VariableDefinition ''int'' ''a'' None False]
     (Block (Some [
        VariableStatement True (VariableDefinition ''int'' ''b'' (Some (Integer 2)) False),
        ReturnStatement True (Some (BinaryOperator (Identifier ''a'') ''+'' (Identifier ''b'')))])) False"

lemmas expr_defs = visitBinaryOperator_def promoteOperands_def binaryDispatch_def CreateBinOp_def toInt64_def toDouble_def binaryInt_def
  switchMap_def binop_ok_def
lemmas frame_defs = frame_sizes_def slot_sizes_def insts_def getTypeAllocSize_def intAlign_def RoundUpToAlignment_def

lemma f_not_injected: "map_of injected ''f'' = None"
  by (simp add: map_of_eq_None_iff flip: set_map) (simp add: map_fst_injected lib_h_def)

lemma plus_two_frame: "\<exists>v st. visitStmt plus_two (injected_state (\<lambda>_. 0)) = Some (v, st) \<and> frame_sizes st ''f'' = [8, 8]"
  by (simp add: injected_state_def f_not_injected map_of_map_update map_of_append map_add_def eval_defs expr_defs frame_defs plus_two_def
      cong: eval_congs)

lemma plus_two_ok:
  "wt_function plus_two" "function_sig plus_two = Some (''f'', Some IntT, [(''a'', IntT)])"
  "exec_function H plus_two [SInt 5] = Some (Some (SInt 7))" "distinct (map fst injected @ [''f''])"
proof -
  note defs = plus_two_def return_type_def keyword_type_def check_def defined_type_def assignable_def typeof_binary_def op_list_defs
  show "wt_function plus_two" "function_sig plus_two = Some (''f'', Some IntT, [(''a'', IntT)])"
    "exec_function H plus_two [SInt 5] = Some (Some (SInt 7))"
    by (simp_all add: defs eval_int_def Let_def)
  show "distinct (map fst injected @ [''f''])" by (simp add: map_fst_injected lib_h_def)
qed

lemma ap_sext_i1: "ap_sext (i1 b) = (if b then - 1 else 0)"
  by (cases b) (simp_all add: ap_sext_def bit_eq_iff bit_simps)

subsection \<open>Claims\<close>

text \<open>
  Claim C1. A program of well-typed functions with scalar parameters, local variables,
  conditionals and returns is compiled by the whole driver path, injected declarations included, without a
  diagnostic. In the module it yields, a call of any of its functions, run by LLVM's interpreter, terminates
  whenever the reference semantics gives the call a result, and returns this result; the frame is popped, the outside world
  is untouched, and of the memory that was in use before the call nothing is written: what happens to it is only that the
  frame's own blocks are freed. All that is asked of the machine is that its \<open>malloc\<close> serves the requests of the frame with
  unused blocks.
\<close>

theorem compiled_program_correct:
  assumes "\<forall>fn \<in> set fns. wt_function fn"
    and "distinct (map fst injected @ map (\<lambda>fn. fst (the (function_sig fn))) fns)"
  shows "\<exists>v st. compile jit (start_symbol fns) = Some (v, st) \<and> \<not> error st \<and>
    (\<forall>fn f R ps vs r s. fn \<in> set fns \<longrightarrow> function_sig fn = Some (f, R, ps) \<longrightarrow> exec_function H fn vs = Some r \<longrightarrow>
       ECStack s = [] \<longrightarrow> mallocs_ok H (frame_sizes st f) (mem s) \<longrightarrow>
       (\<exists>s0 n s' bs m. callFunction H st (MainCtx, f) (map2 gv_of (map snd ps) vs) s = Some s0 \<and> run n H st s0 = Some s' \<and>
          ECStack s' = [] \<and> world s' = world s \<and> mem s' = fold (h_free H) bs m \<and> (\<forall>a \<in> dom (mem s). m a = mem s a) \<and>
          (\<forall>y u. r = Some y \<longrightarrow> R = Some u \<longrightarrow> ExitValue s' = gv_of u y)))"
proof -
  obtain v st where st: "compile jit (start_symbol fns) = Some (v, st)" "\<not> error st" "\<forall>fn \<in> set fns. function_in H fn st"
    using program_compiles [OF assms] by blast
  have "\<exists>s0 n s' bs m. callFunction H st (MainCtx, f) (map2 gv_of (map snd ps) vs) s = Some s0 \<and> run n H st s0 = Some s' \<and>
          ECStack s' = [] \<and> world s' = world s \<and> mem s' = fold (h_free H) bs m \<and> (\<forall>a \<in> dom (mem s). m a = mem s a) \<and>
          (\<forall>y u. r = Some y \<longrightarrow> R = Some u \<longrightarrow> ExitValue s' = gv_of u y)"
    if a: "fn \<in> set fns" "function_sig fn = Some (f, R, ps)" "exec_function H fn vs = Some r" "ECStack s = []"
      "mallocs_ok H (frame_sizes st f) (mem s)" for fn f R ps vs r s
  proof -
    obtain e where e: "computes_function H fn f e R ps st" using st(3) a(1,2) by (auto simp: function_in_def)
    then have entry: "has_entry f (ret_ty R) (param_list ps) e st" by (simp add: computes_function_def)
    have "answers H st f (map snd ps) vs R r s"
      using e entry a(3,5) frame_sizes_entry [OF entry] by (simp add: computes_function_def)
    from answers_run [OF this a(4)] show ?thesis by metis
  qed
  then show ?thesis using st(1,2) by blast
qed

theorem compiled_program_correct_witness:
  "\<exists>v st s0 n s'. compile (\<lambda>_. 0) (start_symbol [plus_two]) = Some (v, st) \<and>
     callFunction small_host st (MainCtx, ''f'') [gv_of IntT (SInt 5)] \<lparr>ECStack = [], ExitValue = GenericValue, mem = Map.empty, world = ()\<rparr> = Some s0 \<and>
     run n small_host st s0 = Some s' \<and> ExitValue s' = gv_of IntT (SInt 7)"
proof -
  let ?s = "\<lparr>ECStack = [], ExitValue = GenericValue, mem = Map.empty, world = ()\<rparr>"
  have "\<forall>fn \<in> set [plus_two]. wt_function fn" "distinct (map fst injected @ map (\<lambda>fn. fst (the (function_sig fn))) [plus_two])"
    using plus_two_ok by simp_all
  from compiled_program_correct [OF this, of "\<lambda>_. 0" small_host] obtain v st where
      st: "compile (\<lambda>_. 0) (start_symbol [plus_two]) = Some (v, st)"
      "\<forall>fn f R ps vs r s. fn \<in> set [plus_two] \<longrightarrow> function_sig fn = Some (f, R, ps) \<longrightarrow> exec_function small_host fn vs = Some r \<longrightarrow>
         ECStack s = [] \<longrightarrow> mallocs_ok small_host (frame_sizes st f) (mem s) \<longrightarrow>
         (\<exists>s0 n s' bs m. callFunction small_host st (MainCtx, f) (map2 gv_of (map snd ps) vs) s = Some s0 \<and> run n small_host st s0 = Some s' \<and>
            ECStack s' = [] \<and> world s' = world s \<and> mem s' = fold (h_free small_host) bs m \<and> (\<forall>a \<in> dom (mem s). m a = mem s a) \<and>
            (\<forall>y u. r = Some y \<longrightarrow> R = Some u \<longrightarrow> ExitValue s' = gv_of u y))"
    by (elim exE conjE) (rule that)
  have "statementCommits plus_two" by (simp add: plus_two_def)
  then obtain cv w where "compile (\<lambda>_. 0) (start_symbol [plus_two]) =
      blockLoop cv (length buildInjections) (map (\<lambda>s. (s, visitStmt s)) [plus_two]) w (injected_state (\<lambda>_. 0))"
      "\<forall>j < length [plus_two]. nth_opt cv (length buildInjections + j) = Some True"
    using compile_start_symbol [of "[plus_two]" "\<lambda>_. 0"] by auto
  then have "compile (\<lambda>_. 0) (start_symbol [plus_two]) = visitStmt plus_two (injected_state (\<lambda>_. 0))"
    by (simp add: injected_state_def CodeGenVisitor_def reconGroup_def bind_assoc split_def)
  then have "frame_sizes st ''f'' = [8, 8]" using st(1) plus_two_frame by auto
  then have "mallocs_ok small_host (frame_sizes st ''f'') (mem ?s)" using small_mallocs by simp
  from st(2) [rule_format, OF _ plus_two_ok(2,3) _ this] show ?thesis using st(1) by auto
qed

text \<open>A compiler state inside of a function, to compile an expression in.\<close>

definition scratch_state :: cg where
  "scratch_state = (CodeGenVisitor (\<lambda>_. 0))\<lparr>nextId := 1, insertPt := [MainCtx \<mapsto> 0],
     bbs := [0 \<mapsto> \<lparr>bb_parent = None, bb_name = ''func'', bb_insts = []\<rparr>]\<rparr>"

lemma scratch_state [simp]:
  "getBuilder scratch_state = MainCtx" "insertPt scratch_state MainCtx = Some 0" "bbs scratch_state 0 \<noteq> None" "declares scratch_state Map.empty"
  by (simp_all add: scratch_state_def getBuilder_def CodeGenVisitor_def declares_def)

text \<open>
  Claim C2. Every well-typed expression over the variables in scope is compiled: no
  diagnostic, instructions only at the end of the current block, a value of the LLVM type that belongs to the type of
  the expression. In every frame and memory in which the stack variables hold the values of the variables, these
  instructions compute the value the reference semantics gives to the expression, and leave memory unchanged.
\<close>

theorem compiled_expression_correct:
  assumes "insertPt st (getBuilder st) = Some b" and "bbs st b \<noteq> None" and "declares st \<Gamma>" and "typeof \<Gamma> e = Some t"
  shows "\<exists>v Is. visitExpr e st = Some (Some v, extend b Is st) \<and> getType v = lty (getBuilder st) t \<and>
    (\<forall>(P :: cg) \<rho> SF m x. represents st \<Gamma> \<rho> SF m \<longrightarrow> eval H \<rho> e = Some x \<longrightarrow>
       has_type x t \<and> (\<exists>SF'. execs H P Is (SF, m) = Some (SF', m) \<and> getOperandValue v SF' = Some (gv_of t x)))"
proof -
  have "emits H P b st (strip (visitExpr e st)) (lty (getBuilder st) t)
      (computes t (\<lambda>SF m y. represents st \<Gamma> \<rho> SF m \<and> eval H \<rho> e = Some y))" for P :: cg and \<rho>
    by (rule visitExpr_emits [OF assms(1,3,4)])
  then obtain v Is where v: "strip (visitExpr e st) = Some (v, extend b Is st)"
      "getType v = lty (getBuilder st) t" "below (nextId st + length Is) v" "numbered (nextId st) Is" "\<forall>(P :: cg) \<rho>. delivers H P (nextId st) Is v
        (computes t (\<lambda>SF m y. represents st \<Gamma> \<rho> SF m \<and> eval H \<rho> e = Some y))"
    by (rule emits_uniform [where D = "\<lambda>(P :: cg) \<rho>. computes t (\<lambda>SF m y. represents st \<Gamma> \<rho> SF m \<and> eval H \<rho> e = Some y)",
        OF _ assms(2)])
  have "has_type x t \<and> (\<exists>SF'. execs H P Is (SF, m) = Some (SF', m) \<and> getOperandValue v SF' = Some (gv_of t x))"
    if x: "represents st \<Gamma> \<rho> SF m" "eval H \<rho> e = Some x" for P :: cg and \<rho> SF m x
  proof
    show t: "has_type x t" by (rule eval_preserves_types [OF represents_env_ok [OF assms(3) x(1)] assms(4) x(2)])
    have "computes t (\<lambda>SF m y. represents st \<Gamma> \<rho> SF m \<and> eval H \<rho> e = Some y) SF m (gv_of t x)"
      using x t by (auto simp: computes_def)
    then show "\<exists>SF'. execs H P Is (SF, m) = Some (SF', m) \<and> getOperandValue v SF' = Some (gv_of t x)"
      using v(5) unfolding delivers_def by blast
  qed
  then show ?thesis using stripD [OF v(1)] v(2) by blast
qed

theorem compiled_expression_correct_witness:
  "\<exists>v Is. visitExpr (BinaryOperator (Integer 7) ''/'' (Integer 2)) scratch_state = Some (Some v, extend 0 Is scratch_state) \<and>
     (\<forall>(P :: cg) SF m. \<exists>SF'. execs small_host P Is (SF, m) = Some (SF', m) \<and> getOperandValue v SF' = Some (gv_of IntT (SInt 3)))"
proof -
  let ?e = "BinaryOperator (Integer 7) ''/'' (Integer 2)"
  have t: "typeof Map.empty ?e = Some IntT" by (simp add: typeof_binary_def op_list_defs)
  have x: "eval small_host Map.empty ?e = Some (SInt 3)" by (simp add: eval_int_def signed_divide_int_def)
  have rep: "represents scratch_state Map.empty Map.empty SF m" for SF m by (simp add: represents_def)
  have ins: "insertPt scratch_state (getBuilder scratch_state) = Some 0" by simp
  show ?thesis
    using compiled_expression_correct [OF ins scratch_state(3,4) t, of small_host] x rep by blast
qed

text \<open>
  Claim C29. The result of \<open>||\<close> or \<open>&&\<close> on integers, beside a float, is converted to a float as the
  signed one-bit number that it is: true becomes \<open>- 1.0\<close>, where the result of a comparison becomes \<open>1.0\<close>.
\<close>

theorem logical_value_as_float:
  assumes "getType l = int1Ty c" and "getType r = TDouble c" and "getBuilder st = c" and "insertPt st c = Some b"
  shows "\<exists>I. promoteOperands l r st = Some ((I, r), extend b [I] st) \<and>
    (\<forall>(H :: 'w host) (P :: 'a llvm_scheme) SF m. getOperandValue l SF = Some (int_gv (i1 True)) \<longrightarrow>
       (\<exists>SF'. execs H P [I] (SF, m) = Some (SF', m) \<and> getOperandValue I SF' = Some (GenericValue\<lparr>Untyped := f_of_int H (- 1)\<rparr>)))"
proof -
  let ?I = "Inst (nextId st) (TDouble c) (Cast SIToFP l (TDouble c))"
  have "promoteOperands l r st = Some ((?I, r), extend b [?I] st)"
    using assms by (simp add: promoteOperands_def castIntToFloat_def CreateCast_def toInt64_def toDouble_def Insert_extend check_def)
  moreover have "\<exists>SF'. execs H P [?I] (SF, m) = Some (SF', m) \<and> getOperandValue ?I SF' = Some (GenericValue\<lparr>Untyped := f_of_int H (- 1)\<rparr>)"
    if "getOperandValue l SF = Some (int_gv (i1 True))" for H :: "'w host" and P :: "'a llvm_scheme" and SF m
    using that by (simp add: in_frame_def i_visitCastInst_def executeSIToFPInst_def roundToDouble_def ap_sext_i1 int_gv_def)
  ultimately show ?thesis by blast
qed

theorem logical_value_as_float_witness:
  "\<exists>I. promoteOperands (Inst 0 (int1Ty MainCtx) (ICmp ICMP_NE (ConstantInt (int64Ty MainCtx) 1) (ConstantInt (int64Ty MainCtx) 0)))
     (ConstantFP (TDouble MainCtx) 0) scratch_state = Some ((I, ConstantFP (TDouble MainCtx) 0), extend 0 [I] scratch_state)"
proof -
  have "getType (Inst 0 (int1Ty MainCtx) (ICmp ICMP_NE (ConstantInt (int64Ty MainCtx) 1) (ConstantInt (int64Ty MainCtx) 0))) = int1Ty MainCtx"
    "getType (ConstantFP (TDouble MainCtx) 0) = TDouble MainCtx" by simp_all
  from logical_value_as_float [OF this scratch_state(1,2)] show ?thesis by blast
qed

text \<open>\<^verbatim>\<open>int x = 1 || 2; x = 5;\<close>\<close>

definition logical_variable :: block where
  "logical_variable = Block (Some [main_fn [
     VariableStatement True (VariableDefinition ''int'' ''x'' (Some (BinaryOperator (Integer 1) ''||'' (Integer 2))) False),
     AssignStatement True (Identifier ''x'') (Integer 5), ReturnStatement True None]])"


end
