(* ===== verification/Fork_Lex.thy ===== *)
theory Fork_Lex
  imports Fork_Prelude
begin

section \<open>The lexer (lex.l)\<close>

text \<open>
  The rules of \<^verbatim>\<open>lex.l\<close>, in their order, and the scanner flex makes of them: the longest match
  wins, the earliest rule on a tie. A pattern is a regular expression; \<open>scan\<close> finds the longest
  prefix it matches by derivatives, and \<open>scan_iff\<close> relates it to the language \<open>matches\<close>.
  \<open>lex\<close> gives the tokens that successive calls of \<open>yylex\<close> return, with what the lexer prints.
\<close>

subsection \<open>Patterns\<close>

datatype pattern =
    Fail
  | Eps
  | OneOf string
  | NoneOf string
  | Then pattern pattern
  | Either pattern pattern
  | Many pattern

inductive matches :: "pattern \<Rightarrow> string \<Rightarrow> bool" where
  matches_Eps: "matches Eps []"
| matches_OneOf: "c \<in> set cs \<Longrightarrow> matches (OneOf cs) [c]"
| matches_NoneOf: "c \<notin> set cs \<Longrightarrow> matches (NoneOf cs) [c]"
| matches_Then: "matches p u \<Longrightarrow> matches q v \<Longrightarrow> matches (Then p q) (u @ v)"
| matches_Left: "matches p u \<Longrightarrow> matches (Either p q) u"
| matches_Right: "matches q u \<Longrightarrow> matches (Either p q) u"
| matches_Stop: "matches (Many p) []"
| matches_More: "matches p u \<Longrightarrow> matches (Many p) v \<Longrightarrow> matches (Many p) (u @ v)"

inductive_simps matches_simps:
  "matches Fail s"
  "matches Eps s"
  "matches (OneOf cs) s"
  "matches (NoneOf cs) s"
  "matches (Then p q) s"
  "matches (Either p q) s"

fun nullable :: "pattern \<Rightarrow> bool" where
  "nullable Fail \<longleftrightarrow> False"
| "nullable Eps \<longleftrightarrow> True"
| "nullable (OneOf cs) \<longleftrightarrow> False"
| "nullable (NoneOf cs) \<longleftrightarrow> False"
| "nullable (Then p q) \<longleftrightarrow> nullable p \<and> nullable q"
| "nullable (Either p q) \<longleftrightarrow> nullable p \<or> nullable q"
| "nullable (Many p) \<longleftrightarrow> True"

definition seq :: "pattern \<Rightarrow> pattern \<Rightarrow> pattern" where
  "seq p q = (if p = Fail then Fail else if p = Eps then q else Then p q)"

definition alt :: "pattern \<Rightarrow> pattern \<Rightarrow> pattern" where
  "alt p q = (if p = Fail then q else if q = Fail \<or> p = q then p else Either p q)"

fun deriv :: "char \<Rightarrow> pattern \<Rightarrow> pattern" where
  "deriv c Fail = Fail"
| "deriv c Eps = Fail"
| "deriv c (OneOf cs) = (if c \<in> set cs then Eps else Fail)"
| "deriv c (NoneOf cs) = (if c \<in> set cs then Fail else Eps)"
| "deriv c (Then p q) =
     (if nullable p then alt (seq (deriv c p) q) (deriv c q) else seq (deriv c p) q)"
| "deriv c (Either p q) = alt (deriv c p) (deriv c q)"
| "deriv c (Many p) = seq (deriv c p) (Many p)"

fun accepts :: "pattern \<Rightarrow> string \<Rightarrow> bool" where
  "accepts p [] \<longleftrightarrow> nullable p"
| "accepts p (c # s) \<longleftrightarrow> accepts (deriv c p) s"

fun scan :: "pattern \<Rightarrow> string \<Rightarrow> nat option" where
  "scan p [] = (if nullable p then Some 0 else None)"
| "scan p (c # s) =
     (if p = Fail then None
      else case scan (deriv c p) s of
        Some n \<Rightarrow> Some (Suc n)
      | None \<Rightarrow> if nullable p then Some 0 else None)"

lemma matches_Nil: "matches p [] \<longleftrightarrow> nullable p"
proof
  have "matches p s \<Longrightarrow> s = [] \<Longrightarrow> nullable p" for s
    by (induction rule: matches.induct) auto
  then show "matches p [] \<Longrightarrow> nullable p" by blast
  show "nullable p \<Longrightarrow> matches p []"
    by (induction p)
      (auto intro: matches_Eps matches_Left matches_Right matches_Stop
        matches_Then [where u = "[]" and v = "[]", simplified])
qed

lemma matches_seq [simp]: "matches (seq p q) s \<longleftrightarrow> matches (Then p q) s"
  by (auto simp: seq_def matches_simps)

lemma matches_alt [simp]: "matches (alt p q) s \<longleftrightarrow> matches (Either p q) s"
  by (auto simp: alt_def matches_simps)

lemma matches_Many_Cons:
  "matches (Many p) (c # s) \<longleftrightarrow>
     (\<exists>u v. s = u @ v \<and> matches p (c # u) \<and> matches (Many p) v)"
proof
  have "matches q t \<Longrightarrow> q = Many p \<Longrightarrow> t = c # s \<Longrightarrow>
      \<exists>u v. s = u @ v \<and> matches p (c # u) \<and> matches (Many p) v" for q t
  proof (induction arbitrary: s rule: matches.induct)
    case (matches_More p' u v)
    then show ?case by (cases u) auto
  qed auto
  then show "matches (Many p) (c # s) \<Longrightarrow>
      \<exists>u v. s = u @ v \<and> matches p (c # u) \<and> matches (Many p) v" by blast
  show "\<exists>u v. s = u @ v \<and> matches p (c # u) \<and> matches (Many p) v \<Longrightarrow>
      matches (Many p) (c # s)"
    using matches_More by fastforce
qed

lemma matches_deriv: "matches (deriv c p) s \<longleftrightarrow> matches p (c # s)"
proof (induction p arbitrary: s)
  case (Then p q)
  have "matches (Then p q) (c # s) \<longleftrightarrow>
      (nullable p \<and> matches q (c # s)) \<or>
      (\<exists>u v. s = u @ v \<and> matches p (c # u) \<and> matches q v)"
    by (simp add: matches_simps Cons_eq_append_conv) (metis matches_Nil)
  then show ?case using Then by (auto simp: matches_simps)
qed (auto simp: matches_simps matches_Many_Cons)

lemma accepts_iff: "accepts p s \<longleftrightarrow> matches p s"
  by (induction s arbitrary: p) (simp_all add: matches_Nil matches_deriv)

lemma all_le_Suc: "(\<forall>m\<le>Suc n. P m) \<longleftrightarrow> P 0 \<and> (\<forall>m\<le>n. P (Suc m))"
  by (metis Suc_le_mono not0_implies_Suc zero_le)

lemma scan_None_iff: "scan p s = None \<longleftrightarrow> (\<forall>m\<le>length s. \<not> matches p (take m s))"
proof (induction s arbitrary: p)
  case Nil
  then show ?case by (simp add: matches_Nil)
next
  case (Cons c s)
  have "(\<forall>m\<le>length (c # s). \<not> matches p (take m (c # s))) \<longleftrightarrow>
      \<not> nullable p \<and> (\<forall>m\<le>length s. \<not> matches (deriv c p) (take m s))"
    by (simp add: all_le_Suc matches_Nil matches_deriv)
  moreover have "scan p (c # s) = None \<longleftrightarrow>
      p = Fail \<or> \<not> nullable p \<and> scan (deriv c p) s = None"
    by (auto split: option.splits)
  ultimately show ?case by (auto simp: Cons.IH matches_simps)
qed

lemma scan_SomeD:
  "scan p s = Some n \<Longrightarrow>
     n \<le> length s \<and> matches p (take n s) \<and> (\<forall>m. n < m \<and> m \<le> length s \<longrightarrow> \<not> matches p (take m s))"
proof (induction s arbitrary: p n)
  case Nil
  then show ?case by (auto simp: matches_Nil split: if_splits)
next
  case (Cons c s)
  show ?case
  proof (cases "scan (deriv c p) s")
    case None
    then have "\<not> matches p (take m (c # s))" if "0 < m" "m \<le> length (c # s)" for m
      using that by (cases m) (auto simp: scan_None_iff matches_deriv)
    with Cons.prems None show ?thesis
      by (auto simp: matches_Nil split: if_splits)
  next
    case (Some k)
    with Cons.prems have n: "n = Suc k" by (auto split: if_splits)
    have "\<not> matches p (take m (c # s))" if "Suc k < m" "m \<le> length (c # s)" for m
      using that Cons.IH [OF Some] by (cases m) (auto simp: matches_deriv)
    with Cons.IH [OF Some] n show ?thesis by (auto simp: matches_deriv)
  qed
qed

lemma scan_iff:
  "scan p s = Some n \<longleftrightarrow>
     n \<le> length s \<and> matches p (take n s) \<and> (\<forall>m. n < m \<and> m \<le> length s \<longrightarrow> \<not> matches p (take m s))"
proof
  assume n: "n \<le> length s \<and> matches p (take n s) \<and>
    (\<forall>m. n < m \<and> m \<le> length s \<longrightarrow> \<not> matches p (take m s))"
  then have "scan p s \<noteq> None" by (auto simp: scan_None_iff)
  then obtain k where k: "scan p s = Some k" by blast
  then show "scan p s = Some n" using n scan_SomeD [OF k] by (metis linorder_cases)
qed (fact scan_SomeD)

subsection \<open>Tokens and rules\<close>

text \<open>
  The kinds are the token names of \<^verbatim>\<open>parser.y\<close> that the lexer returns. A token carries the
  text that \<open>SAVE_TOKEN\<close> copies to \<open>yylval.string\<close>; a token made by the macro \<open>TOKEN\<close> carries none. \<open>at_bol\<close>
  marks the rule with the anchor \<open>^\<close>, tried only at the beginning of a line.
\<close>

datatype kind =
    TENDL | TSET | TEQUAL | TNEQUAL | TLT | TLTE | TGT | TGTE | TLOR | TLAND | TLNOT
  | TLPAREN | TRPAREN | TLBRACE | TRBRACE | TLSBRACE | TRSBRACE | TDOT | TPLUS | TDASH
  | TSTAR | TSLASH | TSCOLON | TSAMPR | TCOMMA | TIF | TWHILE | TRETURN | TINT | TFLOAT
  | TVOID | TSTRUCT | TEXTERN | TELSE | TNULL | TNEW | TFLOATLIT | TINTLIT | TIDENTIFIER

datatype token = Token (kind_of: kind) (yylval: "string option")

datatype action = Ignore | Plain kind | Saved kind | Unknown

record lexer_rule =
  at_bol :: bool
  pat :: pattern
  act :: action

abbreviation newline :: char where "newline \<equiv> CHR 0x0A"

fun lit :: "string \<Rightarrow> pattern" where
  "lit [] = Eps"
| "lit (c # w) = Then (OneOf [c]) (lit w)"

definition some_of :: "string \<Rightarrow> pattern" where
  "some_of cs = Then (OneOf cs) (Many (OneOf cs))"

definition digits :: string where
  "digits = ''0123456789''"

definition letters :: string where
  "letters = ''abcdefghijklmnopqrstuvwxyzABCDEFGHIJKLMNOPQRSTUVWXYZ$_''"

definition anywhere :: "pattern \<Rightarrow> action \<Rightarrow> lexer_rule" where
  "anywhere p a = \<lparr>at_bol = False, pat = p, act = a\<rparr>"

definition at_line_start :: "pattern \<Rightarrow> action \<Rightarrow> lexer_rule" where
  "at_line_start p a = \<lparr>at_bol = True, pat = p, act = a\<rparr>"

definition rules :: "lexer_rule list" where
  "rules =
    [anywhere (OneOf [CHR '' '', CHR 0x09, CHR 0x0D]) Ignore,
     at_line_start (Then (Many (OneOf '' '')) (lit [newline])) Ignore,
     anywhere (Then (lit ''/'') (Then (some_of ''/'')
       (Then (Many (NoneOf [newline])) (lit [newline])))) Ignore,
     anywhere (lit [newline]) (Plain TENDL),
     anywhere (lit ''='') (Plain TSET),
     anywhere (lit ''=='') (Saved TEQUAL),
     anywhere (lit ''!='') (Saved TNEQUAL),
     anywhere (lit ''<'') (Saved TLT),
     anywhere (lit ''<='') (Saved TLTE),
     anywhere (lit ''>'') (Saved TGT),
     anywhere (lit ''>='') (Saved TGTE),
     anywhere (lit ''||'') (Saved TLOR),
     anywhere (lit ''&&'') (Saved TLAND),
     anywhere (lit ''!'') (Saved TLNOT),
     anywhere (lit ''('') (Plain TLPAREN),
     anywhere (lit '')'') (Plain TRPAREN),
     anywhere (lit ''{'') (Plain TLBRACE),
     anywhere (lit ''}'') (Plain TRBRACE),
     anywhere (lit ''['') (Plain TLSBRACE),
     anywhere (lit '']'') (Plain TRSBRACE),
     anywhere (lit ''.'') (Saved TDOT),
     anywhere (lit ''+'') (Saved TPLUS),
     anywhere (lit ''-'') (Saved TDASH),
     anywhere (lit ''*'') (Saved TSTAR),
     anywhere (lit ''/'') (Saved TSLASH),
     anywhere (lit '';'') (Saved TSCOLON),
     anywhere (lit ''&'') (Saved TSAMPR),
     anywhere (lit '','') (Plain TCOMMA),
     anywhere (lit ''if'') (Plain TIF),
     anywhere (lit ''while'') (Plain TWHILE),
     anywhere (lit ''return'') (Plain TRETURN),
     anywhere (lit ''int'') (Plain TINT),
     anywhere (lit ''float'') (Plain TFLOAT),
     anywhere (lit ''void'') (Plain TVOID),
     anywhere (lit ''struct'') (Plain TSTRUCT),
     anywhere (lit ''extern'') (Plain TEXTERN),
     anywhere (lit ''else'') (Plain TELSE),
     anywhere (lit ''NULL'') (Plain TNULL),
     anywhere (lit ''new'') (Saved TNEW),
     anywhere (Then (Many (OneOf digits)) (Then (lit ''.'') (some_of digits)))
       (Saved TFLOATLIT),
     anywhere (some_of digits) (Saved TINTLIT),
     anywhere (Then (OneOf letters) (Many (OneOf (letters @ digits)))) (Saved TIDENTIFIER),
     anywhere (NoneOf [newline]) Unknown]"

definition enabled :: "bool \<Rightarrow> lexer_rule \<Rightarrow> bool" where
  "enabled bol r \<longleftrightarrow> at_bol r \<longrightarrow> bol"

fun best :: "bool \<Rightarrow> lexer_rule list \<Rightarrow> string \<Rightarrow> (nat \<times> action) option" where
  "best bol [] s = None"
| "best bol (r # rs) s =
     (case if enabled bol r then scan (pat r) s else None of
        None \<Rightarrow> best bol rs s
      | Some n \<Rightarrow>
          (case best bol rs s of
             Some (m, a) \<Rightarrow> if n < m then Some (m, a) else Some (n, act r)
           | None \<Rightarrow> Some (n, act r)))"

subsection \<open>Longest match, earliest rule\<close>

definition wins :: "bool \<Rightarrow> lexer_rule list \<Rightarrow> string \<Rightarrow> nat \<Rightarrow> action \<Rightarrow> bool" where
  "wins bol rs s n a \<longleftrightarrow>
     (\<exists>earlier r later. rs = earlier @ r # later \<and> enabled bol r \<and> a = act r \<and>
        n \<le> length s \<and> matches (pat r) (take n s) \<and>
        (\<forall>q\<in>set earlier. enabled bol q \<longrightarrow> \<not> matches (pat q) (take n s)) \<and>
        (\<forall>q\<in>set rs. \<forall>m. enabled bol q \<and> n < m \<and> m \<le> length s \<longrightarrow> \<not> matches (pat q) (take m s)))"

lemma best_None_iff:
  "best bol rs s = None \<longleftrightarrow>
     (\<forall>r\<in>set rs. enabled bol r \<longrightarrow> (\<forall>m\<le>length s. \<not> matches (pat r) (take m s)))"
  by (induction rs) (auto simp flip: scan_None_iff split: option.splits)

lemma wins_here:
  assumes "enabled bol r" "scan (pat r) s = Some n"
    and "\<And>q m. q \<in> set rs \<Longrightarrow> enabled bol q \<Longrightarrow> n < m \<Longrightarrow> m \<le> length s \<Longrightarrow> \<not> matches (pat q) (take m s)"
  shows "wins bol (r # rs) s n (act r)"
  unfolding wins_def using assms
  by (intro exI [of _ "[]"] exI [of _ r] exI [of _ rs]) (auto simp: scan_iff)

lemma wins_later:
  assumes "wins bol rs s n a"
    and "enabled bol r \<Longrightarrow> \<forall>m. n \<le> m \<and> m \<le> length s \<longrightarrow> \<not> matches (pat r) (take m s)"
  shows "wins bol (r # rs) s n a"
proof -
  from assms(1) obtain earlier q later where
    q: "rs = earlier @ q # later" "enabled bol q" "a = act q" "n \<le> length s"
      "matches (pat q) (take n s)"
      "\<forall>p\<in>set earlier. enabled bol p \<longrightarrow> \<not> matches (pat p) (take n s)"
      "\<forall>p\<in>set rs. \<forall>m. enabled bol p \<and> n < m \<and> m \<le> length s \<longrightarrow> \<not> matches (pat p) (take m s)"
    unfolding wins_def by blast
  then show ?thesis
    unfolding wins_def using assms(2)
    by (intro exI [of _ "r # earlier"] exI [of _ q] exI [of _ later]) (auto simp: less_imp_le)
qed

lemma best_wins: "best bol rs s = Some (n, a) \<Longrightarrow> wins bol rs s n a"
proof (induction rs arbitrary: n a)
  case (Cons r rs)
  show ?case
  proof (cases "if enabled bol r then scan (pat r) s else None")
    case None
    with Cons.prems have "wins bol rs s n a" by (intro Cons.IH) (simp split: if_splits)
    with None show ?thesis
      by (intro wins_later) (auto simp: scan_None_iff split: if_splits)
  next
    case (Some k)
    then have r: "enabled bol r" "scan (pat r) s = Some k" by (auto split: if_splits)
    show ?thesis
    proof (cases "best bol rs s")
      case None
      with Cons.prems r show ?thesis
        by (auto simp: best_None_iff intro!: wins_here)
    next
      case (Some p)
      then obtain m b where m: "best bol rs s = Some (m, b)" by (cases p) auto
      note w = Cons.IH [OF m]
      show ?thesis
      proof (cases "k < m")
        case True
        then have "wins bol (r # rs) s m b"
          using r w by (intro wins_later) (auto simp: scan_iff)
        then show ?thesis using Cons.prems r m True by simp
      next
        case False
        then have "wins bol (r # rs) s k (act r)"
          using r w by (intro wins_here) (auto simp: wins_def)
        then show ?thesis using Cons.prems r m False by simp
      qed
    qed
  qed
qed simp

lemma first_rule_unique:
  assumes "xs @ x # ys = xs' @ x' # ys'"
    and "P x" "P x'" "\<forall>q\<in>set xs. \<not> P q" "\<forall>q\<in>set xs'. \<not> P q"
  shows "x = x'"
proof -
  have "find P (as @ a # bs) = Some a" if "P a" "\<forall>q\<in>set as. \<not> P q" for as a bs
    using that by (induction as) auto
  from this [of x xs ys] this [of x' xs' ys'] show ?thesis using assms by simp
qed

lemma wins_unique:
  assumes "wins bol rs s n a" "wins bol rs s m b"
  shows "n = m \<and> a = b"
proof -
  have nm: "n = m"
    using assms unfolding wins_def by (metis in_set_conv_decomp linorder_neqE_nat)
  from assms(1) obtain e r l where r: "rs = e @ r # l" "enabled bol r" "a = act r"
      "matches (pat r) (take n s)" "\<forall>q\<in>set e. enabled bol q \<longrightarrow> \<not> matches (pat q) (take n s)"
    unfolding wins_def by blast
  from assms(2) obtain e' r' l' where r': "rs = e' @ r' # l'" "enabled bol r'" "b = act r'"
      "matches (pat r') (take n s)" "\<forall>q\<in>set e'. enabled bol q \<longrightarrow> \<not> matches (pat q) (take n s)"
    unfolding wins_def nm by blast
  have "r = r'"
    using r r' by (intro first_rule_unique [where P = "\<lambda>q. enabled bol q \<and> matches (pat q) (take n s)"
      and xs = e and ys = l and xs' = e' and ys' = l']) auto
  with nm r r' show ?thesis by simp
qed

lemma best_iff_wins: "best bol rs s = Some (n, a) \<longleftrightarrow> wins bol rs s n a"
proof
  assume w: "wins bol rs s n a"
  then have "best bol rs s \<noteq> None"
    unfolding wins_def by (auto simp: best_None_iff)
  then obtain m b where "best bol rs s = Some (m, b)" by auto
  with w show "best bol rs s = Some (n, a)" using best_wins wins_unique by blast
qed (fact best_wins)

subsection \<open>The scanner\<close>

text \<open>
  \<open>lex bol s\<close> scans the rest \<open>s\<close> of the file; \<open>bol\<close> is flex's \<open>yy_at_bol\<close>, set when the last character consumed is
  a newline and at the start of the file. The last rule prints the character and ends the
  input with \<open>yyterminate()\<close>, as the end of the file does.
\<close>

lemma rules_consume: "\<forall>r\<in>set rules. \<not> nullable (pat r)"
  by (simp add: rules_def anywhere_def at_line_start_def some_of_def)

declare lit.simps [simp del]

lemma best_positive: "best bol rules s = Some (n, a) \<Longrightarrow> 0 < n"
  using rules_consume unfolding best_iff_wins wins_def
  by (metis gr0I in_set_conv_decomp matches_Nil take_0)

lemma best_length: "best bol rs s = Some (n, a) \<Longrightarrow> n \<le> length s"
  unfolding best_iff_wins wins_def by blast

function lex :: "bool \<Rightarrow> string \<Rightarrow> token list \<times> string list" where
  "lex bol s =
     (case best bol rules s of
        None \<Rightarrow> ([], [])
      | Some (n, a) \<Rightarrow>
          (let yytext = take n s;
               rest = lex (last yytext = newline) (drop n s)
           in case a of
                Ignore \<Rightarrow> rest
              | Plain k \<Rightarrow> (Token k None # fst rest, snd rest)
              | Saved k \<Rightarrow> (Token k (Some yytext) # fst rest, snd rest)
              | Unknown \<Rightarrow> ([], [''Unknown token encountered in lexer: '' @ yytext @ [newline]])))"
  by pat_completeness auto
termination
proof (relation "measure (\<lambda>(bol, s). length s)")
  fix bol s p n a yytext
  assume "best bol rules s = Some p" "(n, a) = p"
  then show "((last yytext = newline, drop n s), bol, s) \<in> measure (\<lambda>(bol, s). length s)"
    using best_positive best_length by fastforce
qed simp

declare lex.simps [simp del]

end
