(* ===== verification/Fork_Grammar.thy ===== *)
theory Fork_Grammar
  imports Fork_Main Fork_Lex
begin

section \<open>The grammar (parser.y)\<close>

text \<open>
  The productions of \<^verbatim>\<open>parser.y\<close> with their actions, one inductive relation per nonterminal:
  \<open>derives_exp lib ts e\<close> says that the nonterminal \<open>exp\<close> derives the tokens \<open>ts\<close> and that the actions of
  this derivation build \<open>e\<close>. Bison generates from the file a parser that follows one derivation of
  its input; which one, where the grammar is ambiguous, is decided by its conflict resolution and
  is not modelled. A token of the macro \<open>TOKEN\<close> has no text (\<open>plain\<close>).

  \<open>atol\<close> is defined by the C standard when the number fits a \<open>long\<close>; \<open>atol_overflow\<close> stands for what
  the C library returns otherwise, and \<open>atof\<close> for its conversion of decimal fractions.
\<close>

subsection \<open>Leaves\<close>

record numerals =
  atol_overflow :: "string \<Rightarrow> int64"
  atof :: "string \<Rightarrow> double"

definition atol :: "numerals \<Rightarrow> string \<Rightarrow> int64" where
  "atol lib w =
     (if digits_value (rev w) < 2 ^ 63 then word_of_nat (digits_value (rev w)) else atol_overflow lib w)"

abbreviation plain :: "kind \<Rightarrow> token" where
  "plain k \<equiv> Token k None"

abbreviation semicolon :: "token \<Rightarrow> bool" where
  "semicolon t \<equiv> kind_of t = TSCOLON"

abbreviation star :: "token \<Rightarrow> bool" where
  "star t \<equiv> kind_of t = TSTAR"

inductive derives_ident :: "token list \<Rightarrow> string \<Rightarrow> bool" where
  ident: "derives_ident [Token TIDENTIFIER (Some w)] w"

inductive derives_var_keyword :: "token list \<Rightarrow> keyword \<Rightarrow> bool" where
  kw_int: "derives_var_keyword [plain TINT] ''int''"
| kw_float: "derives_var_keyword [plain TFLOAT] ''float''"
| kw_void: "derives_var_keyword [plain TVOID] ''void''"

inductive derives_numeric :: "numerals \<Rightarrow> token list \<Rightarrow> expression \<Rightarrow> bool" for lib where
  intlit: "derives_numeric lib [Token TINTLIT (Some w)] (Integer (atol lib w))"
| floatlit: "derives_numeric lib [Token TFLOATLIT (Some w)] (Float (atof lib w))"

definition binary_kinds :: "kind list" where
  "binary_kinds = [TEQUAL, TNEQUAL, TLT, TLTE, TGT, TGTE, TDASH, TPLUS, TSTAR, TSLASH, TLOR, TLAND]"

definition unary_kinds :: "kind list" where
  "unary_kinds = [TDASH, TLNOT, TNEW]"

inductive derives_binaryOperatorToken :: "token list \<Rightarrow> string \<Rightarrow> bool" where
  binop: "k \<in> set binary_kinds \<Longrightarrow> derives_binaryOperatorToken [Token k (Some w)] w"

inductive derives_unaryOperatorToken :: "token list \<Rightarrow> string \<Rightarrow> bool" where
  unop: "k \<in> set unary_kinds \<Longrightarrow> derives_unaryOperatorToken [Token k (Some w)] w"

subsection \<open>Expressions\<close>

inductive derives_exp :: "numerals \<Rightarrow> token list \<Rightarrow> expression \<Rightarrow> bool"
  and derives_rexp :: "numerals \<Rightarrow> token list \<Rightarrow> expression \<Rightarrow> bool"
  and derives_callArgs :: "numerals \<Rightarrow> token list \<Rightarrow> expression list \<Rightarrow> bool"
  for lib where
  exp_binary: "derives_exp lib xs a \<Longrightarrow> derives_binaryOperatorToken os w \<Longrightarrow> derives_exp lib ys b \<Longrightarrow>
    derives_exp lib (xs @ os @ ys) (BinaryOperator a w b)"
| exp_unary: "derives_unaryOperatorToken os w \<Longrightarrow> derives_exp lib xs a \<Longrightarrow>
    derives_exp lib (os @ xs) (UnaryOperator w a)"
| exp_numeric: "derives_numeric lib xs a \<Longrightarrow> derives_exp lib xs a"
| exp_rexp: "derives_rexp lib xs a \<Longrightarrow> derives_exp lib xs a"
| exp_null: "derives_exp lib [plain TNULL] NullLiteral"
| exp_paren: "derives_exp lib xs a \<Longrightarrow> derives_exp lib (plain TLPAREN # xs @ [plain TRPAREN]) a"
| exp_equal: "derives_exp lib xs a \<Longrightarrow> derives_exp lib ys b \<Longrightarrow>
    derives_exp lib (xs @ Token TEQUAL (Some w) # ys) (BinaryOperator a w b)"
| exp_call: "derives_ident is i \<Longrightarrow> derives_callArgs lib xs as \<Longrightarrow>
    derives_exp lib (is @ plain TLPAREN # xs @ [plain TRPAREN]) (FunctionCall i as)"
| exp_address: "kind_of a = TSAMPR \<Longrightarrow> derives_ident is i \<Longrightarrow>
    derives_exp lib (a # is) (AddressOfExpression i None)"
| exp_address_at: "kind_of a = TSAMPR \<Longrightarrow> derives_ident is i \<Longrightarrow> derives_exp lib xs e \<Longrightarrow>
    derives_exp lib (a # is @ plain TLSBRACE # xs @ [plain TRSBRACE]) (AddressOfExpression i (Some e))"
| rexp_ident: "derives_ident is i \<Longrightarrow> derives_rexp lib is (Identifier i)"
| rexp_deref: "star s \<Longrightarrow> derives_ident is i \<Longrightarrow>
    derives_rexp lib (s # is) (PointerExpression i (Some (Integer 0)) None)"
| rexp_index: "derives_ident is i \<Longrightarrow> derives_exp lib xs e \<Longrightarrow>
    derives_rexp lib (is @ plain TLSBRACE # xs @ [plain TRSBRACE]) (PointerExpression i (Some e) None)"
| rexp_field: "derives_ident is i \<Longrightarrow> kind_of d = TDOT \<Longrightarrow> derives_ident fs f \<Longrightarrow>
    derives_rexp lib (is @ d # fs) (StructureExpression i f)"
| rexp_deref_field: "star s \<Longrightarrow> derives_ident is i \<Longrightarrow> kind_of d = TDOT \<Longrightarrow> derives_ident fs f \<Longrightarrow>
    derives_rexp lib (s # is @ d # fs) (PointerExpression i (Some (Integer 0)) (Some f))"
| callArgs_empty: "derives_callArgs lib [] []"
| callArgs_one: "derives_exp lib xs e \<Longrightarrow> derives_callArgs lib xs [e]"
| callArgs_more: "derives_callArgs lib xs es \<Longrightarrow> derives_exp lib ys e \<Longrightarrow>
    derives_callArgs lib (xs @ plain TCOMMA # ys) (es @ [e])"

subsection \<open>Declarations\<close>

inductive derives_variableDec :: "numerals \<Rightarrow> token list \<Rightarrow> variableDefinition \<Rightarrow> bool" for lib where
  var: "derives_var_keyword ks k \<Longrightarrow> derives_ident is i \<Longrightarrow>
    derives_variableDec lib (ks @ is) (VariableDefinition k i None False)"
| var_pointer: "derives_var_keyword ks k \<Longrightarrow> star s \<Longrightarrow> derives_ident is i \<Longrightarrow>
    derives_variableDec lib (ks @ s # is) (VariableDefinition k i None True)"
| var_struct: "derives_ident us u \<Longrightarrow> derives_ident is i \<Longrightarrow>
    derives_variableDec lib (us @ is) (StructureDeclaration u i False)"
| var_struct_pointer: "derives_ident us u \<Longrightarrow> star s \<Longrightarrow> derives_ident is i \<Longrightarrow>
    derives_variableDec lib (us @ s # is) (StructureDeclaration u i True)"
| var_init: "derives_var_keyword ks k \<Longrightarrow> derives_ident is i \<Longrightarrow> derives_exp lib xs e \<Longrightarrow>
    derives_variableDec lib (ks @ is @ plain TSET # xs) (VariableDefinition k i (Some e) False)"
| var_pointer_init: "derives_var_keyword ks k \<Longrightarrow> star s \<Longrightarrow> derives_ident is i \<Longrightarrow>
    derives_exp lib xs e \<Longrightarrow>
    derives_variableDec lib (ks @ s # is @ plain TSET # xs) (VariableDefinition k i (Some e) True)"

inductive derives_functionArgs :: "numerals \<Rightarrow> token list \<Rightarrow> variableDefinition list \<Rightarrow> bool" for lib where
  functionArgs_empty: "derives_functionArgs lib [] []"
| functionArgs_one: "derives_variableDec lib xs v \<Longrightarrow> derives_functionArgs lib xs [v]"
| functionArgs_more: "derives_functionArgs lib xs vs \<Longrightarrow> derives_variableDec lib ys v \<Longrightarrow>
    derives_functionArgs lib (xs @ plain TCOMMA # ys) (vs @ [v])"

inductive derives_externStatement :: "numerals \<Rightarrow> token list \<Rightarrow> statement \<Rightarrow> bool" for lib where
  extern_pointer: "derives_var_keyword ks k \<Longrightarrow> star s \<Longrightarrow> derives_ident is i \<Longrightarrow>
    derives_functionArgs lib as vs \<Longrightarrow> semicolon t \<Longrightarrow>
    derives_externStatement lib
      (plain TEXTERN # ks @ s # is @ plain TLPAREN # as @ plain TRPAREN # [t])
      (ExternStatement_new k i vs True)"
| extern_value: "derives_var_keyword ks k \<Longrightarrow> derives_ident is i \<Longrightarrow>
    derives_functionArgs lib as vs \<Longrightarrow> semicolon t \<Longrightarrow>
    derives_externStatement lib
      (plain TEXTERN # ks @ is @ plain TLPAREN # as @ plain TRPAREN # [t])
      (ExternStatement_new k i vs False)"

inductive derives_structDec_b :: "token list \<Rightarrow> string \<Rightarrow> bool" where
  structDec_b: "derives_ident is i \<Longrightarrow> derives_structDec_b (plain TSTRUCT # is) i"

subsection \<open>Statements and blocks\<close>

text \<open>A statement is built with the flag \<open>false\<close>; the actions call \<open>setCommit\<close> as written.\<close>

inductive derives_statement :: "numerals \<Rightarrow> token list \<Rightarrow> statement \<Rightarrow> bool"
  and derives_statements :: "numerals \<Rightarrow> token list \<Rightarrow> statement list \<Rightarrow> bool"
  and derives_block :: "numerals \<Rightarrow> token list \<Rightarrow> block \<Rightarrow> bool"
  and derives_functionDec :: "numerals \<Rightarrow> token list \<Rightarrow> statement \<Rightarrow> bool"
  and derives_structDec_f :: "numerals \<Rightarrow> token list \<Rightarrow> statement \<Rightarrow> bool"
  and derives_if_statement :: "numerals \<Rightarrow> token list \<Rightarrow> statement \<Rightarrow> bool"
  for lib where
  stmt_var_semi: "derives_variableDec lib xs v \<Longrightarrow> semicolon t \<Longrightarrow>
    derives_statement lib (xs @ [t, plain TENDL]) (setCommit True (VariableStatement False v))"
| stmt_var: "derives_variableDec lib xs v \<Longrightarrow>
    derives_statement lib (xs @ [plain TENDL]) (setCommit False (VariableStatement False v))"
| stmt_function: "derives_functionDec lib xs s \<Longrightarrow> derives_statement lib (xs @ [plain TENDL]) s"
| stmt_struct: "derives_structDec_f lib xs s \<Longrightarrow> derives_statement lib (xs @ [plain TENDL]) s"
| stmt_if: "derives_if_statement lib xs s \<Longrightarrow> derives_statement lib (xs @ [plain TENDL]) s"
| stmt_extern: "derives_externStatement lib xs s \<Longrightarrow> derives_statement lib (xs @ [plain TENDL]) s"
| stmt_assign: "derives_rexp lib xs a \<Longrightarrow> derives_exp lib ys e \<Longrightarrow>
    derives_statement lib (xs @ plain TSET # ys @ [plain TENDL])
      (setCommit False (AssignStatement False a e))"
| stmt_assign_semi: "derives_rexp lib xs a \<Longrightarrow> derives_exp lib ys e \<Longrightarrow> semicolon t \<Longrightarrow>
    derives_statement lib (xs @ plain TSET # ys @ [t, plain TENDL])
      (setCommit True (AssignStatement False a e))"
| stmt_exp: "derives_exp lib xs e \<Longrightarrow>
    derives_statement lib (xs @ [plain TENDL]) (setCommit False (ExpressionStatement False e))"
| stmt_exp_semi: "derives_exp lib xs e \<Longrightarrow> semicolon t \<Longrightarrow>
    derives_statement lib (xs @ [t, plain TENDL]) (setCommit True (ExpressionStatement False e))"
| stmt_return_line: "derives_statement lib [plain TRETURN, plain TENDL] (ReturnStatement False None)"
| stmt_return_semi_line: "semicolon t \<Longrightarrow>
    derives_statement lib [plain TRETURN, t, plain TENDL] (ReturnStatement False None)"
| stmt_return_exp_line: "derives_exp lib xs e \<Longrightarrow>
    derives_statement lib (plain TRETURN # xs @ [plain TENDL]) (ReturnStatement False (Some e))"
| stmt_return: "derives_statement lib [plain TRETURN] (ReturnStatement False None)"
| stmt_return_exp: "derives_exp lib xs e \<Longrightarrow>
    derives_statement lib (plain TRETURN # xs) (ReturnStatement False (Some e))"
| stmt_return_exp_semi: "derives_exp lib xs e \<Longrightarrow> semicolon t \<Longrightarrow>
    derives_statement lib (plain TRETURN # xs @ [t]) (ReturnStatement False (Some e))"
| stmts_one: "derives_statement lib xs s \<Longrightarrow> derives_statements lib xs [s]"
| stmts_more: "derives_statements lib xs ss \<Longrightarrow> derives_statement lib ys s \<Longrightarrow>
    derives_statements lib (xs @ ys) (ss @ [s])"
| block_tight: "derives_statements lib xs ss \<Longrightarrow>
    derives_block lib (plain TLBRACE # xs @ [plain TRBRACE]) (Block (Some ss))"
| block_line: "derives_statements lib xs ss \<Longrightarrow>
    derives_block lib (plain TLBRACE # plain TENDL # xs @ [plain TRBRACE]) (Block (Some ss))"
| block_line_after: "derives_statements lib xs ss \<Longrightarrow>
    derives_block lib (plain TLBRACE # xs @ [plain TENDL, plain TRBRACE]) (Block (Some ss))"
| block_lines: "derives_statements lib xs ss \<Longrightarrow>
    derives_block lib (plain TLBRACE # plain TENDL # xs @ [plain TENDL, plain TRBRACE]) (Block (Some ss))"
| block_empty: "derives_block lib [plain TLBRACE, plain TRBRACE] (Block None)"
| block_empty_line: "derives_block lib [plain TLBRACE, plain TENDL, plain TRBRACE] (Block None)"
| fn_value: "derives_var_keyword ks k \<Longrightarrow> derives_ident is i \<Longrightarrow> derives_functionArgs lib as vs \<Longrightarrow>
    derives_block lib bs b \<Longrightarrow>
    derives_functionDec lib (ks @ is @ plain TLPAREN # as @ plain TRPAREN # bs)
      (FunctionDefinition False (Some k) None i vs b False)"
| fn_pointer: "derives_var_keyword ks k \<Longrightarrow> star s \<Longrightarrow> derives_ident is i \<Longrightarrow>
    derives_functionArgs lib as vs \<Longrightarrow> derives_block lib bs b \<Longrightarrow>
    derives_functionDec lib (ks @ s # is @ plain TLPAREN # as @ plain TRPAREN # bs)
      (FunctionDefinition False (Some k) None i vs b True)"
| fn_struct: "derives_ident us u \<Longrightarrow> derives_ident is i \<Longrightarrow> derives_functionArgs lib as vs \<Longrightarrow>
    derives_block lib bs b \<Longrightarrow>
    derives_functionDec lib (us @ is @ plain TLPAREN # as @ plain TRPAREN # bs)
      (FunctionDefinition False None (Some u) i vs b False)"
| fn_struct_pointer: "derives_ident us u \<Longrightarrow> star s \<Longrightarrow> derives_ident is i \<Longrightarrow>
    derives_functionArgs lib as vs \<Longrightarrow> derives_block lib bs b \<Longrightarrow>
    derives_functionDec lib (us @ s # is @ plain TLPAREN # as @ plain TRPAREN # bs)
      (FunctionDefinition False None (Some u) i vs b True)"
| struct_def: "derives_structDec_b xs i \<Longrightarrow> derives_block lib bs b \<Longrightarrow> semicolon t \<Longrightarrow>
    derives_structDec_f lib (xs @ bs @ [t]) (StructureDefinition False i b)"
| if_then: "derives_exp lib xs e \<Longrightarrow> derives_block lib bs b \<Longrightarrow>
    derives_if_statement lib (plain TIF # plain TLPAREN # xs @ plain TRPAREN # bs)
      (IfStatement False e b None)"
| if_else: "derives_exp lib xs e \<Longrightarrow> derives_block lib bs b \<Longrightarrow> derives_block lib cs c \<Longrightarrow>
    derives_if_statement lib (plain TIF # plain TLPAREN # xs @ plain TRPAREN # bs @ plain TELSE # cs)
      (IfStatement False e b (Some c))"

inductive derives_program :: "numerals \<Rightarrow> token list \<Rightarrow> block \<Rightarrow> bool" for lib where
  program: "derives_statements lib xs ss \<Longrightarrow> derives_program lib xs (start_symbol ss)"

end
