(* ===== verification/Fork_Lex_Correct.thy ===== *)
theory Fork_Lex_Correct
  imports Fork_Lex
begin

section \<open>Properties of the lexer\<close>

text \<open>
  Which tokens there are and how they are written (\<open>proper\<close>, \<open>spelling\<close>, independently of the
  rules), and that the lexer reads them back: every sequence of proper tokens, written with a
  space after each token, is its own token list.
\<close>

subsection \<open>The languages of the rules\<close>

lemma matches_lit [simp]: "matches (lit k) v \<longleftrightarrow> v = k"
proof (induction k arbitrary: v)
  case (Cons c k)
  show ?case by (auto simp: lit.simps matches_simps Cons.IH)
qed (simp add: lit.simps matches_simps)

lemma matches_Many_chars:
  assumes "\<And>u. matches p u \<longleftrightarrow> (\<exists>c. u = [c] \<and> P c)"
  shows "matches (Many p) v \<longleftrightarrow> (\<forall>c\<in>set v. P c)"
proof (induction v)
  case (Cons c v)
  then show ?case using assms by (auto simp: matches_Many_Cons)
qed (simp add: matches_Nil)

lemma matches_Many_OneOf [simp]: "matches (Many (OneOf cs)) v \<longleftrightarrow> set v \<subseteq> set cs"
  by (subst matches_Many_chars [where P = "\<lambda>c. c \<in> set cs"]) (auto simp: matches_simps)

lemma matches_Many_NoneOf [simp]: "matches (Many (NoneOf cs)) v \<longleftrightarrow> set v \<inter> set cs = {}"
  by (subst matches_Many_chars [where P = "\<lambda>c. c \<notin> set cs"]) (auto simp: matches_simps)

lemma matches_Then_OneOf:
  "matches (Then (OneOf cs) q) v \<longleftrightarrow> v \<noteq> [] \<and> hd v \<in> set cs \<and> matches q (tl v)"
proof
  assume "v \<noteq> [] \<and> hd v \<in> set cs \<and> matches q (tl v)"
  then have "matches (Then (OneOf cs) q) ([hd v] @ tl v)" by (intro matches.intros) auto
  then show "matches (Then (OneOf cs) q) v" using \<open>v \<noteq> [] \<and> _\<close> by simp
qed (auto simp: matches_simps)

lemma matches_some_of [simp]: "matches (some_of cs) v \<longleftrightarrow> v \<noteq> [] \<and> set v \<subseteq> set cs"
  by (cases v) (auto simp: some_of_def matches_Then_OneOf)

lemma matches_comment:
  "matches (Then (lit ''/'') (Then (some_of ''/'') (Then (Many (NoneOf [newline])) (lit [newline])))) v
     \<longleftrightarrow> (\<exists>w. v = ''//'' @ w @ [newline] \<and> newline \<notin> set w)"
    (is "?lhs \<longleftrightarrow> ?rhs")
proof
  assume ?lhs
  then obtain a b where v: "v = ''/'' @ a @ b @ [newline]" "a \<noteq> []" "set a \<subseteq> {CHR ''/''}"
      "newline \<notin> set b"
    by (auto simp: matches_simps)
  then obtain a' where "a = CHR ''/'' # a'" by (cases a) auto
  with v show ?rhs by (intro exI [of _ "a' @ b"]) auto
next
  assume ?rhs
  then obtain w where v: "v = ''/'' @ ''/'' @ w @ [newline]" and w: "newline \<notin> set w" by auto
  show ?lhs unfolding v using w by (intro matches_Then) auto
qed

lemma matches_identifier:
  "matches (Then (OneOf letters) (Many (OneOf (letters @ digits)))) v \<longleftrightarrow>
     v \<noteq> [] \<and> hd v \<in> set letters \<and> set v \<subseteq> set letters \<union> set digits"
  by (cases v) (auto simp: matches_Then_OneOf)

lemma matches_float:
  "matches (Then (Many (OneOf digits)) (Then (lit ''.'') (some_of digits))) v \<longleftrightarrow>
     (\<exists>a b. v = a @ ''.'' @ b \<and> set a \<subseteq> set digits \<and> b \<noteq> [] \<and> set b \<subseteq> set digits)"
  by (auto simp: matches_simps)

lemma matches_blank_line:
  "matches (Then (Many (OneOf '' '')) (lit [newline])) v \<longleftrightarrow>
     (\<exists>w. v = w @ [newline] \<and> set w \<subseteq> {CHR '' ''})"
  by (auto simp: matches_simps)

lemmas rule_languages = matches_comment matches_identifier matches_float matches_blank_line

lemmas rules_unfold = rules_def anywhere_def at_line_start_def

subsection \<open>Where a token ends\<close>

definition stops :: "string \<Rightarrow> bool" where
  "stops w \<longleftrightarrow> w \<noteq> [] \<and> CHR '' '' \<notin> set w \<and> newline \<notin> set w \<and> take 2 w \<noteq> ''//''"

lemma space_ends_token:
  assumes w: "stops w" and r: "r \<in> set rules"
  shows "\<not> matches (pat r) (w @ CHR '' '' # v)"
proof -
  define x where "x = w @ CHR '' '' # v"
  have w': "w \<noteq> []" "CHR '' '' \<notin> set w" "newline \<notin> set w" "take 2 w \<noteq> ''//''"
    using w by (auto simp: stops_def)
  have space: "CHR '' '' \<in> set x" by (simp add: x_def)
  have lits: "x \<noteq> k" if "CHR '' '' \<notin> set k" for k
    using that space by blast
  have one: "x \<noteq> [c]" for c
    using w'(1) by (cases w) (auto simp: x_def)
  have comment: "x \<noteq> CHR ''/'' # CHR ''/'' # u" for u
    using w' by (cases w; cases "tl w") (auto simp: x_def numeral_2_eq_2)
  have blank: "x \<noteq> u @ [newline]" if "set u \<subseteq> {CHR '' ''}" for u
    using w' that by (cases w; cases u) (auto simp: x_def)
  have ident: "\<not> set x \<subseteq> set letters \<union> set digits" and int: "\<not> set x \<subseteq> set digits"
    using space by (auto simp: letters_def digits_def)
  have float: "x \<noteq> a @ CHR ''.'' # b"
    if "set a \<subseteq> set digits" "b \<noteq> [] \<and> set b \<subseteq> set digits" for a b
    using space that by (auto simp: digits_def)
  have "list_all (\<lambda>r. \<not> matches (pat r) x) rules"
    unfolding rules_unfold
    by (simp add: rule_languages matches_simps(3,4) one lits comment ident int)
      (use blank float in blast)
  with r show ?thesis by (simp add: list_all_iff x_def)
qed

lemma best_longest:
  assumes r: "find (\<lambda>r. enabled bol r \<and> matches (pat r) (take n s)) rules = Some r"
    and n: "n \<le> length s"
    and longer: "\<And>q m. q \<in> set rules \<Longrightarrow> enabled bol q \<Longrightarrow> n < m \<Longrightarrow> m \<le> length s \<Longrightarrow>
      \<not> matches (pat q) (take m s)"
  shows "best bol rules s = Some (n, act r)"
proof -
  obtain i where i: "i < length rules" "r = rules ! i" "enabled bol r" "matches (pat r) (take n s)"
      "\<forall>j<i. \<not> (enabled bol (rules ! j) \<and> matches (pat (rules ! j)) (take n s))"
    using r by (auto simp: find_Some_iff)
  have "rules = take i rules @ r # drop (Suc i) rules"
    using i by (simp add: id_take_nth_drop)
  moreover have "\<forall>q\<in>set (take i rules). \<not> (enabled bol q \<and> matches (pat q) (take n s))"
    using i by (auto simp: in_set_conv_nth)
  ultimately have "wins bol rules s n (act r)"
    unfolding wins_def using longer i n
    by (intro exI [of _ "take i rules"] exI [of _ r] exI [of _ "drop (Suc i) rules"]) simp
  then show ?thesis by (simp add: best_iff_wins)
qed

lemma best_token:
  assumes w: "stops w" and r: "find (\<lambda>r. matches (pat r) w) rules = Some r" "\<not> at_bol r"
  shows "best bol rules (w @ CHR '' '' # s) = Some (length w, act r)"
proof (rule best_longest)
  have "find (\<lambda>r. enabled bol r \<and> matches (pat r) w) rs = Some r"
    if "find (\<lambda>r. matches (pat r) w) rs = Some r" "\<not> at_bol r" for rs
    using that by (induction rs) (auto simp: enabled_def split: if_splits)
  with r show "find (\<lambda>r. enabled bol r \<and> matches (pat r) (take (length w) (w @ CHR '' '' # s))) rules = Some r"
    by simp
next
  fix q m
  assume q: "q \<in> set rules" and "length w < m"
  then obtain k where "m = Suc (length w + k)" using less_imp_Suc_add by blast
  then show "\<not> matches (pat q) (take m (w @ CHR '' '' # s))"
    using space_ends_token [OF w q, of "take k s"] by simp
qed simp

subsection \<open>How tokens are written\<close>

definition reserved_words :: "(kind \<times> string) list" where
  "reserved_words = [(TIF, ''if''), (TWHILE, ''while''), (TRETURN, ''return''), (TINT, ''int''),
     (TFLOAT, ''float''), (TVOID, ''void''), (TSTRUCT, ''struct''), (TEXTERN, ''extern''),
     (TELSE, ''else''), (TNULL, ''NULL'')]"

definition punctuation :: "(kind \<times> string) list" where
  "punctuation = [(TSET, ''=''), (TLPAREN, ''(''), (TRPAREN, '')''), (TLBRACE, ''{''),
     (TRBRACE, ''}''), (TLSBRACE, ''[''), (TRSBRACE, '']''), (TCOMMA, '','')]"

definition operators :: "(kind \<times> string) list" where
  "operators = [(TEQUAL, ''==''), (TNEQUAL, ''!=''), (TLT, ''<''), (TLTE, ''<=''), (TGT, ''>''),
     (TGTE, ''>=''), (TLOR, ''||''), (TLAND, ''&&''), (TLNOT, ''!''), (TDOT, ''.''),
     (TPLUS, ''+''), (TDASH, ''-''), (TSTAR, ''*''), (TSLASH, ''/''), (TSCOLON, '';''),
     (TSAMPR, ''&''), (TNEW, ''new'')]"

definition ident_name :: "string \<Rightarrow> bool" where
  "ident_name w \<longleftrightarrow> w \<noteq> [] \<and> hd w \<in> set letters \<and> set w \<subseteq> set letters \<union> set digits \<and>
     w \<notin> snd ` set reserved_words \<and> w \<noteq> ''new''"

definition int_literal :: "string \<Rightarrow> bool" where
  "int_literal w \<longleftrightarrow> w \<noteq> [] \<and> set w \<subseteq> set digits"

definition float_literal :: "string \<Rightarrow> bool" where
  "float_literal w \<longleftrightarrow>
     (case dropWhile (\<lambda>c. c \<in> set digits) w of c # b \<Rightarrow> c = CHR ''.'' \<and> int_literal b | [] \<Rightarrow> False)"

fun spelling :: "token \<Rightarrow> string" where
  "spelling (Token k (Some w)) = w"
| "spelling (Token k None) = the (map_of (reserved_words @ punctuation) k)"

fun proper :: "token \<Rightarrow> bool" where
  "proper (Token k None) \<longleftrightarrow> k = TENDL \<or> k \<in> fst ` set (reserved_words @ punctuation)"
| "proper (Token k (Some w)) \<longleftrightarrow>
     (case k of
        TIDENTIFIER \<Rightarrow> ident_name w
      | TINTLIT \<Rightarrow> int_literal w
      | TFLOATLIT \<Rightarrow> float_literal w
      | _ \<Rightarrow> (k, w) \<in> set operators)"

definition reads :: "string \<Rightarrow> action \<Rightarrow> bool" where
  "reads w a \<longleftrightarrow> stops w \<and>
     (case find (\<lambda>r. accepts (pat r) w) rules of Some r \<Rightarrow> \<not> at_bol r \<and> act r = a | None \<Rightarrow> False)"

lemma best_reads: "reads w a \<Longrightarrow> best bol rules (w @ CHR '' '' # s) = Some (length w, a)"
  using best_token by (auto simp: reads_def accepts_iff split: option.splits)

lemma fixed_reads:
  "list_all (\<lambda>(k, w). reads w (Plain k)) (reserved_words @ punctuation)"
  "list_all (\<lambda>(k, w). reads w (Saved k)) operators"
  by code_simp+

lemma letters_apart:
  "list_all (\<lambda>c. c \<notin> set (CHR 0x09 # CHR 0x0D # newline # '' /=!<>|&(){}[].+-*;,'' @ digits)) letters"
  by code_simp

lemma word_chars_apart:
  "list_all (\<lambda>c. c \<notin> {CHR '' '', newline, CHR ''/'', CHR ''.''}) (letters @ digits)"
  by code_simp

lemma stops_chars:
  assumes "w \<noteq> []" "set w \<subseteq> insert (CHR ''.'') (set (letters @ digits))"
  shows "stops w"
proof -
  have "\<forall>c\<in>set w. c \<notin> {CHR '' '', newline, CHR ''/''}"
    using assms(2) word_chars_apart unfolding list_all_iff by auto
  then show ?thesis
    using assms(1) by (cases w) (auto simp: stops_def numeral_2_eq_2)
qed

lemma ident_reads:
  assumes "ident_name w"
  shows "reads w (Saved TIDENTIFIER)"
proof -
  from assms obtain c v where w: "w = c # v" "c \<in> set letters" "set w \<subseteq> set letters \<union> set digits"
      "w \<notin> snd ` set reserved_words" "w \<noteq> ''new''"
    by (cases w) (auto simp: ident_name_def)
  have "c \<notin> set (CHR 0x09 # CHR 0x0D # newline # '' /=!<>|&(){}[].+-*;,'' @ digits)"
    using letters_apart w(2) unfolding list_all_iff by (rule bspec)
  moreover have "CHR ''.'' \<notin> set w" "newline \<notin> set w"
    using w(3) word_chars_apart unfolding list_all_iff by auto
  then have "w \<noteq> a @ CHR ''.'' # b" "w \<noteq> a @ [newline]" for a b
    by auto
  ultimately have "find (\<lambda>r. accepts (pat r) w) rules =
      Some (anywhere (Then (OneOf letters) (Many (OneOf (letters @ digits)))) (Saved TIDENTIFIER))"
    using w unfolding rules_unfold
    by (simp add: accepts_iff rule_languages matches_simps(3,4) reserved_words_def)
  then show ?thesis
    using stops_chars [of w] w by (auto simp: reads_def anywhere_def)
qed

lemma digits_apart:
  "list_all (\<lambda>c. c \<notin> set (CHR 0x09 # CHR 0x0D # newline # '' /=!<>|&(){}[].+-*;,'' @ letters)) digits"
  by code_simp

lemma dot_apart:
  "CHR ''.'' \<notin> set (CHR 0x09 # CHR 0x0D # newline # '' /=!<>|&(){}[]+-*;,'' @ letters @ digits)"
  by code_simp

lemma int_reads:
  assumes "int_literal w"
  shows "reads w (Saved TINTLIT)"
proof -
  from assms obtain c v where w: "w = c # v" "c \<in> set digits" "set w \<subseteq> set digits"
    by (cases w) (auto simp: int_literal_def)
  have "c \<notin> set (CHR 0x09 # CHR 0x0D # newline # '' /=!<>|&(){}[].+-*;,'' @ letters)"
    using digits_apart w(2) unfolding list_all_iff by (rule bspec)
  moreover have c: "c \<notin> set ''iwrfvseNn''" using calculation by (simp add: letters_def)
  moreover have "CHR ''.'' \<notin> set w" "newline \<notin> set w"
    using w(3) word_chars_apart unfolding list_all_iff by auto
  then have "w \<noteq> a @ CHR ''.'' # b" "w \<noteq> a @ [newline]" for a b
    by auto
  ultimately have "find (\<lambda>r. accepts (pat r) w) rules =
      Some (anywhere (some_of digits) (Saved TINTLIT))"
    using w unfolding rules_unfold
    by (simp add: accepts_iff rule_languages matches_simps(3,4))
  then show ?thesis
    using stops_chars [of w] w by (auto simp: reads_def anywhere_def)
qed

lemma float_literalE:
  assumes "float_literal w"
  obtains a b where "w = a @ CHR ''.'' # b" "set a \<subseteq> set digits" "int_literal b"
proof -
  define a where "a = takeWhile (\<lambda>c. c \<in> set digits) w"
  from assms obtain b where b: "dropWhile (\<lambda>c. c \<in> set digits) w = CHR ''.'' # b" "int_literal b"
    by (auto simp: float_literal_def split: list.splits)
  then have "w = a @ CHR ''.'' # b" using takeWhile_dropWhile_id by (metis a_def)
  moreover have "set a \<subseteq> set digits" by (auto simp: a_def dest: set_takeWhileD)
  ultimately show thesis using b(2) that by blast
qed

lemma float_reads:
  assumes "float_literal w"
  shows "reads w (Saved TFLOATLIT)"
proof -
  from assms obtain a b where w: "w = a @ CHR ''.'' # b" "set a \<subseteq> set digits" "int_literal b"
    by (rule float_literalE)
  have b: "b \<noteq> []" "set b \<subseteq> set digits" using w(3) by (auto simp: int_literal_def)
  obtain c v where cv: "w = c # v" "c = CHR ''.'' \<or> c \<in> set digits" "v \<noteq> []"
    using w b by (cases a) auto
  have c: "c \<notin> set (CHR 0x09 # CHR 0x0D # newline # '' /=!<>|&(){}[]+-*;,'' @ letters)"
    using digits_apart dot_apart cv(2) unfolding list_all_iff by auto
  moreover have "c \<notin> set ''iwrfvseNn''" using calculation by (simp add: letters_def)
  moreover have "newline \<notin> set w"
    using w b word_chars_apart unfolding list_all_iff by auto
  then have "w \<noteq> a @ [newline]" for a by auto
  moreover have "matches (Then (Many (OneOf digits)) (Then (lit ''.'') (some_of digits))) (c # v)"
    using w b unfolding cv(1) [symmetric] by (auto simp: matches_float)
  ultimately have "find (\<lambda>r. accepts (pat r) w) rules =
      Some (anywhere (Then (Many (OneOf digits)) (Then (lit ''.'') (some_of digits))) (Saved TFLOATLIT))"
    using cv(1,3) unfolding rules_unfold
    by (simp add: accepts_iff matches_comment matches_blank_line matches_simps(3,4))
  then show ?thesis
    using stops_chars [of w] w b by (auto simp: reads_def anywhere_def)
qed

lemma token_reads:
  assumes "proper t" "kind_of t \<noteq> TENDL"
  shows "reads (spelling t)
    (case yylval t of None \<Rightarrow> Plain (kind_of t) | Some w \<Rightarrow> Saved (kind_of t))"
proof (cases t)
  case (Token k v)
  show ?thesis
  proof (cases v)
    case None
    then have "map_of (reserved_words @ punctuation) k \<noteq> None"
      using assms Token unfolding map_of_eq_None_iff by simp
    then obtain w where w: "map_of (reserved_words @ punctuation) k = Some w" by blast
    then have "(k, w) \<in> set (reserved_words @ punctuation)" by (rule map_of_SomeD)
    then show ?thesis
      using fixed_reads(1) w None Token by (auto simp: list_all_iff)
  next
    case (Some w)
    then show ?thesis
      using assms Token ident_reads int_reads float_reads fixed_reads(2)
      by (auto simp: list_all_iff split: kind.splits)
  qed
qed

subsection \<open>Reading white space, comments and unknown characters\<close>

lemma take_longer:
  assumes "n < m" "m \<le> length s"
  obtains u c where "take m s = take n s @ u @ [c]"
proof -
  have "take n (take m s) @ drop n (take m s) = take m s" by (rule append_take_drop_id)
  moreover have "take n (take m s) = take n s" using assms(1) by (simp add: min_def)
  moreover have "drop n (take m s) \<noteq> []" using assms by simp
  ultimately show thesis using that by (metis append_butlast_last_id)
qed

lemma lex_Ignore:
  "best bol rules s = Some (n, Ignore) \<Longrightarrow> lex bol s = lex (last (take n s) = newline) (drop n s)"
  by (simp add: lex.simps [of bol s] Let_def)

lemma best_head:
  assumes "find (\<lambda>r. enabled bol r \<and> matches (pat r) [c]) rules = Some r"
    and "\<And>d u. list_all (\<lambda>r. enabled bol r \<longrightarrow> \<not> matches (pat r) (c # u @ [d])) rules"
  shows "best bol rules (c # s) = Some (1, act r)"
proof (rule best_longest)
  fix q m
  assume q: "q \<in> set rules" "enabled bol q" "1 < m" "m \<le> length (c # s)"
  then obtain u d where "take m (c # s) = take 1 (c # s) @ u @ [d]" using take_longer by blast
  with q assms(2) [of u d] show "\<not> matches (pat q) (take m (c # s))" by (simp add: list_all_iff)
qed (use assms(1) in simp_all)

lemma not_float:
  "c \<noteq> CHR ''.'' \<Longrightarrow> c \<notin> set digits \<Longrightarrow>
     \<not> matches (Then (Many (OneOf digits)) (Then (lit ''.'') (some_of digits))) (c # v)"
  by (auto simp: matches_float Cons_eq_append_conv)

lemma space_chars: "CHR '' '' \<notin> set letters" "CHR '' '' \<notin> set digits"
    "newline \<notin> set letters" "newline \<notin> set digits"
    "CHR ''/'' \<notin> set letters" "CHR ''/'' \<notin> set digits"
  by code_simp+

lemmas rule_tests = rules_unfold enabled_def matches_comment matches_identifier matches_blank_line
  not_float matches_simps(3,4) space_chars

lemma lex_space: "lex False (CHR '' '' # s) = lex False s"
proof -
  have "best False rules (CHR '' '' # s) = Some (1, act (rules ! 0))"
    by (rule best_head) (simp_all add: rule_tests)
  then show ?thesis by (subst lex_Ignore) (auto simp: rules_unfold)
qed

lemma lex_newline:
  "lex False (newline # s) = (Token TENDL None # fst (lex True s), snd (lex True s))"
proof -
  have "best False rules (newline # s) = Some (1, act (rules ! 3))"
    by (rule best_head) (simp_all add: rule_tests)
  then show ?thesis by (simp add: lex.simps [of False] rules_unfold Let_def)
qed

lemma lex_comment:
  assumes "newline \<notin> set w"
  shows "lex bol (''//'' @ w @ newline # s) = lex True s"
proof -
  define t where "t = ''//'' @ w @ newline # s"
  have read: "take (length w + 3) t = ''//'' @ w @ [newline]" "drop (length w + 3) t = s"
    by (simp_all add: t_def numeral_3_eq_3)
  have "best bol rules t = Some (length w + 3, act (rules ! 2))"
  proof (rule best_longest)
    fix q m
    assume q: "q \<in> set rules" "enabled bol q" and m: "length w + 3 < m" "m \<le> length t"
    obtain u d where u: "take m t = ''//'' @ w @ newline # u @ [d]"
      using take_longer [OF m] read by auto
    have "w @ newline # u @ [d] \<noteq> v @ [newline]" if "newline \<notin> set v" for v
      using that by (auto simp: append_eq_append_conv2 Cons_eq_append_conv append_eq_Cons_conv)
    then have "list_all (\<lambda>r. enabled bol r \<longrightarrow> \<not> matches (pat r) (''//'' @ w @ newline # u @ [d])) rules"
      by (auto simp add: rule_tests Cons_eq_append_conv)
    with q u show "\<not> matches (pat q) (take m t)" by (simp add: list_all_iff)
  next
    show "find (\<lambda>r. enabled bol r \<and> matches (pat r) (take (length w + 3) t)) rules = Some (rules ! 2)"
      using assms unfolding read by (auto simp add: rule_tests Cons_eq_append_conv)
  qed (simp add: t_def)
  then show ?thesis
    unfolding t_def [symmetric] by (subst lex_Ignore) (auto simp: rules_unfold read)
qed

lemma lex_blank_line: "lex True (replicate n (CHR '' '') @ newline # s) = lex True s"
proof -
  define t where "t = replicate n (CHR '' '') @ newline # s"
  have read: "take (Suc n) t = replicate n (CHR '' '') @ [newline]" "drop (Suc n) t = s"
    by (simp_all add: t_def)
  have "best True rules t = Some (Suc n, act (rules ! 1))"
  proof (rule best_longest)
    fix q m
    assume q: "q \<in> set rules" and m: "Suc n < m" "m \<le> length t"
    obtain u d where u: "take m t = replicate n (CHR '' '') @ newline # u @ [d]"
      using take_longer [OF m] read by auto
    have "\<not> set v \<subseteq> {CHR '' ''}" if "take m t = v @ [newline]" for v
      using that unfolding u
      by (auto simp: append_eq_append_conv2 Cons_eq_append_conv append_eq_Cons_conv)
    moreover obtain c y where "take m t = c # y" "y \<noteq> []" "c = CHR '' '' \<or> c = newline"
      unfolding u by (cases n) auto
    ultimately have "list_all (\<lambda>r. \<not> matches (pat r) (take m t)) rules"
      by (elim disjE) (simp_all add: rule_tests)
    with q show "\<not> matches (pat q) (take m t)" by (simp add: list_all_iff)
  next
    show "find (\<lambda>r. enabled True r \<and> matches (pat r) (take (Suc n) t)) rules = Some (rules ! 1)"
      unfolding read by (cases n) (simp_all add: rule_tests set_replicate_conv_if)
  qed (simp add: t_def)
  then have "lex True t = lex True s"
    by (subst lex_Ignore [where n = "Suc n"]) (simp_all add: rules_unfold read)
  then show ?thesis by (simp add: t_def)
qed

definition known_chars :: string where
  "known_chars = CHR 0x09 # CHR 0x0D # newline # '' /=!<>|&(){}[].+-*;,'' @ letters @ digits"

lemma lex_unknown:
  assumes "c \<notin> set known_chars"
  shows "lex bol (c # s) = ([], [''Unknown token encountered in lexer: '' @ c # [newline]])"
proof -
  have c: "c \<notin> set letters" "c \<notin> set digits" "c \<notin> set ''iwrfvseNn''"
      "c \<notin> set (CHR 0x09 # CHR 0x0D # newline # '' /=!<>|&(){}[].+-*;,'')"
    using assms by (simp_all add: known_chars_def letters_def)
  have "best bol rules (c # s) = Some (1, act (rules ! 42))"
    by (rule best_head) (use c in \<open>simp_all add: rule_tests Cons_eq_append_conv\<close>)
  then show ?thesis by (simp add: lex.simps [of bol] rules_unfold Let_def)
qed

subsection \<open>Round trip\<close>

fun unlex :: "token list \<Rightarrow> string" where
  "unlex [] = []"
| "unlex (t # ts) = (if kind_of t = TENDL then [newline] else spelling t @ '' '') @ unlex ts"

fun no_blank_lines :: "bool \<Rightarrow> token list \<Rightarrow> bool" where
  "no_blank_lines bol [] \<longleftrightarrow> True"
| "no_blank_lines bol (t # ts) \<longleftrightarrow>
     (kind_of t = TENDL \<longrightarrow> \<not> bol) \<and> no_blank_lines (kind_of t = TENDL) ts"

fun ends_line :: "bool \<Rightarrow> token list \<Rightarrow> bool" where
  "ends_line bol [] \<longleftrightarrow> bol"
| "ends_line bol (t # ts) \<longleftrightarrow> ends_line (kind_of t = TENDL) ts"

lemma lex_token:
  assumes "proper t" "kind_of t \<noteq> TENDL"
  shows "lex bol (spelling t @ CHR '' '' # s) = (t # fst (lex False s), snd (lex False s))"
proof -
  define a where "a = (case yylval t of None \<Rightarrow> Plain (kind_of t) | Some w \<Rightarrow> Saved (kind_of t))"
  note t = token_reads [OF assms, folded a_def]
  then have "last (spelling t) \<noteq> newline"
    using last_in_set by (fastforce simp: reads_def stops_def)
  then have "lex bol (spelling t @ CHR '' '' # s) =
      (Token (kind_of t) (map_option (\<lambda>_. spelling t) (yylval t)) # fst (lex False s), snd (lex False s))"
    using best_reads [OF t]
    by (simp add: lex.simps [of bol] lex_space a_def Let_def split: option.split)
  then show ?thesis by (cases t; cases "yylval t") simp_all
qed

lemma lex_unlex:
  assumes "list_all proper ts" "no_blank_lines bol ts"
  shows "lex bol (unlex ts @ s) =
    (ts @ fst (lex (ends_line bol ts) s), snd (lex (ends_line bol ts) s))"
  using assms
proof (induction ts arbitrary: bol)
  case (Cons t ts)
  then show ?case
  proof (cases "kind_of t = TENDL")
    case True
    with Cons.prems have "t = Token TENDL None"
      by (cases t; cases "yylval t") (auto simp: operators_def)
    with Cons show ?thesis by (simp add: lex_newline)
  qed (simp add: lex_token)
qed simp

lemma lex_end: "lex bol [] = ([], [])"
proof -
  have "best bol rules [] = None"
    using rules_consume by (simp add: best_None_iff matches_Nil)
  then show ?thesis by (simp add: lex.simps)
qed

text \<open>
  Claim C13. Writing any sequence of proper tokens, each followed by a space and each end of a
  line as a newline, and scanning the text gives exactly these tokens and no message; the one
  restriction is that no line is empty, because empty lines produce no token.
\<close>

theorem lexer_reads_back:
  assumes "list_all proper ts" "no_blank_lines True ts"
  shows "lex True (unlex ts) = (ts, [])"
  using lex_unlex [OF assms, of "[]"] by (simp add: lex_end)

theorem lexer_reads_back_witness:
  "lex True (''int x = .5 ; '' @ newline # ''return intx '') =
    ([Token TINT None, Token TIDENTIFIER (Some ''x''), Token TSET None, Token TFLOATLIT (Some ''.5''),
      Token TSCOLON (Some '';''), Token TENDL None, Token TRETURN None,
      Token TIDENTIFIER (Some ''intx'')], [])"
proof -
  let ?ts = "[Token TINT None, Token TIDENTIFIER (Some ''x''), Token TSET None,
    Token TFLOATLIT (Some ''.5''), Token TSCOLON (Some '';''), Token TENDL None, Token TRETURN None,
    Token TIDENTIFIER (Some ''intx'')]"
  have "list_all proper ?ts \<and> no_blank_lines True ?ts" by code_simp
  moreover have "unlex ?ts = ''int x = .5 ; '' @ newline # ''return intx ''" by code_simp
  ultimately show ?thesis using lexer_reads_back [of ?ts] by metis
qed


text \<open>
  Claim C31. At a character that no rule knows the lexer prints a message and reports
  the end of the input: the tokens before it are all the parser gets, whatever follows in the file.
\<close>

theorem unknown_character_ends_input:
  assumes "list_all proper ts" "no_blank_lines True ts" "c \<notin> set known_chars"
  shows "lex True (unlex ts @ c # rest) =
    (ts, [''Unknown token encountered in lexer: '' @ c # [newline]])"
  using lex_unlex [OF assms(1,2)] lex_unknown [OF assms(3)] by simp

theorem unknown_character_ends_input_witness:
  "lex True (''f ( ) ; '' @ newline # ''%g();'') =
    ([Token TIDENTIFIER (Some ''f''), Token TLPAREN None, Token TRPAREN None,
      Token TSCOLON (Some '';''), Token TENDL None],
     [''Unknown token encountered in lexer: %'' @ [newline]])"
proof -
  let ?ts = "[Token TIDENTIFIER (Some ''f''), Token TLPAREN None, Token TRPAREN None,
    Token TSCOLON (Some '';''), Token TENDL None]"
  have h: "list_all proper ?ts" "no_blank_lines True ?ts" "CHR ''%'' \<notin> set known_chars"
    by code_simp+
  have u: "unlex ?ts = ''f ( ) ; '' @ [newline]" by code_simp
  show ?thesis using unknown_character_ends_input [OF h, of "''g();''"] unfolding u by simp
qed

text \<open>
  A comment includes the newline that ends it, so a comment after a statement on
  the same line removes the end of the line: the next line continues the statement.
\<close>

theorem comment_takes_line_end:
  assumes "list_all proper (ts @ us)" "no_blank_lines True ts" "no_blank_lines True us"
    and "newline \<notin> set w"
  shows "lex True (unlex ts @ ''//'' @ w @ newline # unlex us) = (ts @ us, [])"
proof -
  have "lex True (unlex us) = (us, [])"
    using lex_unlex [of us True "[]"] assms by (simp add: lex_end)
  then have "lex bol (''//'' @ w @ newline # unlex us) = (us, [])" for bol
    using lex_comment [OF assms(4)] by simp
  then show ?thesis
    using lex_unlex [of ts True "''//'' @ w @ newline # unlex us"] assms by simp
qed

theorem comment_takes_line_end_witness:
  "lex True (''a ; // one'' @ newline # ''b ; '' @ [newline]) =
    ([Token TIDENTIFIER (Some ''a''), Token TSCOLON (Some '';''), Token TIDENTIFIER (Some ''b''),
      Token TSCOLON (Some '';''), Token TENDL None], [])"
proof -
  let ?ts = "[Token TIDENTIFIER (Some ''a''), Token TSCOLON (Some '';'')]"
  let ?us = "[Token TIDENTIFIER (Some ''b''), Token TSCOLON (Some '';''), Token TENDL None]"
  have h: "list_all proper (?ts @ ?us)" "no_blank_lines True ?ts" "no_blank_lines True ?us"
    "newline \<notin> set '' one''"
    by code_simp+
  have u: "unlex ?ts = ''a ; ''" "unlex ?us = ''b ; '' @ [newline]" by code_simp+
  show ?thesis using comment_takes_line_end [OF h] unfolding u by simp
qed

end
