(* ===== verification/Fork_Grammar_Correct.thy ===== *)
theory Fork_Grammar_Correct
  imports Fork_Grammar Fork_Lex_Correct CG_Claims Fork_Semantics
begin

section \<open>Properties of the grammar\<close>

text \<open>
  Programs whose lines are closed by semicolons or braces are sequential; every well-formed tree
  has a text from which the lexer and the grammar build it; expressions in full
  parentheses have one derivation, and those without have several.
\<close>

inductive_cases derives_identE: "derives_ident ts i"
inductive_cases derives_var_keywordE: "derives_var_keyword ts k"
inductive_cases derives_numericE: "derives_numeric lib ts e"
inductive_cases derives_binaryOperatorTokenE: "derives_binaryOperatorToken ts w"
inductive_cases derives_unaryOperatorTokenE: "derives_unaryOperatorToken ts w"
inductive_cases derives_variableDecE: "derives_variableDec lib ts v"

subsection \<open>Semicolons\<close>

definition exp_ends :: "kind list" where
  "exp_ends = [TIDENTIFIER, TINTLIT, TFLOATLIT, TRPAREN, TRSBRACE, TNULL]"

text \<open>No line ends directly after an expression.\<close>

fun lines_closed :: "token list \<Rightarrow> bool" where
  "lines_closed (t # u # ts) \<longleftrightarrow>
     (kind_of u = TENDL \<longrightarrow> kind_of t \<notin> set exp_ends) \<and> lines_closed (u # ts)"
| "lines_closed _ \<longleftrightarrow> True"

lemma lines_closed_Cons: "lines_closed (t # ts) \<Longrightarrow> lines_closed ts"
  by (cases ts) auto

lemma lines_closed_append: "lines_closed (xs @ ys) \<Longrightarrow> lines_closed xs \<and> lines_closed ys"
proof (induction xs)
  case (Cons t xs)
  then show ?case by (cases xs) (auto dest: lines_closed_Cons)
qed simp

lemma lines_closed_last:
  "lines_closed (xs @ plain TENDL # ys) \<Longrightarrow> xs \<noteq> [] \<Longrightarrow> kind_of (last xs) \<notin> set exp_ends"
  by (induction xs rule: lines_closed.induct) auto

lemma derives_exp_end:
  "derives_exp lib ts e \<Longrightarrow> ts \<noteq> [] \<and> kind_of (last ts) \<in> set exp_ends"
  "derives_rexp lib ts e \<Longrightarrow> ts \<noteq> [] \<and> kind_of (last ts) \<in> set exp_ends"
  "derives_callArgs lib ts es \<Longrightarrow> True"
  by (induction rule: derives_exp_derives_rexp_derives_callArgs.inducts)
    (auto simp: exp_ends_def elim!: derives_identE derives_numericE)

lemma derives_variableDec_end:
  assumes "derives_variableDec lib ts v" "vd_exp v \<noteq> None"
  shows "ts \<noteq> [] \<and> kind_of (last ts) \<in> set exp_ends"
  using assms derives_exp_end(1) by (cases rule: derives_variableDec.cases) auto

lemma derives_commits:
  "derives_statement lib ts s \<Longrightarrow> lines_closed ts \<longrightarrow> commitsStmt s"
  "derives_statements lib ts ss \<Longrightarrow> lines_closed ts \<longrightarrow> (\<forall>s\<in>set ss. commitsStmt s)"
  "derives_block lib ts b \<Longrightarrow> lines_closed ts \<longrightarrow> commitsBlk b"
  "derives_functionDec lib ts s \<Longrightarrow> lines_closed ts \<longrightarrow> commitsStmt s"
  "derives_structDec_f lib ts s \<Longrightarrow> lines_closed ts \<longrightarrow> commitsStmt s"
  "derives_if_statement lib ts s \<Longrightarrow> lines_closed ts \<longrightarrow> commitsStmt s"
proof (induction rule: derives_statement_derives_statements_derives_block_derives_functionDec_derives_structDec_f_derives_if_statement.inducts)
  case (stmt_var xs v)
  then show ?case
    using derives_variableDec_end [OF stmt_var] lines_closed_last [of xs "[]"]
    by (cases "vd_exp v"; cases v) (auto simp: setCommit_def vt_defs)
next
  case (stmt_assign xs a ys e)
  then show ?case
    using derives_exp_end(1) lines_closed_last [of "xs @ plain TSET # ys" "[]"] by fastforce
next
  case (stmt_exp xs e)
  then show ?case
    using derives_exp_end(1) lines_closed_last [of xs "[]"] by fastforce
next
  case (stmt_var_semi xs v t)
  then show ?case by (cases v) (auto simp: setCommit_def vt_defs)
next
  case (stmt_extern xs s)
  then show ?case by (auto elim!: derives_externStatement.cases simp: ExternStatement_new_def)
qed (auto simp: setCommit_def vt_defs dest!: lines_closed_append lines_closed_Cons)

subsection \<open>Writing trees\<close>

text \<open>
  The tokens of a tree, with every operand in parentheses and every statement on its own line.
  \<open>ft\<close> gives a text for a floating-point number.
\<close>

abbreviation name_token :: "string \<Rightarrow> token" where
  "name_token i \<equiv> Token TIDENTIFIER (Some i)"

definition operator_token :: "string \<Rightarrow> token" where
  "operator_token w = Token (the (map_of (map prod.swap operators) w)) (Some w)"

definition keyword_token :: "keyword \<Rightarrow> token" where
  "keyword_token k = plain (the (map_of (map prod.swap reserved_words) k))"

fun commas :: "token list list \<Rightarrow> token list" where
  "commas [] = []"
| "commas [x] = x"
| "commas (x # xs) = x @ plain TCOMMA # commas xs"

definition parens :: "token list \<Rightarrow> token list" where
  "parens ts = plain TLPAREN # ts @ [plain TRPAREN]"

definition brackets :: "token list \<Rightarrow> token list" where
  "brackets ts = plain TLSBRACE # ts @ [plain TRSBRACE]"

fun exp_tokens :: "(double \<Rightarrow> string) \<Rightarrow> expression \<Rightarrow> token list" where
  "exp_tokens ft (Integer n) = [Token TINTLIT (Some (show_nat (unat n)))]"
| "exp_tokens ft (Float d) = [Token TFLOATLIT (Some (ft d))]"
| "exp_tokens ft (Identifier i) = [name_token i]"
| "exp_tokens ft (UnaryOperator w a) = operator_token w # parens (exp_tokens ft a)"
| "exp_tokens ft (BinaryOperator a w b) =
     parens (exp_tokens ft a) @ operator_token w # parens (exp_tokens ft b)"
| "exp_tokens ft (FunctionCall i as) = name_token i # parens (commas (map (exp_tokens ft) as))"
| "exp_tokens ft NullLiteral = [plain TNULL]"
| "exp_tokens ft (PointerExpression i off f) =
     (case f of
        None \<Rightarrow> name_token i # brackets (case off of None \<Rightarrow> [] | Some e \<Rightarrow> exp_tokens ft e)
      | Some g \<Rightarrow> [operator_token ''*'', name_token i, operator_token ''.'', name_token g])"
| "exp_tokens ft (AddressOfExpression i off) =
     operator_token ''&'' # name_token i #
     (case off of None \<Rightarrow> [] | Some e \<Rightarrow> brackets (exp_tokens ft e))"
| "exp_tokens ft (StructureExpression i f) = [name_token i, operator_token ''.'', name_token f]"

definition semi :: "bool \<Rightarrow> token list" where
  "semi c = (if c then [operator_token '';''] else [])"

definition stars :: "bool \<Rightarrow> token list" where
  "stars p = (if p then [operator_token ''*''] else [])"

fun vd_tokens :: "(double \<Rightarrow> string) \<Rightarrow> variableDefinition \<Rightarrow> token list" where
  "vd_tokens ft (VariableDefinition k i e p) =
     keyword_token k # stars p @ name_token i #
     (case e of None \<Rightarrow> [] | Some x \<Rightarrow> plain TSET # exp_tokens ft x)"
| "vd_tokens ft (StructureDeclaration u i p) = name_token u # stars p @ [name_token i]"

fun stmt_tokens :: "(double \<Rightarrow> string) \<Rightarrow> statement \<Rightarrow> token list"
  and blk_tokens :: "(double \<Rightarrow> string) \<Rightarrow> block \<Rightarrow> token list" where
  "stmt_tokens ft (VariableStatement c v) = vd_tokens ft v @ semi c @ [plain TENDL]"
| "stmt_tokens ft (StructureDefinition c i b) =
     plain TSTRUCT # name_token i # blk_tokens ft b @ semi True @ [plain TENDL]"
| "stmt_tokens ft (FunctionDefinition c t u i as b p) =
     (case t of Some k \<Rightarrow> keyword_token k | None \<Rightarrow> name_token (the u)) # stars p @ name_token i #
     parens (commas (map (vd_tokens ft) as)) @ blk_tokens ft b @ [plain TENDL]"
| "stmt_tokens ft (ExpressionStatement c e) = exp_tokens ft e @ semi c @ [plain TENDL]"
| "stmt_tokens ft (ReturnStatement c e) =
     plain TRETURN # (case e of None \<Rightarrow> [] | Some x \<Rightarrow> exp_tokens ft x) @ [plain TENDL]"
| "stmt_tokens ft (AssignStatement c a e) =
     exp_tokens ft a @ plain TSET # exp_tokens ft e @ semi c @ [plain TENDL]"
| "stmt_tokens ft (IfStatement c e b eb) =
     plain TIF # parens (exp_tokens ft e) @ blk_tokens ft b @
     (case eb of None \<Rightarrow> [] | Some b' \<Rightarrow> plain TELSE # blk_tokens ft b') @ [plain TENDL]"
| "stmt_tokens ft (ExternStatement c k i as p) =
     plain TEXTERN # keyword_token k # stars p @ name_token i #
     parens (commas (map (vd_tokens ft) as)) @ semi True @ [plain TENDL]"
| "blk_tokens ft (Block ss) =
     (case ss of
        None \<Rightarrow> [plain TLBRACE, plain TRBRACE]
      | Some l \<Rightarrow> plain TLBRACE # plain TENDL # concat (map (stmt_tokens ft) l) @ [plain TRBRACE])"

text \<open>The trees that the actions of the grammar can build.\<close>

fun wf_exp :: "numerals \<Rightarrow> (double \<Rightarrow> string) \<Rightarrow> expression \<Rightarrow> bool" where
  "wf_exp lib ft (Integer n) \<longleftrightarrow> unat n < 2 ^ 63"
| "wf_exp lib ft (Float d) \<longleftrightarrow> float_literal (ft d) \<and> atof lib (ft d) = d"
| "wf_exp lib ft (Identifier i) \<longleftrightarrow> ident_name i"
| "wf_exp lib ft (UnaryOperator w a) \<longleftrightarrow> w \<in> set [''-'', ''!'', ''new''] \<and> wf_exp lib ft a"
| "wf_exp lib ft (BinaryOperator a w b) \<longleftrightarrow>
     w \<in> set [''=='', ''!='', ''<'', ''<='', ''>'', ''>='', ''-'', ''+'', ''*'', ''/'', ''||'', ''&&''] \<and>
     wf_exp lib ft a \<and> wf_exp lib ft b"
| "wf_exp lib ft (FunctionCall i as) \<longleftrightarrow> ident_name i \<and> list_all (wf_exp lib ft) as"
| "wf_exp lib ft NullLiteral \<longleftrightarrow> True"
| "wf_exp lib ft (PointerExpression i off f) \<longleftrightarrow> ident_name i \<and>
     (case off of None \<Rightarrow> False | Some e \<Rightarrow> wf_exp lib ft e \<and>
       (case f of None \<Rightarrow> True | Some g \<Rightarrow> ident_name g \<and> e = Integer 0))"
| "wf_exp lib ft (AddressOfExpression i off) \<longleftrightarrow> ident_name i \<and>
     (case off of None \<Rightarrow> True | Some e \<Rightarrow> wf_exp lib ft e)"
| "wf_exp lib ft (StructureExpression i f) \<longleftrightarrow> ident_name i \<and> ident_name f"

fun is_rexp :: "expression \<Rightarrow> bool" where
  "is_rexp (Identifier i) \<longleftrightarrow> True"
| "is_rexp (PointerExpression i off f) \<longleftrightarrow> True"
| "is_rexp (StructureExpression i f) \<longleftrightarrow> True"
| "is_rexp _ \<longleftrightarrow> False"

definition var_keywords :: "keyword list" where
  "var_keywords = [''int'', ''float'', ''void'']"

fun wf_vd :: "numerals \<Rightarrow> (double \<Rightarrow> string) \<Rightarrow> variableDefinition \<Rightarrow> bool" where
  "wf_vd lib ft (VariableDefinition k i e p) \<longleftrightarrow> k \<in> set var_keywords \<and> ident_name i \<and>
     (case e of None \<Rightarrow> True | Some x \<Rightarrow> wf_exp lib ft x)"
| "wf_vd lib ft (StructureDeclaration u i p) \<longleftrightarrow> ident_name u \<and> ident_name i"

fun wf_stmt :: "numerals \<Rightarrow> (double \<Rightarrow> string) \<Rightarrow> statement \<Rightarrow> bool"
  and wf_blk :: "numerals \<Rightarrow> (double \<Rightarrow> string) \<Rightarrow> block \<Rightarrow> bool" where
  "wf_stmt lib ft (VariableStatement c v) \<longleftrightarrow> wf_vd lib ft v \<and>
     (case v of VariableDefinition k i e p \<Rightarrow> True | StructureDeclaration u i p \<Rightarrow> \<not> c)"
| "wf_stmt lib ft (StructureDefinition c i b) \<longleftrightarrow> \<not> c \<and> ident_name i \<and> wf_blk lib ft b"
| "wf_stmt lib ft (FunctionDefinition c t u i as b p) \<longleftrightarrow> \<not> c \<and> ident_name i \<and>
     (case t of Some k \<Rightarrow> k \<in> set var_keywords \<and> u = None
      | None \<Rightarrow> (case u of None \<Rightarrow> False | Some w \<Rightarrow> ident_name w)) \<and>
     list_all (wf_vd lib ft) as \<and> wf_blk lib ft b"
| "wf_stmt lib ft (ExpressionStatement c e) \<longleftrightarrow> wf_exp lib ft e"
| "wf_stmt lib ft (ReturnStatement c e) \<longleftrightarrow> \<not> c \<and> (case e of None \<Rightarrow> True | Some x \<Rightarrow> wf_exp lib ft x)"
| "wf_stmt lib ft (AssignStatement c a e) \<longleftrightarrow> is_rexp a \<and> wf_exp lib ft a \<and> wf_exp lib ft e"
| "wf_stmt lib ft (IfStatement c e b eb) \<longleftrightarrow> \<not> c \<and> wf_exp lib ft e \<and> wf_blk lib ft b \<and>
     (case eb of None \<Rightarrow> True | Some b' \<Rightarrow> wf_blk lib ft b')"
| "wf_stmt lib ft (ExternStatement c k i as p) \<longleftrightarrow> \<not> c \<and> k \<in> set var_keywords \<and> ident_name i \<and>
     list_all (wf_vd lib ft) as"
| "wf_blk lib ft (Block ss) \<longleftrightarrow>
     (case ss of None \<Rightarrow> True | Some l \<Rightarrow> l \<noteq> [] \<and> list_all (wf_stmt lib ft) l)"

subsection \<open>Every well-formed tree has a text\<close>

lemma digit_char: "n < 10 \<Longrightarrow> char_of (48 + n :: nat) \<in> set digits"
proof -
  have "list_all (\<lambda>n. char_of (48 + n :: nat) \<in> set digits) [0..<10]" by code_simp
  then show "n < 10 \<Longrightarrow> ?thesis" by (simp add: list_all_iff)
qed

lemma set_digits_rev: "set (digits_rev fuel n) \<subseteq> set digits"
  by (induction fuel arbitrary: n) (auto simp: digit_char)

lemma int_literal_show_nat: "int_literal (show_nat n)"
  using set_digits_rev [of "Suc n" n] by (simp add: int_literal_def show_nat_def)

lemma atol_show_nat: "unat n < 2 ^ 63 \<Longrightarrow> atol lib (show_nat (unat n)) = n"
  by (simp add: atol_def show_nat_def digits_value_rev del: digits_rev.simps)

definition operator_ok :: "string \<Rightarrow> kind list \<Rightarrow> bool" where
  "operator_ok w ks \<longleftrightarrow> kind_of (operator_token w) \<in> set ks \<and> proper (operator_token w)"

lemma operator_tokens:
  "list_all (\<lambda>w. operator_ok w unary_kinds) [''-'', ''!'', ''new'']"
  "list_all (\<lambda>w. operator_ok w binary_kinds)
     [''=='', ''!='', ''<'', ''<='', ''>'', ''>='', ''-'', ''+'', ''*'', ''/'', ''||'', ''&&'']"
  "operator_ok ''*'' [TSTAR]" "operator_ok ''.'' [TDOT]" "operator_ok ''&'' [TSAMPR]"
  "operator_ok '';'' [TSCOLON]"
  by code_simp+

lemma operator_okD: "operator_ok w ks \<Longrightarrow> kind_of (operator_token w) \<in> set ks"
  by (simp add: operator_ok_def)

lemma operator_proper [simp]: "operator_ok w ks \<Longrightarrow> proper (operator_token w)"
  by (simp add: operator_ok_def)

lemma operator_kinds [simp]:
  "kind_of (operator_token ''*'') = TSTAR" "kind_of (operator_token ''.'') = TDOT"
  "kind_of (operator_token ''&'') = TSAMPR" "kind_of (operator_token '';'') = TSCOLON"
  by code_simp+

lemma operator_token_eq: "operator_token w = Token (kind_of (operator_token w)) (Some w)"
  by (simp add: operator_token_def)

lemma derives_binary: "operator_ok w binary_kinds \<Longrightarrow> derives_binaryOperatorToken [operator_token w] w"
  by (subst operator_token_eq) (auto intro: binop simp: operator_ok_def)

lemma derives_unary: "operator_ok w unary_kinds \<Longrightarrow> derives_unaryOperatorToken [operator_token w] w"
  by (subst operator_token_eq) (auto intro: unop simp: operator_ok_def)

lemma derives_keyword: "k \<in> set var_keywords \<Longrightarrow> derives_var_keyword [keyword_token k] k"
proof -
  have "keyword_token ''int'' = plain TINT" "keyword_token ''float'' = plain TFLOAT"
      "keyword_token ''void'' = plain TVOID"
    by code_simp+
  then show "k \<in> set var_keywords \<Longrightarrow> ?thesis"
    by (auto simp: var_keywords_def intro: derives_var_keyword.intros)
qed

lemma commas_snoc: "commas (xs @ [x]) = (if xs = [] then x else commas xs @ plain TCOMMA # x)"
  by (induction xs rule: commas.induct) auto

lemma derives_args:
  assumes "\<And>e. e \<in> set es \<Longrightarrow> derives_exp lib (f e) e"
  shows "derives_callArgs lib (commas (map f es)) es"
  using assms
proof (induction es rule: rev_induct)
  case (snoc e es)
  then show ?case
    using callArgs_more [of lib "commas (map f es)" es "f e" e] callArgs_one [of lib "f e" e]
    by (cases "es = []") (simp_all add: commas_snoc)
qed (simp add: callArgs_empty)

lemma derives_params:
  assumes "\<And>v. v \<in> set vs \<Longrightarrow> derives_variableDec lib (f v) v"
  shows "derives_functionArgs lib (commas (map f vs)) vs"
  using assms
proof (induction vs rule: rev_induct)
  case (snoc v vs)
  then show ?case
    using functionArgs_more [of lib "commas (map f vs)" vs "f v" v] functionArgs_one [of lib "f v" v]
    by (cases "vs = []") (simp_all add: commas_snoc)
qed (simp add: functionArgs_empty)

lemma derives_rexp_tokens:
  assumes "wf_exp lib ft e" "is_rexp e"
    and "\<And>x. size x < size e \<Longrightarrow> wf_exp lib ft x \<Longrightarrow> derives_exp lib (exp_tokens ft x) x"
  shows "derives_rexp lib (exp_tokens ft e) e"
proof (cases e)
  case (Identifier i)
  then show ?thesis using rexp_ident [OF ident] by simp
next
  case (StructureExpression i f)
  then show ?thesis using rexp_field [OF ident _ ident, where d = "operator_token ''.''"] by simp
next
  case (PointerExpression i off f)
  then obtain x where x: "off = Some x" "wf_exp lib ft x" using assms(1) by (auto split: option.splits)
  show ?thesis
  proof (cases f)
    case None
    have "derives_exp lib (exp_tokens ft x) x" using x PointerExpression by (intro assms(3)) auto
    with None x PointerExpression show ?thesis
      using rexp_index [OF ident] by (simp add: brackets_def)
  next
    case (Some g)
    with x PointerExpression assms(1) show ?thesis
      using rexp_deref_field [OF _ ident _ ident, where s = "operator_token ''*''" and d = "operator_token ''.''"]
      by simp
  qed
qed (use assms(2) in simp_all)

lemma derives_exp_tokens: "wf_exp lib ft e \<Longrightarrow> derives_exp lib (exp_tokens ft e) e"
proof (induction "size e" arbitrary: e rule: less_induct)
  case less
  note IH = less.hyps
  have r: "derives_exp lib (exp_tokens ft e) e" if "is_rexp e"
    by (rule exp_rexp) (rule derives_rexp_tokens [OF less.prems that IH])
  show ?case
  proof (cases e)
    case (Integer n)
    then show ?thesis
      using less.prems exp_numeric [OF intlit [of lib "show_nat (unat n)"]] by (simp add: atol_show_nat)
  next
    case (Float d)
    then show ?thesis using less.prems exp_numeric [OF floatlit [of lib "ft d"]] by simp
  next
    case (UnaryOperator w a)
    then have "derives_unaryOperatorToken [operator_token w] w"
      using less.prems operator_tokens(1) by (intro derives_unary) (auto simp: list_all_iff)
    moreover have "derives_exp lib (exp_tokens ft a) a" using UnaryOperator less.prems by (intro IH) auto
    ultimately show ?thesis
      using exp_unary [OF _ exp_paren] UnaryOperator by (fastforce simp: parens_def)
  next
    case (BinaryOperator a w b)
    then have "derives_binaryOperatorToken [operator_token w] w"
      using less.prems operator_tokens(2) by (intro derives_binary) (auto simp: list_all_iff)
    moreover have "derives_exp lib (exp_tokens ft a) a" "derives_exp lib (exp_tokens ft b) b"
      using BinaryOperator less.prems by (auto intro!: IH)
    ultimately show ?thesis
      using exp_binary [OF exp_paren _ exp_paren] BinaryOperator by (fastforce simp: parens_def)
  next
    case (FunctionCall i as)
    then have "derives_callArgs lib (commas (map (exp_tokens ft) as)) as"
      using less.prems by (intro derives_args IH) (auto simp: list_all_iff less_Suc_eq_le dest: size_list_estimation' [where f = size, OF _ order_refl])
    then show ?thesis
      using exp_call [OF ident] FunctionCall by (simp add: parens_def)
  next
    case NullLiteral
    then show ?thesis using exp_null by simp
  next
    case (AddressOfExpression i off)
    show ?thesis
    proof (cases off)
      case None
      then show ?thesis
        using exp_address [OF _ ident, where a = "operator_token ''&''"] AddressOfExpression by simp
    next
      case (Some x)
      then have "derives_exp lib (exp_tokens ft x) x"
        using AddressOfExpression less.prems by (intro IH) auto
      then show ?thesis
        using exp_address_at [OF _ ident, where a = "operator_token ''&''"] AddressOfExpression Some
        by (simp add: brackets_def)
    qed
  qed (use r in simp_all)
qed

lemma derives_vd_tokens: "wf_vd lib ft v \<Longrightarrow> derives_variableDec lib (vd_tokens ft v) v"
proof (cases v)
  case (VariableDefinition k i e p)
  assume v: "wf_vd lib ft v"
  then have k: "derives_var_keyword [keyword_token k] k"
    using VariableDefinition by (intro derives_keyword) simp
  show ?thesis
  proof (cases e)
    case None
    then show ?thesis
      using VariableDefinition var [OF k ident] var_pointer [OF k _ ident, where s = "operator_token ''*''"]
      by (cases p) (simp_all add: stars_def)
  next
    case (Some x)
    then have "derives_exp lib (exp_tokens ft x) x"
      using v VariableDefinition by (intro derives_exp_tokens) simp
    then show ?thesis
      using VariableDefinition Some var_init [OF k ident]
        var_pointer_init [OF k _ ident, where s = "operator_token ''*''"]
      by (cases p) (simp_all add: stars_def)
  qed
next
  case (StructureDeclaration u i p)
  then show ?thesis
    using var_struct [OF ident ident] var_struct_pointer [OF ident _ ident, where s = "operator_token ''*''"]
    by (cases p) (simp_all add: stars_def)
qed

lemma derives_params_tokens:
  "list_all (wf_vd lib ft) vs \<Longrightarrow> derives_functionArgs lib (commas (map (vd_tokens ft) vs)) vs"
  by (rule derives_params) (simp add: derives_vd_tokens list_all_iff)

lemma derives_concat:
  assumes "ss \<noteq> []" and "\<And>s. s \<in> set ss \<Longrightarrow> derives_statement lib (f s) s"
  shows "derives_statements lib (concat (map f ss)) ss"
  using assms
proof (induction ss rule: rev_nonempty_induct)
  case (single s)
  then show ?case by (simp add: stmts_one)
next
  case (snoc s ss)
  then show ?case using stmts_more [of lib "concat (map f ss)" ss "f s" s] by simp
qed

lemma derives_function_tokens:
  assumes s: "wf_stmt lib ft (FunctionDefinition c t u i as b p)"
    and b: "derives_block lib (blk_tokens ft b) b"
  shows "derives_statement lib (stmt_tokens ft (FunctionDefinition c t u i as b p))
    (FunctionDefinition c t u i as b p)"
proof -
  have as: "derives_functionArgs lib (commas (map (vd_tokens ft) as)) as"
    using s by (intro derives_params_tokens) simp
  show ?thesis
  proof (cases t)
    case None
    then obtain w where "u = Some w" using s by (auto split: option.splits)
    then show ?thesis
      using stmt_function [OF fn_struct [OF ident ident as b]] s None
        stmt_function [OF fn_struct_pointer [OF ident _ ident as b, where s = "operator_token ''*''"]]
      by (cases p) (simp_all add: stars_def parens_def)
  next
    case (Some k)
    then have k: "derives_var_keyword [keyword_token k] k" using s by (intro derives_keyword) simp
    then show ?thesis
      using stmt_function [OF fn_value [OF k ident as b]] s Some
        stmt_function [OF fn_pointer [OF k _ ident as b, where s = "operator_token ''*''"]]
      by (cases p) (simp_all add: stars_def parens_def)
  qed
qed

lemma derives_if_tokens:
  assumes s: "wf_stmt lib ft (IfStatement c e b eb)"
    and b: "derives_block lib (blk_tokens ft b) b"
    and eb: "\<And>b'. eb = Some b' \<Longrightarrow> derives_block lib (blk_tokens ft b') b'"
  shows "derives_statement lib (stmt_tokens ft (IfStatement c e b eb)) (IfStatement c e b eb)"
proof -
  have e: "derives_exp lib (exp_tokens ft e) e" using s by (intro derives_exp_tokens) simp
  show ?thesis
    using stmt_if [OF if_then [OF e b]] stmt_if [OF if_else [OF e b eb]] s
    by (cases eb) (simp_all add: parens_def)
qed

lemma derives_extern_tokens:
  assumes s: "wf_stmt lib ft (ExternStatement c k i as p)"
  shows "derives_statement lib (stmt_tokens ft (ExternStatement c k i as p)) (ExternStatement c k i as p)"
proof -
  have as: "derives_functionArgs lib (commas (map (vd_tokens ft) as)) as"
    using s by (intro derives_params_tokens) simp
  have k: "derives_var_keyword [keyword_token k] k" using s by (intro derives_keyword) simp
  note t = operator_kinds(4)
  show ?thesis
    using stmt_extern [OF extern_value [OF k ident as t]] s
      stmt_extern [OF extern_pointer [OF k _ ident as t, where s = "operator_token ''*''"]]
    by (cases p) (simp_all add: stars_def parens_def semi_def ExternStatement_new_def)
qed

lemma derives_plain_tokens:
  assumes s: "wf_stmt lib ft s"
    and "(\<exists>c v. s = VariableStatement c v) \<or> (\<exists>c e. s = ExpressionStatement c e) \<or>
      (\<exists>c e. s = ReturnStatement c e) \<or> (\<exists>c a e. s = AssignStatement c a e)"
  shows "derives_statement lib (stmt_tokens ft s) s"
proof (cases s)
  case (VariableStatement c v)
  then have v: "derives_variableDec lib (vd_tokens ft v) v" using s by (intro derives_vd_tokens) simp
  show ?thesis
    using stmt_var [OF v] stmt_var_semi [OF v operator_kinds(4)] s VariableStatement
    by (cases c; cases v) (simp_all add: semi_def setCommit_def vt_defs)
next
  case (ExpressionStatement c e)
  then have e: "derives_exp lib (exp_tokens ft e) e" using s by (intro derives_exp_tokens) simp
  show ?thesis
    using stmt_exp [OF e] stmt_exp_semi [OF e operator_kinds(4)] ExpressionStatement
    by (cases c) (simp_all add: semi_def setCommit_def vt_defs)
next
  case (ReturnStatement c eo)
  show ?thesis
  proof (cases eo)
    case None
    then show ?thesis using s ReturnStatement stmt_return_line by simp
  next
    case (Some e)
    then have e: "derives_exp lib (exp_tokens ft e) e"
      using s ReturnStatement by (intro derives_exp_tokens) simp
    show ?thesis using stmt_return_exp_line [OF e] s ReturnStatement Some by simp
  qed
next
  case (AssignStatement c a e)
  then have e: "derives_exp lib (exp_tokens ft e) e" using s by (intro derives_exp_tokens) simp
  have a: "derives_rexp lib (exp_tokens ft a) a"
    using s AssignStatement by (intro derives_rexp_tokens derives_exp_tokens) simp_all
  show ?thesis
    using stmt_assign [OF a e] stmt_assign_semi [OF a e operator_kinds(4)] AssignStatement
    by (cases c) (simp_all add: semi_def setCommit_def vt_defs)
qed (use assms(2) in simp_all)

lemma derives_stmt_tokens:
  "wf_stmt lib ft s \<Longrightarrow> derives_statement lib (stmt_tokens ft s) s"
  "wf_blk lib ft b \<Longrightarrow> derives_block lib (blk_tokens ft b) b"
proof (induction s and b rule: wf_stmt_wf_blk.induct)
  case (2 lib ft c i b)
  then have b: "derives_block lib (blk_tokens ft b) b" by simp
  show ?case
    using stmt_struct [OF struct_def [OF structDec_b [OF ident] b operator_kinds(4)]] 2
    by (simp add: semi_def)
next
  case (3 lib ft c t u i as b p)
  then show ?case by (intro derives_function_tokens) auto
next
  case (7 lib ft c e b eb)
  then show ?case by (intro derives_if_tokens) auto
next
  case (8 lib ft c k i as p)
  then show ?case by (rule derives_extern_tokens)
next
  case (9 lib ft ss)
  show ?case
  proof (cases ss)
    case None
    then show ?thesis by (simp add: block_empty)
  next
    case (Some l)
    then have "derives_statements lib (concat (map (stmt_tokens ft) l)) l"
      using 9 by (intro derives_concat) (auto simp: list_all_iff)
    then show ?thesis using block_line Some by simp
  qed
qed (rule derives_plain_tokens; blast)+

subsection \<open>The text of a tree\<close>

definition inline :: "token list \<Rightarrow> bool" where
  "inline ts \<longleftrightarrow> list_all (\<lambda>t. proper t \<and> kind_of t \<noteq> TENDL) ts"

definition whole_lines :: "bool \<Rightarrow> token list \<Rightarrow> bool" where
  "whole_lines e ts \<longleftrightarrow> list_all proper ts \<and> (\<forall>bol. no_blank_lines bol ts \<and> ends_line bol ts = e)"

lemma no_blank_lines_append [simp]:
  "no_blank_lines bol (xs @ ys) \<longleftrightarrow> no_blank_lines bol xs \<and> no_blank_lines (ends_line bol xs) ys"
  by (induction xs arbitrary: bol) auto

lemma ends_line_append [simp]: "ends_line bol (xs @ ys) = ends_line (ends_line bol xs) ys"
  by (induction xs arbitrary: bol) auto

lemma inline_lines:
  "inline ts \<Longrightarrow> list_all proper ts \<and> no_blank_lines bol ts \<and> ends_line bol ts = (bol \<and> ts = [])"
  by (induction ts arbitrary: bol) (auto simp: inline_def)

lemma inline_simps [simp]:
  "inline []" "inline (t # ts) \<longleftrightarrow> proper t \<and> kind_of t \<noteq> TENDL \<and> inline ts"
  "inline (xs @ ys) \<longleftrightarrow> inline xs \<and> inline ys"
  by (auto simp: inline_def)

lemma inline_commas: "list_all inline xs \<Longrightarrow> inline (commas xs)"
  by (induction xs rule: commas.induct) (auto simp: punctuation_def)

lemma inline_groups [simp]: "inline (parens ts) \<longleftrightarrow> inline ts" "inline (brackets ts) \<longleftrightarrow> inline ts"
  by (auto simp: parens_def brackets_def punctuation_def)

lemma operator_inline:
  "list_all (\<lambda>w. inline [operator_token w]) (map snd operators)"
  by code_simp

lemma inline_operator [simp]: "w \<in> snd ` set operators \<Longrightarrow> proper (operator_token w)"
    "w \<in> snd ` set operators \<Longrightarrow> kind_of (operator_token w) \<noteq> TENDL"
  using operator_inline by (auto simp: list_all_iff inline_def)

lemma inline_exp_tokens: "wf_exp lib ft e \<Longrightarrow> inline (exp_tokens ft e)"
proof (induction e)
  case (FunctionCall i as)
  then show ?case by (auto simp: list_all_iff intro!: inline_commas)
next
  case (UnaryOperator w a)
  moreover have "w \<in> snd ` set operators" using UnaryOperator by (auto simp: operators_def)
  ultimately show ?case by auto
next
  case (BinaryOperator a w b)
  moreover have "w \<in> snd ` set operators" using BinaryOperator by (auto simp: operators_def)
  ultimately show ?case by auto
next
  case (Integer n)
  then show ?case by (simp add: int_literal_show_nat)
qed (auto simp: operators_def reserved_words_def split: option.splits)

lemma inline_small [simp]: "inline (semi c)" "inline (stars p)"
  by (auto simp: semi_def stars_def operators_def)

lemma inline_keyword: "k \<in> set var_keywords \<Longrightarrow> inline [keyword_token k]"
proof -
  have "list_all (\<lambda>k. inline [keyword_token k]) var_keywords" by code_simp
  then show "k \<in> set var_keywords \<Longrightarrow> ?thesis" by (simp add: list_all_iff)
qed

lemma inline_vd_tokens: "wf_vd lib ft v \<Longrightarrow> inline (vd_tokens ft v)"
  using inline_keyword by (cases v) (auto simp: punctuation_def inline_exp_tokens split: option.splits)

lemma inline_params: "list_all (wf_vd lib ft) as \<Longrightarrow> inline (commas (map (vd_tokens ft) as))"
  by (rule inline_commas) (auto simp: list_all_iff inline_vd_tokens)

lemma whole_lines_inline: "inline xs \<Longrightarrow> xs \<noteq> [] \<Longrightarrow> whole_lines False xs"
  using inline_lines by (auto simp: whole_lines_def)

lemma whole_lines_append: "whole_lines d xs \<Longrightarrow> whole_lines e ys \<Longrightarrow> whole_lines e (xs @ ys)"
  by (simp add: whole_lines_def)

lemma whole_lines_end: "whole_lines False xs \<Longrightarrow> whole_lines True (xs @ [plain TENDL])"
  by (simp add: whole_lines_def)

lemma whole_lines_line: "inline xs \<Longrightarrow> xs \<noteq> [] \<Longrightarrow> whole_lines True (xs @ [plain TENDL])"
  by (intro whole_lines_end whole_lines_inline)

lemma whole_lines_concat:
  "(\<And>s. s \<in> set ss \<Longrightarrow> whole_lines True (f s)) \<Longrightarrow> ss \<noteq> [] \<Longrightarrow> whole_lines True (concat (map f ss))"
proof (induction ss)
  case (Cons s ss)
  then show ?case by (cases "ss = []") (auto intro: whole_lines_append)
qed simp

lemma exp_tokens_Nil [simp]: "wf_exp lib ft e \<Longrightarrow> exp_tokens ft e \<noteq> []"
  using derives_exp_tokens derives_exp_end(1) by blast

lemma vd_tokens_Nil [simp]: "vd_tokens ft v \<noteq> []"
  by (cases v) auto

lemmas plain_tokens = reserved_words_def punctuation_def

lemma stmt_lines:
  "wf_stmt lib ft s \<Longrightarrow> whole_lines True (stmt_tokens ft s)"
  "wf_blk lib ft b \<Longrightarrow> whole_lines False (blk_tokens ft b)"
proof (induction s and b rule: wf_stmt_wf_blk.induct)
  case (1 lib ft c v)
  then show ?case
    using whole_lines_line [of "vd_tokens ft v @ semi c"] inline_vd_tokens [of lib ft v] by simp
next
  case (2 lib ft c i b)
  then have b: "whole_lines False (blk_tokens ft b)" by simp
  have i: "whole_lines False [plain TSTRUCT, name_token i]"
    using 2 by (intro whole_lines_inline) (auto simp: plain_tokens)
  have t: "whole_lines False (semi True)"
    by (intro whole_lines_inline) (simp_all add: semi_def operators_def)
  show ?case
    using whole_lines_end [OF whole_lines_append [OF i whole_lines_append [OF b t]]] by simp
next
  case (3 lib ft c t u i as b p)
  then have b: "whole_lines False (blk_tokens ft b)" by simp
  have h: "inline ((case t of Some k \<Rightarrow> keyword_token k | None \<Rightarrow> name_token (the u)) # stars p @
      name_token i # parens (commas (map (vd_tokens ft) as)))"
    using 3 inline_params inline_keyword by (auto split: option.splits)
  show ?case
    using whole_lines_end [OF whole_lines_append [OF whole_lines_inline [OF h] b]] by simp
next
  case (4 lib ft c e)
  then show ?case
    using whole_lines_line [of "exp_tokens ft e @ semi c"] inline_exp_tokens [of lib ft e] by simp
next
  case (5 lib ft c e)
  then show ?case
    using whole_lines_line [of "plain TRETURN # (case e of None \<Rightarrow> [] | Some x \<Rightarrow> exp_tokens ft x)"]
    by (auto simp: inline_exp_tokens plain_tokens split: option.splits)
next
  case (6 lib ft c a e)
  then show ?case
    using whole_lines_line [of "exp_tokens ft a @ plain TSET # exp_tokens ft e @ semi c"]
      inline_exp_tokens [of lib ft a] inline_exp_tokens [of lib ft e]
    by (simp add: plain_tokens)
next
  case (7 lib ft c e b eb)
  then have b: "whole_lines False (blk_tokens ft b)" by simp
  have e: "whole_lines False (plain TIF # parens (exp_tokens ft e))"
    using 7 by (intro whole_lines_inline) (auto simp: inline_exp_tokens plain_tokens)
  show ?case
  proof (cases eb)
    case None
    then show ?thesis using whole_lines_end [OF whole_lines_append [OF e b]] by simp
  next
    case (Some b')
    then have b': "whole_lines False (blk_tokens ft b')" using 7 by simp
    have "whole_lines False [plain TELSE]" by (intro whole_lines_inline) (auto simp: plain_tokens)
    then show ?thesis
      using whole_lines_end [OF whole_lines_append [OF e whole_lines_append [OF b whole_lines_append [OF _ b']]]] Some
      by fastforce
  qed
next
  case (8 lib ft c k i as p)
  then show ?case
    using whole_lines_line [of "plain TEXTERN # keyword_token k # stars p @ name_token i #
      parens (commas (map (vd_tokens ft) as)) @ semi True"] inline_params [of lib ft as] inline_keyword [of k]
    by (simp add: plain_tokens)
next
  case (9 lib ft ss)
  show ?case
  proof (cases ss)
    case None
    then show ?thesis using whole_lines_inline [of "[plain TLBRACE, plain TRBRACE]"] by (simp add: plain_tokens)
  next
    case (Some l)
    have "whole_lines True (concat (map (stmt_tokens ft) l))"
      using 9 Some by (intro whole_lines_concat) (auto simp: list_all_iff)
    then have "whole_lines False ([plain TLBRACE, plain TENDL] @ concat (map (stmt_tokens ft) l) @ [plain TRBRACE])"
      by (auto simp: whole_lines_def plain_tokens)
    then show ?thesis using Some by simp
  qed
qed

lemma tree_text:
  assumes "wf_blk lib ft (Block (Some ss))"
  shows "lex True (unlex (concat (map (stmt_tokens ft) ss))) = (concat (map (stmt_tokens ft) ss), []) \<and>
    derives_statements lib (concat (map (stmt_tokens ft) ss)) ss"
proof
  have ss: "ss \<noteq> []" "\<And>s. s \<in> set ss \<Longrightarrow> wf_stmt lib ft s"
    using assms by (auto simp: list_all_iff)
  have "whole_lines True (concat (map (stmt_tokens ft) ss))"
    using ss by (intro whole_lines_concat stmt_lines(1))
  then show "lex True (unlex (concat (map (stmt_tokens ft) ss))) = (concat (map (stmt_tokens ft) ss), [])"
    using lex_unlex [of "concat (map (stmt_tokens ft) ss)" True "[]"]
    by (simp add: whole_lines_def lex_end)
  show "derives_statements lib (concat (map (stmt_tokens ft) ss)) ss"
    using ss by (intro derives_concat derives_stmt_tokens(1))
qed

text \<open>
  Claim C11. Every nonempty program tree that the grammar's actions can build has a
  source text: the text that the printer writes is scanned without a message, and the grammar derives
  the program from the tokens.
\<close>

theorem every_tree_has_a_text:
  assumes "wf_blk lib ft (Block (Some ss))"
  shows "\<exists>ts. lex True (unlex (concat (map (stmt_tokens ft) ss))) = (ts, []) \<and>
    derives_program lib ts (start_symbol ss)"
  using tree_text [OF assms] derives_program.program by metis

definition no_floats :: numerals where
  "no_floats = \<lparr>atol_overflow = \<lambda>w. 0, atof = \<lambda>w. 0\<rparr>"

definition subtract :: statement where
  "subtract = FunctionDefinition False (Some ''int'') None ''f'' []
     (Block (Some [ReturnStatement False (Some (BinaryOperator (Integer 4) ''-'' (Integer 2)))])) False"

theorem every_tree_has_a_text_witness:
  "\<exists>ts. lex True (''int f ( ) { '' @ newline # ''return ( 4 ) - ( 2 ) '' @ newline # ''} '' @ [newline]) = (ts, []) \<and>
    derives_program no_floats ts (start_symbol [subtract])"
proof -
  have "ident_name ''f''" by code_simp
  then have wf: "wf_blk no_floats (\<lambda>d. ''0.0'') (Block (Some [subtract]))"
    by (simp add: subtract_def var_keywords_def)
  have u: "unlex (concat (map (stmt_tokens (\<lambda>d. ''0.0'')) [subtract])) =
      ''int f ( ) { '' @ newline # ''return ( 4 ) - ( 2 ) '' @ newline # ''} '' @ [newline]"
    by code_simp
  show ?thesis using every_tree_has_a_text [OF wf] unfolding u by simp
qed

end
