(* ===== verification/Fork_Grammar_Unique.thy ===== *)
theory Fork_Grammar_Unique
  imports Fork_Grammar_Correct
begin

section \<open>Ambiguity of expressions\<close>

text \<open>
  A derivation splits its tokens only outside of parentheses and brackets: \<open>depth\<close> follows the nesting and \<open>outer\<close> keeps
  the tokens at depth zero. From this an expression whose operands are in parentheses has exactly one
  derivation; a chain of operators without them has several.
\<close>

subsection \<open>Nesting\<close>

definition opens :: "token \<Rightarrow> bool" where
  "opens t \<longleftrightarrow> kind_of t \<in> {TLPAREN, TLSBRACE}"

definition closes :: "token \<Rightarrow> bool" where
  "closes t \<longleftrightarrow> kind_of t \<in> {TRPAREN, TRSBRACE}"

fun depth :: "nat \<Rightarrow> token list \<Rightarrow> nat option" where
  "depth d [] = Some d"
| "depth d (t # ts) =
     (if opens t then depth (Suc d) ts
      else if closes t then (case d of 0 \<Rightarrow> None | Suc d' \<Rightarrow> depth d' ts)
      else depth d ts)"

fun outer :: "nat \<Rightarrow> token list \<Rightarrow> token list" where
  "outer d [] = []"
| "outer d (t # ts) =
     (if opens t then (if d = 0 then [t] else []) @ outer (Suc d) ts
      else if closes t then (if d = 1 then [t] else []) @ outer (d - 1) ts
      else (if d = 0 then [t] else []) @ outer d ts)"

definition balanced :: "token list \<Rightarrow> bool" where
  "balanced ts \<longleftrightarrow> depth 0 ts = Some 0"

lemma depth_append: "depth d xs = Some d' \<Longrightarrow> depth d (xs @ ys) = depth d' ys"
  by (induction d xs rule: depth.induct) (auto split: if_splits nat.splits)

lemma outer_append: "depth d xs = Some d' \<Longrightarrow> outer d (xs @ ys) = outer d xs @ outer d' ys"
  by (induction d xs rule: depth.induct) (auto split: if_splits nat.splits)

lemma depth_inside: "depth d xs = Some d' \<Longrightarrow> depth (Suc d) xs = Some (Suc d') \<and> outer (Suc d) xs = []"
  by (induction d xs rule: depth.induct) (auto split: if_splits nat.splits)

lemma outer_balanced_append [simp]: "balanced xs \<Longrightarrow> outer 0 (xs @ ys) = outer 0 xs @ outer 0 ys"
  by (simp add: balanced_def outer_append)

lemma balanced_append [simp]: "balanced xs \<Longrightarrow> balanced (xs @ ys) \<longleftrightarrow> balanced ys"
  by (simp add: balanced_def depth_append)

lemma balanced_Nil [simp]: "balanced []"
  by (simp add: balanced_def)

lemma balanced_Cons [simp]: "\<not> opens t \<Longrightarrow> \<not> closes t \<Longrightarrow> balanced (t # ts) \<longleftrightarrow> balanced ts"
  by (simp add: balanced_def)

lemma outer_Cons [simp]: "\<not> opens t \<Longrightarrow> \<not> closes t \<Longrightarrow> outer 0 (t # ts) = t # outer 0 ts"
  by simp

lemma group:
  assumes "balanced xs" "opens l" "\<not> closes l" "closes r" "\<not> opens r"
  shows "balanced (l # xs @ r # ys) \<longleftrightarrow> balanced ys" "outer 0 (l # xs @ r # ys) = l # r # outer 0 ys"
proof -
  have d: "depth (Suc 0) xs = Some (Suc 0)" "outer (Suc 0) xs = []"
    using depth_inside assms(1) by (auto simp: balanced_def)
  show "balanced (l # xs @ r # ys) \<longleftrightarrow> balanced ys" "outer 0 (l # xs @ r # ys) = l # r # outer 0 ys"
    using assms depth_append [OF d(1)] outer_append [OF d(1)] by (simp_all add: balanced_def d(2))
qed

lemma bracket_tokens [simp]:
  "opens (Token TLPAREN v)" "opens (Token TLSBRACE v)" "closes (Token TRPAREN v)" "closes (Token TRSBRACE v)"
  "k \<notin> {TLPAREN, TLSBRACE} \<Longrightarrow> \<not> opens (Token k v)" "k \<notin> {TRPAREN, TRSBRACE} \<Longrightarrow> \<not> closes (Token k v)"
  by (auto simp: opens_def closes_def)

lemma other_tokens:
  "kind_of t \<in> {TSTAR, TDOT, TSAMPR} \<Longrightarrow> \<not> opens t \<and> \<not> closes t"
  "kind_of t \<in> set binary_kinds \<Longrightarrow> \<not> opens t \<and> \<not> closes t"
  "kind_of t \<in> set unary_kinds \<Longrightarrow> \<not> opens t \<and> \<not> closes t"
  by (auto simp: opens_def closes_def binary_kinds_def unary_kinds_def)

lemma groups [simp]:
  assumes "balanced xs"
  shows "balanced (Token TLPAREN u # xs @ Token TRPAREN v # ys) \<longleftrightarrow> balanced ys"
    "outer 0 (Token TLPAREN u # xs @ Token TRPAREN v # ys) = Token TLPAREN u # Token TRPAREN v # outer 0 ys"
    "balanced (Token TLSBRACE u # xs @ Token TRSBRACE v # ys) \<longleftrightarrow> balanced ys"
    "outer 0 (Token TLSBRACE u # xs @ Token TRSBRACE v # ys) = Token TLSBRACE u # Token TRSBRACE v # outer 0 ys"
  by (rule group [OF assms]; simp)+

declare outer.simps(2) [simp del]

lemma derives_balanced:
  "derives_exp lib ts e \<Longrightarrow> balanced ts"
  "derives_rexp lib ts e \<Longrightarrow> balanced ts"
  "derives_callArgs lib ts es \<Longrightarrow> balanced ts"
  by (induction rule: derives_exp_derives_rexp_derives_callArgs.inducts)
    (auto simp: other_tokens elim!: derives_identE derives_numericE derives_binaryOperatorTokenE derives_unaryOperatorTokenE)

lemma outer_Nil: "ts \<noteq> [] \<Longrightarrow> balanced ts \<Longrightarrow> outer 0 ts \<noteq> []"
  by (cases ts) (auto simp: balanced_def outer.simps)

lemma exp_shapeE:
  assumes "derives_exp lib ts e"
  obtains
    (binary) xs k w ys a b where "ts = xs @ Token k (Some w) # ys" "k \<in> set binary_kinds"
      "e = BinaryOperator a w b" "derives_exp lib xs a" "derives_exp lib ys b"
  | (unary) k w xs a where "ts = Token k (Some w) # xs" "k \<in> set unary_kinds"
      "e = UnaryOperator w a" "derives_exp lib xs a"
  | (int) w where "ts = [Token TINTLIT (Some w)]" "e = Integer (atol lib w)"
  | (float) w where "ts = [Token TFLOATLIT (Some w)]" "e = Float (atof lib w)"
  | (null) "ts = [plain TNULL]" "e = NullLiteral"
  | (paren) xs where "ts = parens xs" "derives_exp lib xs e"
  | (call) i xs as where "ts = name_token i # parens xs" "e = FunctionCall i as" "derives_callArgs lib xs as"
  | (address) t i where "ts = [t, name_token i]" "kind_of t = TSAMPR" "e = AddressOfExpression i None"
  | (address_at) t i xs a where "ts = t # name_token i # brackets xs" "kind_of t = TSAMPR"
      "e = AddressOfExpression i (Some a)" "derives_exp lib xs a"
  | (ident) i where "ts = [name_token i]" "e = Identifier i"
  | (deref) t i where "ts = [t, name_token i]" "kind_of t = TSTAR" "e = PointerExpression i (Some (Integer 0)) None"
  | (index) i xs a where "ts = name_token i # brackets xs" "e = PointerExpression i (Some a) None"
      "derives_exp lib xs a"
  | (field) i d f where "ts = [name_token i, d, name_token f]" "kind_of d = TDOT" "e = StructureExpression i f"
  | (deref_field) t i d f where "ts = [t, name_token i, d, name_token f]" "kind_of t = TSTAR"
      "kind_of d = TDOT" "e = PointerExpression i (Some (Integer 0)) (Some f)"
  using assms
proof (cases rule: derives_exp.cases)
  case (exp_binary xs a os w ys b)
  then show thesis by (auto elim!: derives_binaryOperatorTokenE intro: binary)
next
  case (exp_unary os w xs a)
  then show thesis by (auto elim!: derives_unaryOperatorTokenE intro: unary)
next
  case exp_numeric
  then show thesis by (auto elim!: derives_numericE intro: int float)
next
  case exp_rexp
  then show thesis
    by (cases rule: derives_rexp.cases)
      (auto elim!: derives_identE intro: ident deref index field deref_field simp: brackets_def)
next
  case (exp_paren xs)
  then show thesis by (auto intro: paren simp: parens_def)
next
  case (exp_equal xs a ys b w)
  then show thesis by (intro binary [of xs TEQUAL w ys a b]) (auto simp: binary_kinds_def)
next
  case (exp_call ns i xs as)
  then show thesis by (auto elim!: derives_identE intro: call simp: parens_def)
next
  case (exp_address t ns i)
  then show thesis by (auto elim!: derives_identE intro: address)
next
  case (exp_address_at t ns i xs a)
  then show thesis by (auto elim!: derives_identE intro: address_at simp: brackets_def)
qed (rule null)

lemma derives_no_comma:
  "derives_exp lib ts e \<Longrightarrow> plain TCOMMA \<notin> set (outer 0 ts)"
  "derives_rexp lib ts e \<Longrightarrow> plain TCOMMA \<notin> set (outer 0 ts)"
  "derives_callArgs lib ts es \<Longrightarrow> True"
  by (induction rule: derives_exp_derives_rexp_derives_callArgs.inducts)
    (auto simp: other_tokens derives_balanced binary_kinds_def unary_kinds_def
      elim!: derives_identE derives_numericE derives_binaryOperatorTokenE derives_unaryOperatorTokenE)

lemma split_unique:
  assumes "xs @ t # ys = xs' @ t' # ys'" "balanced xs" "balanced xs'" "outer 0 xs = outer 0 xs'"
    and "\<not> opens t" "\<not> closes t" "\<not> opens t'" "\<not> closes t'"
  shows "xs = xs' \<and> t = t' \<and> ys = ys'"
proof -
  have "zs = []" if "us @ zs = vs" "zs = [] \<or> \<not> opens (hd zs) \<and> \<not> closes (hd zs)" "balanced us"
      "outer 0 us = outer 0 vs" for us zs vs :: "token list"
    using that by (cases zs) auto
  from this [of xs _ xs'] this [of xs' _ xs] assms show ?thesis
    by (fastforce simp: append_eq_append_conv2 Cons_eq_append_conv append_eq_Cons_conv)
qed

subsection \<open>Expressions in parentheses\<close>

lemma outer_groups [simp]:
  assumes "balanced xs"
  shows "outer 0 (parens xs) = [plain TLPAREN, plain TRPAREN]" "balanced (parens xs)"
    "outer 0 (brackets xs) = [plain TLSBRACE, plain TRSBRACE]" "balanced (brackets xs)"
  using groups [OF assms, where ys = "[]"] by (simp_all add: parens_def brackets_def)

lemma group_eq [simp]: "parens xs = parens ys \<longleftrightarrow> xs = ys" "brackets xs = brackets ys \<longleftrightarrow> xs = ys"
  by (simp_all add: parens_def brackets_def)

lemma binary_outer:
  assumes "derives_exp lib xs a" "derives_exp lib ys b" "k \<in> set binary_kinds"
  obtains u us v vs where "outer 0 (xs @ Token k (Some w) # ys) = (u # us) @ Token k (Some w) # v # vs"
    "outer 0 xs = u # us"
proof -
  have "outer 0 xs \<noteq> []" "outer 0 ys \<noteq> []"
    using assms derives_exp_end(1) derives_balanced(1) outer_Nil by blast+
  then obtain u us v vs where "outer 0 xs = u # us" "outer 0 ys = v # vs" by (metis list.exhaust)
  then show thesis
    using that [of u us v vs] assms derives_balanced(1) other_tokens(2) [of "Token k (Some w)"] by auto
qed

lemma parens_unique:
  assumes xs: "balanced xs" and d: "derives_exp lib (parens xs) e"
  shows "derives_exp lib xs e"
proof -
  have o: "outer 0 (parens xs) = [plain TLPAREN, plain TRPAREN]" using xs by simp
  from d show ?thesis
  proof (cases rule: exp_shapeE)
    case (binary ys k w zs a b)
    then obtain u us v vs where "outer 0 (parens xs) = (u # us) @ Token k (Some w) # v # vs"
      using binary_outer by metis
    then show ?thesis using o by (cases us) auto
  qed (auto simp: parens_def brackets_def unary_kinds_def)
qed

lemma unary_unique:
  assumes "balanced xs" "k \<in> set unary_kinds" and d: "derives_exp lib (Token k (Some w) # parens xs) e"
  obtains a where "e = UnaryOperator w a" "derives_exp lib xs a"
proof -
  have o: "outer 0 (Token k (Some w) # parens xs) = [Token k (Some w), plain TLPAREN, plain TRPAREN]"
    using assms other_tokens(3) [of "Token k (Some w)"] by simp
  from d show thesis
  proof (cases rule: exp_shapeE)
    case (binary ys j v zs a b)
    then obtain u us t ts where "outer 0 (Token k (Some w) # parens xs) = (u # us) @ Token j (Some v) # t # ts"
      using binary_outer by metis
    then show thesis using o binary(2) by (cases us) (auto simp: binary_kinds_def Cons_eq_append_conv)
  next
    case (unary j v ys a)
    then show thesis using that parens_unique assms(1) by auto
  qed (use assms(2) in \<open>auto simp: parens_def brackets_def unary_kinds_def\<close>)
qed

lemma binary_unique:
  assumes xs: "balanced xs" and ys: "balanced ys" and k: "k \<in> set binary_kinds"
    and d: "derives_exp lib (parens xs @ Token k (Some w) # parens ys) e"
  obtains a b where "e = BinaryOperator a w b" "derives_exp lib xs a" "derives_exp lib ys b"
proof -
  have br: "\<not> opens (Token j v)" "\<not> closes (Token j v)" if "j \<in> set binary_kinds" for j v
    using that other_tokens(2) [of "Token j v"] by simp_all
  have o: "outer 0 (parens xs @ Token k (Some w) # parens ys) =
      [plain TLPAREN, plain TRPAREN, Token k (Some w), plain TLPAREN, plain TRPAREN]"
    using xs ys br [OF k] by simp
  from d show thesis
  proof (cases rule: exp_shapeE)
    case (binary us j v vs a b)
    then obtain u ru t rt where "outer 0 (parens xs @ Token k (Some w) # parens ys) =
        (u # ru) @ Token j (Some v) # t # rt" "outer 0 us = u # ru"
      using binary_outer by metis
    then have "outer 0 us = outer 0 (parens xs)"
      using o xs binary(2) by (auto simp: Cons_eq_append_conv binary_kinds_def)
    then have "parens xs = us \<and> Token k (Some w) = Token j (Some v) \<and> parens ys = vs"
      using xs derives_balanced(1) [OF binary(4)] binary(1) br [OF k] br [OF binary(2)]
      by (intro split_unique) auto
    then show thesis using binary that parens_unique xs ys by auto
  next
    case (paren zs)
    then have "balanced zs" using derives_balanced(1) by blast
    then have "outer 0 (parens zs) = [plain TLPAREN, plain TRPAREN]" by simp
    then show thesis using o paren(1) by simp
  qed (auto simp: parens_def brackets_def unary_kinds_def)
qed

lemma last_split:
  assumes "xs @ c # ys = xs' @ c # ys'" "c \<notin> set ys" "c \<notin> set ys'"
  shows "xs = xs'"
  using assms by (auto simp: append_eq_append_conv2 Cons_eq_append_conv append_eq_Cons_conv)

lemma balanced_commas: "list_all balanced xs \<Longrightarrow> balanced (commas xs)"
  by (induction xs rule: commas.induct) auto

lemma callArgs_unique:
  assumes "\<And>e e'. e \<in> set es \<Longrightarrow> derives_exp lib (f e) e' \<Longrightarrow> e' = e"
    and "\<And>e. e \<in> set es \<Longrightarrow> derives_exp lib (f e) e"
    and "derives_callArgs lib (commas (map f es)) as"
  shows "as = es"
  using assms
proof (induction es arbitrary: as rule: rev_induct)
  case Nil
  then show ?case using derives_exp_end(1) by (auto elim: derives_callArgs.cases)
next
  case (snoc e es)
  let ?c = "commas (map f es)"
  have de: "derives_exp lib (f e) e" by (rule snoc.prems(2)) simp
  have e: "balanced (f e)" "plain TCOMMA \<notin> set (outer 0 (f e))" "f e \<noteq> []"
    using derives_balanced(1) [OF de] derives_no_comma(1) [OF de] derives_exp_end(1) [OF de] by auto
  have c: "balanced ?c"
    using snoc.prems(2) derives_balanced(1) by (intro balanced_commas) (auto simp: list_all_iff)
  from snoc.prems(3) show ?case
  proof (cases rule: derives_callArgs.cases)
    case callArgs_empty
    then show ?thesis using e(3) by (simp add: commas_snoc split: if_splits)
  next
    case (callArgs_one a)
    then have "es = []"
      using derives_no_comma(1) [OF callArgs_one(2)] c by (auto simp: commas_snoc split: if_splits)
    then show ?thesis using callArgs_one snoc.prems(1) by (simp add: commas_snoc)
  next
    case (callArgs_more xs bs ys b)
    have bal: "balanced xs" "balanced ys" "plain TCOMMA \<notin> set (outer 0 ys)"
      using callArgs_more derives_balanced(1,3) derives_no_comma(1) by blast+
    have ne: "es \<noteq> []"
    proof
      assume "es = []"
      then have "f e = xs @ plain TCOMMA # ys" using callArgs_more(1) by (simp add: commas_snoc)
      then show False using e(2) bal by simp
    qed
    then have eq: "?c @ plain TCOMMA # f e = xs @ plain TCOMMA # ys"
      using callArgs_more(1) by (simp add: commas_snoc)
    have "outer 0 ?c @ plain TCOMMA # outer 0 (f e) = outer 0 xs @ plain TCOMMA # outer 0 ys"
      using arg_cong [OF eq, of "outer 0"] c bal by simp
    then have "outer 0 ?c = outer 0 xs" using e(2) bal(3) by (rule last_split)
    then have "?c = xs \<and> f e = ys" using split_unique [OF eq c bal(1)] by simp
    then show ?thesis using callArgs_more snoc by simp
  qed
qed

lemma operator_token_kind:
  assumes "list_all (\<lambda>w. operator_ok w ks) ws" "w \<in> set ws"
  obtains k where "k \<in> set ks" "operator_token w = Token k (Some w)"
  using assms operator_okD operator_token_eq that by (metis list_all_iff)

lemma concrete_operators:
  "operator_token ''&'' = Token TSAMPR (Some ''&'')" "operator_token ''.'' = Token TDOT (Some ''.'')"
  "operator_token ''*'' = Token TSTAR (Some ''*'')"
  by code_simp+

lemma single_token:
  assumes "derives_exp lib [t] e"
  shows "(\<exists>w. t = Token TINTLIT (Some w) \<and> e = Integer (atol lib w)) \<or>
    (\<exists>w. t = Token TFLOATLIT (Some w) \<and> e = Float (atof lib w)) \<or>
    (\<exists>w. t = name_token w \<and> e = Identifier w) \<or> (t = plain TNULL \<and> e = NullLiteral)"
  using assms
proof (cases rule: exp_shapeE)
  case (binary xs k w ys a b)
  then show ?thesis using derives_exp_end(1) [OF binary(4)] by (cases xs) auto
next
  case (unary k w xs a)
  then show ?thesis using derives_exp_end(1) [OF unary(4)] by simp
qed (auto simp: parens_def brackets_def)

lemma not_binary_shape:
  assumes "derives_exp lib xs a" "derives_exp lib ys b" "k \<in> set binary_kinds"
    and "ts = xs @ Token k (Some w) # ys" "outer 0 ts = t # us" "list_all (\<lambda>t. kind_of t \<notin> set binary_kinds) us"
  shows False
proof -
  obtain u ru v rv where "t # us = (u # ru) @ Token k (Some w) # v # rv"
    using binary_outer [OF assms(1-3)] assms(4,5) by metis
  then show False using assms(3,6) by auto
qed

lemmas shapes = unary_kinds_def parens_def brackets_def concrete_operators

lemma call_unique:
  assumes b: "balanced xs" and d: "derives_exp lib (name_token i # parens xs) e"
  obtains as where "e = FunctionCall i as" "derives_callArgs lib xs as"
proof -
  have o: "outer 0 (name_token i # parens xs) = name_token i # [plain TLPAREN, plain TRPAREN]"
    using b by (simp add: other_tokens)
  from d show thesis
  proof (cases rule: exp_shapeE)
    case (binary us k w vs a b)
    from not_binary_shape [OF binary(4,5,2,1) o] show thesis by (simp add: binary_kinds_def)
  qed (auto simp: shapes intro: that)
qed

lemma index_unique:
  assumes b: "balanced xs" and d: "derives_exp lib (name_token i # brackets xs) e"
  obtains a where "e = PointerExpression i (Some a) None" "derives_exp lib xs a"
proof -
  have o: "outer 0 (name_token i # brackets xs) = name_token i # [plain TLSBRACE, plain TRSBRACE]"
    using b by (simp add: other_tokens)
  from d show thesis
  proof (cases rule: exp_shapeE)
    case (binary us k w vs a b)
    from not_binary_shape [OF binary(4,5,2,1) o] show thesis by (simp add: binary_kinds_def)
  qed (auto simp: shapes intro: that)
qed

lemma address_at_unique:
  assumes b: "balanced xs" and d: "derives_exp lib (operator_token ''&'' # name_token i # brackets xs) e"
  obtains a where "e = AddressOfExpression i (Some a)" "derives_exp lib xs a"
proof -
  have o: "outer 0 (operator_token ''&'' # name_token i # brackets xs) = operator_token ''&'' # [name_token i, plain TLSBRACE, plain TRSBRACE]"
    using b by (simp add: other_tokens)
  from d show thesis
  proof (cases rule: exp_shapeE)
    case (binary us k w vs a b)
    from not_binary_shape [OF binary(4,5,2,1) o] show thesis by (simp add: binary_kinds_def)
  qed (auto simp: shapes intro: that)
qed

lemma address_unique:
  assumes d: "derives_exp lib ([operator_token ''&'', name_token i]) e"
  shows "e = AddressOfExpression i None"
proof -
  have o: "outer 0 ([operator_token ''&'', name_token i]) = operator_token ''&'' # [name_token i]"
    by (simp add: other_tokens)
  from d show ?thesis
  proof (cases rule: exp_shapeE)
    case (binary us k w vs a b)
    from not_binary_shape [OF binary(4,5,2,1) o] show ?thesis by (simp add: binary_kinds_def)
  qed (auto simp: shapes)
qed

lemma field_unique:
  assumes d: "derives_exp lib ([name_token i, operator_token ''.'', name_token f]) e"
  shows "e = StructureExpression i f"
proof -
  have o: "outer 0 ([name_token i, operator_token ''.'', name_token f]) = name_token i # [operator_token ''.'', name_token f]"
    by (simp add: other_tokens)
  from d show ?thesis
  proof (cases rule: exp_shapeE)
    case (binary us k w vs a b)
    from not_binary_shape [OF binary(4,5,2,1) o] show ?thesis by (simp add: binary_kinds_def)
  qed (auto simp: shapes)
qed

lemma deref_field_unique:
  assumes d: "derives_exp lib ([operator_token ''*'', name_token i, operator_token ''.'', name_token f]) e"
  shows "e = PointerExpression i (Some (Integer 0)) (Some f)"
proof -
  have o: "outer 0 ([operator_token ''*'', name_token i, operator_token ''.'', name_token f]) = operator_token ''*'' # [name_token i, operator_token ''.'', name_token f]"
    by (simp add: other_tokens)
  from d show ?thesis
  proof (cases rule: exp_shapeE)
    case (binary us k w vs a b)
    from not_binary_shape [OF binary(4,5,2,1) o] show ?thesis by (simp add: binary_kinds_def)
  qed (auto simp: shapes)
qed

lemma exp_tokens_unique: "wf_exp lib ft e \<Longrightarrow> derives_exp lib (exp_tokens ft e) e' \<Longrightarrow> e' = e"
proof (induction "size e" arbitrary: e e' rule: less_induct)
  case less
  note IH = less.hyps and wf = less.prems(1) and d = less.prems(2)
  have bal: "balanced (exp_tokens ft x)" if "wf_exp lib ft x" for x
    using derives_exp_tokens [OF that] derives_balanced(1) by blast
  show ?case
  proof (cases e)
    case (UnaryOperator w a)
    then obtain k where "k \<in> set unary_kinds" "operator_token w = Token k (Some w)"
      using wf operator_token_kind [OF operator_tokens(1), of w] by auto
    then obtain a' where "e' = UnaryOperator w a'" "derives_exp lib (exp_tokens ft a) a'"
      using unary_unique [of "exp_tokens ft a" k lib w e'] bal [of a] wf d UnaryOperator by auto
    then show ?thesis using IH [of a a'] wf UnaryOperator by simp
  next
    case (BinaryOperator a w b)
    then obtain k where "k \<in> set binary_kinds" "operator_token w = Token k (Some w)"
      using wf operator_token_kind [OF operator_tokens(2), of w] by auto
    then obtain a' b' where "e' = BinaryOperator a' w b'" "derives_exp lib (exp_tokens ft a) a'"
        "derives_exp lib (exp_tokens ft b) b'"
      using binary_unique [of "exp_tokens ft a" "exp_tokens ft b" k lib w e'] bal [of a] bal [of b] wf d
        BinaryOperator by auto
    then show ?thesis using IH [of a a'] IH [of b b'] wf BinaryOperator by simp
  next
    case (FunctionCall i as)
    have as: "derives_exp lib (exp_tokens ft x) x" if "x \<in> set as" for x
      using wf FunctionCall that by (intro derives_exp_tokens) (auto simp: list_all_iff)
    then have "balanced (commas (map (exp_tokens ft) as))"
      using derives_balanced(1) by (intro balanced_commas) (auto simp: list_all_iff)
    then obtain bs where bs: "e' = FunctionCall i bs" "derives_callArgs lib (commas (map (exp_tokens ft) as)) bs"
      using d FunctionCall by (auto elim: call_unique)
    have "x' = x" if "x \<in> set as" "derives_exp lib (exp_tokens ft x) x'" for x x'
      using that wf FunctionCall
      by (intro IH) (auto simp: list_all_iff less_Suc_eq_le dest: size_list_estimation' [where f = size, OF _ order_refl])
    from callArgs_unique [OF this as bs(2)] show ?thesis using bs(1) FunctionCall by simp
  next
    case (AddressOfExpression i off)
    show ?thesis
    proof (cases off)
      case None
      then show ?thesis using d AddressOfExpression address_unique by simp
    next
      case (Some x)
      then have x: "wf_exp lib ft x" using wf AddressOfExpression by simp
      then show ?thesis
        using d AddressOfExpression Some IH [of x] by (auto elim!: address_at_unique [OF bal [OF x]])
    qed
  next
    case (PointerExpression i off f)
    then obtain x where x: "off = Some x" "wf_exp lib ft x" using wf by (auto split: option.splits)
    then show ?thesis
      using d PointerExpression wf deref_field_unique IH [of x]
      by (cases f) (auto elim!: index_unique [OF bal [OF x(2)]])
  qed (use d wf field_unique in \<open>auto dest: single_token simp: atol_show_nat\<close>)
qed



subsection \<open>Chains of operators\<close>

lemma derives_chain:
  assumes "derives_exp lib xs a" "derives_exp lib ys b" "derives_exp lib zs c"
    and "derives_binaryOperatorToken [o1] v" "derives_binaryOperatorToken [o2] w"
  shows "derives_exp lib (xs @ o1 # ys @ o2 # zs) (BinaryOperator (BinaryOperator a v b) w c)"
    "derives_exp lib (xs @ o1 # ys @ o2 # zs) (BinaryOperator a v (BinaryOperator b w c))"
  using exp_binary [OF exp_binary [OF assms(1,4,2)] assms(5,3)]
    exp_binary [OF assms(1,4) exp_binary [OF assms(2,5,3)]] by simp_all

text \<open>
  Claim C32. The grammar gives the text \<open>4 - 2 + 10\<close> two
  meanings, 12 and -8: the rule for binary operators derives the operator through a nonterminal, so it has no precedence
  of its own and the declared precedences do not order it.
\<close>

theorem operator_chains_are_ambiguous:
  "\<exists>ts e e'. lex True (''4 - 2 + 10 ; '' @ [newline]) = (ts @ [Token TSCOLON (Some '';''), plain TENDL], []) \<and>
     derives_exp lib ts e \<and> eval H env e = Some (SInt 12) \<and>
     derives_exp lib ts e' \<and> eval H env e' = Some (SInt (- 8))"
proof -
  let ?n = "\<lambda>w. [Token TINTLIT (Some w)]"
  let ?ts = "?n ''4'' @ Token TDASH (Some ''-'') # ?n ''2'' @ Token TPLUS (Some ''+'') # ?n ''10''"
  have "list_all proper (?ts @ [Token TSCOLON (Some '';''), plain TENDL])"
      "no_blank_lines True (?ts @ [Token TSCOLON (Some '';''), plain TENDL])"
      "unlex (?ts @ [Token TSCOLON (Some '';''), plain TENDL]) = ''4 - 2 + 10 ; '' @ [newline]"
    by code_simp+
  then have l: "lex True (''4 - 2 + 10 ; '' @ [newline]) = (?ts @ [Token TSCOLON (Some '';''), plain TENDL], [])"
    using lex_unlex [of "?ts @ [Token TSCOLON (Some '';''), plain TENDL]" True "[]"] by (simp add: lex_end)
  have "atol lib ''4'' = 4" "atol lib ''2'' = 2" "atol lib ''10'' = 10"
    by (simp_all add: atol_def digits_value_def)
  then have n: "derives_exp lib (?n ''4'') (Integer 4)" "derives_exp lib (?n ''2'') (Integer 2)"
      "derives_exp lib (?n ''10'') (Integer 10)"
    using exp_numeric [OF intlit] by metis+
  have o: "derives_binaryOperatorToken [Token TDASH (Some ''-'')] ''-''"
      "derives_binaryOperatorToken [Token TPLUS (Some ''+'')] ''+''"
    by (auto intro!: binop simp: binary_kinds_def)
  show ?thesis
    by (intro exI [of _ ?ts] exI conjI, rule l, rule derives_chain(1) [OF n o], simp add: eval_int_def,
      rule derives_chain(2) [OF n o], simp add: eval_int_def)
qed

end
