(* ===== verification/Source_Correct.thy ===== *)
theory Source_Correct
  imports Program_Correct Fork_Grammar_Unique
begin

section \<open>From the source text to the compiled program\<close>

text \<open>
  The lexer, the grammar and the code generator together, for whatever derivation of the
  source the generated parser follows.
\<close>

lemma injections_sequential: "\<forall>s \<in> set buildInjections. commitsStmt s"
  by (simp add: buildInjections_def ExternStatement_new_def)

lemma derives_program_commits:
  assumes "derives_program lib ts root" "lines_closed ts"
  shows "commitsBlk root"
  using assms(1)
proof cases
  case (program ss)
  then have "\<forall>s \<in> set ss. commitsStmt s" using derives_commits(2) assms(2) by blast
  with injections_sequential program show ?thesis by (auto simp: start_symbol_def)
qed

text \<open>
  Claim C10. A source file in which no line ends directly after an expression, that
  is in which every statement is closed by a semicolon or a brace, is a sequential program: whichever derivation
  the parser follows, the compiler creates no closure, opens no group and re-marks no statement.
\<close>

theorem closed_lines_compile_sequentially:
  assumes "derives_program lib (fst (lex True source)) root" "lines_closed (fst (lex True source))"
    and "compile jit root = Some (v, st)"
  shows "lambdaNum st = 0 \<and> lambdaJIT st = [] \<and> currCid st = None \<and> marked st = []"
  using compile_keeps [OF keeps_commits(2) [OF derives_program_commits [OF assms(1,2)]] initial_ok(5) assms(3)]
  by (simp add: control_def)

definition one_variable :: statement where
  "one_variable = FunctionDefinition False (Some ''void'') None ''f'' []
     (Block (Some [VariableStatement True (VariableDefinition ''int'' ''a'' (Some (Integer 1)) False),
        ReturnStatement False None])) False"

lemma one_variable_ok: "wt_function one_variable" "function_sig one_variable = Some (''f'', None, [])"
  by (simp_all add: one_variable_def return_type_def keyword_type_def check_def defined_type_def assignable_def)

theorem closed_lines_compile_sequentially_witness:
  "\<exists>v st. compile (\<lambda>_. 0) (start_symbol [one_variable]) = Some (v, st) \<and>
     derives_program no_floats (fst (lex True
       (''void f ( ) { '' @ newline # ''int a = 1 ; '' @ newline # ''return '' @ newline # ''} '' @ [newline])))
       (start_symbol [one_variable]) \<and>
     lambdaJIT st = [] \<and> marked st = []"
proof -
  let ?ts = "concat (map (stmt_tokens (\<lambda>d. ''0.0'')) [one_variable])"
  let ?src = "''void f ( ) { '' @ newline # ''int a = 1 ; '' @ newline # ''return '' @ newline # ''} '' @ [newline]"
  have u: "unlex ?ts = ?src" and closed: "lines_closed ?ts" by code_simp+
  have "ident_name ''f''" "ident_name ''a''" by code_simp+
  then have "wf_blk no_floats (\<lambda>d. ''0.0'') (Block (Some [one_variable]))"
    by (simp add: one_variable_def var_keywords_def)
  from tree_text [OF this] have t: "lex True ?src = (?ts, [])" "derives_statements no_floats ?ts [one_variable]"
    unfolding u by blast+
  have d: "derives_program no_floats (fst (lex True ?src)) (start_symbol [one_variable])"
    unfolding t(1) fst_conv using t(2) by (rule derives_program.program)
  have closed': "lines_closed (fst (lex True ?src))" unfolding t(1) fst_conv by (rule closed)
  obtain v st where st: "compile (\<lambda>_. 0) (start_symbol [one_variable]) = Some (v, st)"
    using program_compiles [of "[one_variable]" "\<lambda>_. 0" small_host] one_variable_ok plus_two_ok(4) by auto
  from closed_lines_compile_sequentially [OF d closed' st] st d show ?thesis by blast
qed

end
