(* ===== verification/Par_Context.thy ===== *)
theory Par_Context
  imports Fork_Prelude
begin

section \<open>The runtime's contexts of futures (parContextManager.h, parContextManager.cpp)\<close>

text \<open>
  A \<open>StatementContext\<close> holds the futures of one group of parallel statements, in one map per
  result type; the \<open>ParContextManager\<close> holds the contexts, the number of threads in use and its
  bound. Every method is one critical section (\<open>lock_guard\<close>), so it is a function of the state;
  \<open>recon_*\<close>, which unlocks in the middle, is cut there in \<^verbatim>\<open>Par_System\<close>.

  A scheduled statement is a function on the memory \<open>'w\<close> that the closures of the program share.
  A future is deferred (its statement runs when the value is asked for), running (its thread has
  not finished) or ready. \<open>std::async\<close> makes the first two, and only a running one becomes ready
  by itself. Whatever would leave these functions by an exception or a failed assertion ends the
  program, and is an error value here.
\<close>

subsection \<open>Futures\<close>

type_synonym address = int64

datatype ('w, 'a) future =
    Deferred "'w \<Rightarrow> 'a \<times> 'w"
  | Running "'w \<Rightarrow> 'a \<times> 'w"
  | Ready 'a

datatype launch = LaunchAsync | LaunchDeferred

definition std_async :: "launch \<Rightarrow> ('w \<Rightarrow> 'a \<times> 'w) \<Rightarrow> ('w, 'a) future" where
  "std_async policy statement =
     (case policy of LaunchDeferred \<Rightarrow> Deferred statement | LaunchAsync \<Rightarrow> Running statement)"

text \<open>\<open>f.wait_for(0) == std::future_status::deferred\<close>.\<close>

fun is_deferred :: "('w, 'a) future \<Rightarrow> bool" where
  "is_deferred (Deferred s) = True" | "is_deferred _ = False"

fun is_running :: "('w, 'a) future \<Rightarrow> bool" where
  "is_running (Running s) = True" | "is_running _ = False"

text \<open>\<open>f.get()\<close>: runs a deferred statement, waits for a running one.\<close>

fun future_get :: "('w, 'a) future \<Rightarrow> 'w \<Rightarrow> 'a \<times> 'w" where
  "future_get (Deferred s) w = s w"
| "future_get (Running s) w = s w"
| "future_get (Ready v) w = (v, w)"

datatype par_error =
    StatementIdExists
  | OutOfRange
  | NoSuchContext
  | CidOverflow

subsection \<open>StatementContext\<close>

record 'w StatementContext =
  int_future_id_map :: "(int, ('w, int64) future) umap"
  float_future_id_map :: "(int, ('w, double) future) umap"
  intptr_future_id_map :: "(int, ('w, address) future) umap"
  floatptr_future_id_map :: "(int, ('w, address) future) umap"
  void_future_id_map :: "(int, ('w, unit) future) umap"

definition StatementContext :: "'w StatementContext" where
  "StatementContext = \<lparr>int_future_id_map = [], float_future_id_map = [],
     intptr_future_id_map = [], floatptr_future_id_map = [], void_future_id_map = []\<rparr>"

definition addIntFuture ::
  "('w, int64) future \<Rightarrow> int \<Rightarrow> 'w StatementContext \<Rightarrow> par_error + 'w StatementContext" where
  "addIntFuture f sid sc =
     (if um_count sid (int_future_id_map sc) = 0
      then Inr (sc\<lparr>int_future_id_map := um_insert sid f (int_future_id_map sc)\<rparr>)
      else Inl StatementIdExists)"

definition addFloatFuture ::
  "('w, double) future \<Rightarrow> int \<Rightarrow> 'w StatementContext \<Rightarrow> par_error + 'w StatementContext" where
  "addFloatFuture f sid sc =
     (if um_count sid (float_future_id_map sc) = 0
      then Inr (sc\<lparr>float_future_id_map := um_insert sid f (float_future_id_map sc)\<rparr>)
      else Inl StatementIdExists)"

definition addIntptrFuture ::
  "('w, address) future \<Rightarrow> int \<Rightarrow> 'w StatementContext \<Rightarrow> par_error + 'w StatementContext" where
  "addIntptrFuture f sid sc =
     (if um_count sid (intptr_future_id_map sc) = 0
      then Inr (sc\<lparr>intptr_future_id_map := um_insert sid f (intptr_future_id_map sc)\<rparr>)
      else Inl StatementIdExists)"

definition addFloatptrFuture ::
  "('w, address) future \<Rightarrow> int \<Rightarrow> 'w StatementContext \<Rightarrow> par_error + 'w StatementContext" where
  "addFloatptrFuture f sid sc =
     (if um_count sid (floatptr_future_id_map sc) = 0
      then Inr (sc\<lparr>floatptr_future_id_map := um_insert sid f (floatptr_future_id_map sc)\<rparr>)
      else Inl StatementIdExists)"

definition addVoidFuture ::
  "('w, unit) future \<Rightarrow> int \<Rightarrow> 'w StatementContext \<Rightarrow> par_error + 'w StatementContext" where
  "addVoidFuture f sid sc =
     (if um_count sid (void_future_id_map sc) = 0
      then Inr (sc\<lparr>void_future_id_map := um_insert sid f (void_future_id_map sc)\<rparr>)
      else Inl StatementIdExists)"

definition getIntFuture ::
  "int \<Rightarrow> 'w StatementContext \<Rightarrow> par_error + (('w, int64) future \<times> 'w StatementContext)" where
  "getIntFuture sid sc =
     (case map_of (int_future_id_map sc) sid of
        None \<Rightarrow> Inl OutOfRange
      | Some f \<Rightarrow> Inr (f, sc\<lparr>int_future_id_map := um_erase sid (int_future_id_map sc)\<rparr>))"

definition getFloatFuture ::
  "int \<Rightarrow> 'w StatementContext \<Rightarrow> par_error + (('w, double) future \<times> 'w StatementContext)" where
  "getFloatFuture sid sc =
     (case map_of (float_future_id_map sc) sid of
        None \<Rightarrow> Inl OutOfRange
      | Some f \<Rightarrow> Inr (f, sc\<lparr>float_future_id_map := um_erase sid (float_future_id_map sc)\<rparr>))"

definition getIntptrFuture ::
  "int \<Rightarrow> 'w StatementContext \<Rightarrow> par_error + (('w, address) future \<times> 'w StatementContext)" where
  "getIntptrFuture sid sc =
     (case map_of (intptr_future_id_map sc) sid of
        None \<Rightarrow> Inl OutOfRange
      | Some f \<Rightarrow> Inr (f, sc\<lparr>intptr_future_id_map := um_erase sid (intptr_future_id_map sc)\<rparr>))"

definition getFloatptrFuture ::
  "int \<Rightarrow> 'w StatementContext \<Rightarrow> par_error + (('w, address) future \<times> 'w StatementContext)" where
  "getFloatptrFuture sid sc =
     (case map_of (floatptr_future_id_map sc) sid of
        None \<Rightarrow> Inl OutOfRange
      | Some f \<Rightarrow> Inr (f, sc\<lparr>floatptr_future_id_map := um_erase sid (floatptr_future_id_map sc)\<rparr>))"

definition getVoidFuture ::
  "int \<Rightarrow> 'w StatementContext \<Rightarrow> par_error + (('w, unit) future \<times> 'w StatementContext)" where
  "getVoidFuture sid sc =
     (case map_of (void_future_id_map sc) sid of
        None \<Rightarrow> Inl OutOfRange
      | Some f \<Rightarrow> Inr (f, sc\<lparr>void_future_id_map := um_erase sid (void_future_id_map sc)\<rparr>))"

subsection \<open>ParContextManager\<close>

record 'w ParContextManager =
  context_map :: "(int, 'w StatementContext) umap"
  thread_count :: int
  max_threads :: int
  next_cid :: int

text \<open>\<open>hardware_concurrency\<close> is the number of compute elements the system reports.\<close>

definition set_max_threads :: "nat \<Rightarrow> int" where
  "set_max_threads dth = (if dth < 2 then 2 else if dth > 4 then 4 else int dth)"

definition ParContextManager :: "nat \<Rightarrow> 'w ParContextManager" where
  "ParContextManager hardware_concurrency = \<lparr>context_map = [], thread_count = 0,
     max_threads = set_max_threads hardware_concurrency, next_cid = 0\<rparr>"

text \<open>The counter is an \<open>int64_t\<close>; incrementing it past its range is undefined.\<close>

definition make_context :: "'w ParContextManager \<Rightarrow> par_error + (int \<times> 'w ParContextManager)" where
  "make_context m =
     (if next_cid m = 2 ^ 63 - 1 then Inl CidOverflow
      else Inr (next_cid m, m\<lparr>next_cid := next_cid m + 1,
             context_map := um_insert (next_cid m) StatementContext (context_map m)\<rparr>))"

definition destroy_context :: "int \<Rightarrow> 'w ParContextManager \<Rightarrow> par_error + 'w ParContextManager" where
  "destroy_context cid m =
     (if um_count cid (context_map m) = 1
      then Inr (m\<lparr>context_map := um_erase cid (context_map m)\<rparr>)
      else Inl NoSuchContext)"

text \<open>\<open>context_map.at(cid) = sc\<close> for a key that is present.\<close>

definition um_replace :: "'k \<Rightarrow> 'v \<Rightarrow> ('k, 'v) umap \<Rightarrow> ('k, 'v) umap" where
  "um_replace k v m = map (\<lambda>(k', v'). if k' = k then (k', v) else (k', v')) m"

text \<open>The choice of the launch policy, shared by the five \<open>sched_*\<close> methods.\<close>

definition launch_policy :: "'w ParContextManager \<Rightarrow> launch" where
  "launch_policy m = (if thread_count m \<ge> max_threads m then LaunchDeferred else LaunchAsync)"

definition count_launch :: "'w ParContextManager \<Rightarrow> 'w ParContextManager" where
  "count_launch m =
     (if thread_count m \<ge> max_threads m then m else m\<lparr>thread_count := thread_count m + 1\<rparr>)"

definition sched_int ::
  "('w \<Rightarrow> int64 \<times> 'w) \<Rightarrow> int \<Rightarrow> int \<Rightarrow> 'w ParContextManager \<Rightarrow> par_error + 'w ParContextManager" where
  "sched_int statement sid cid m =
     (let promise = std_async (launch_policy m) statement; m = count_launch m in
      case map_of (context_map m) cid of
        None \<Rightarrow> Inl OutOfRange
      | Some sc \<Rightarrow>
          (case addIntFuture promise sid sc of
             Inl e \<Rightarrow> Inl e
           | Inr sc' \<Rightarrow> Inr (m\<lparr>context_map := um_replace cid sc' (context_map m)\<rparr>)))"

definition sched_float ::
  "('w \<Rightarrow> double \<times> 'w) \<Rightarrow> int \<Rightarrow> int \<Rightarrow> 'w ParContextManager \<Rightarrow> par_error + 'w ParContextManager" where
  "sched_float statement sid cid m =
     (let promise = std_async (launch_policy m) statement; m = count_launch m in
      case map_of (context_map m) cid of
        None \<Rightarrow> Inl OutOfRange
      | Some sc \<Rightarrow>
          (case addFloatFuture promise sid sc of
             Inl e \<Rightarrow> Inl e
           | Inr sc' \<Rightarrow> Inr (m\<lparr>context_map := um_replace cid sc' (context_map m)\<rparr>)))"

definition sched_intptr ::
  "('w \<Rightarrow> address \<times> 'w) \<Rightarrow> int \<Rightarrow> int \<Rightarrow> 'w ParContextManager \<Rightarrow> par_error + 'w ParContextManager" where
  "sched_intptr statement sid cid m =
     (let promise = std_async (launch_policy m) statement; m = count_launch m in
      case map_of (context_map m) cid of
        None \<Rightarrow> Inl OutOfRange
      | Some sc \<Rightarrow>
          (case addIntptrFuture promise sid sc of
             Inl e \<Rightarrow> Inl e
           | Inr sc' \<Rightarrow> Inr (m\<lparr>context_map := um_replace cid sc' (context_map m)\<rparr>)))"

definition sched_floatptr ::
  "('w \<Rightarrow> address \<times> 'w) \<Rightarrow> int \<Rightarrow> int \<Rightarrow> 'w ParContextManager \<Rightarrow> par_error + 'w ParContextManager" where
  "sched_floatptr statement sid cid m =
     (let promise = std_async (launch_policy m) statement; m = count_launch m in
      case map_of (context_map m) cid of
        None \<Rightarrow> Inl OutOfRange
      | Some sc \<Rightarrow>
          (case addFloatptrFuture promise sid sc of
             Inl e \<Rightarrow> Inl e
           | Inr sc' \<Rightarrow> Inr (m\<lparr>context_map := um_replace cid sc' (context_map m)\<rparr>)))"

definition sched_void ::
  "('w \<Rightarrow> unit \<times> 'w) \<Rightarrow> int \<Rightarrow> int \<Rightarrow> 'w ParContextManager \<Rightarrow> par_error + 'w ParContextManager" where
  "sched_void statement sid cid m =
     (let promise = std_async (launch_policy m) statement; m = count_launch m in
      case map_of (context_map m) cid of
        None \<Rightarrow> Inl OutOfRange
      | Some sc \<Rightarrow>
          (case addVoidFuture promise sid sc of
             Inl e \<Rightarrow> Inl e
           | Inr sc' \<Rightarrow> Inr (m\<lparr>context_map := um_replace cid sc' (context_map m)\<rparr>)))"

text \<open>
  The first critical section of \<open>recon_*\<close> moves the future out of its context. The second, after
  the value has arrived, gives the thread back unless the statement was deferred.
\<close>

definition take_int ::
  "int \<Rightarrow> int \<Rightarrow> 'w ParContextManager \<Rightarrow>
     par_error + (('w, int64) future \<times> 'w ParContextManager)" where
  "take_int sid cid m =
     (case map_of (context_map m) cid of
        None \<Rightarrow> Inl OutOfRange
      | Some sc \<Rightarrow>
          (case getIntFuture sid sc of
             Inl e \<Rightarrow> Inl e
           | Inr (fv, sc') \<Rightarrow> Inr (fv, m\<lparr>context_map := um_replace cid sc' (context_map m)\<rparr>)))"

definition take_float ::
  "int \<Rightarrow> int \<Rightarrow> 'w ParContextManager \<Rightarrow>
     par_error + (('w, double) future \<times> 'w ParContextManager)" where
  "take_float sid cid m =
     (case map_of (context_map m) cid of
        None \<Rightarrow> Inl OutOfRange
      | Some sc \<Rightarrow>
          (case getFloatFuture sid sc of
             Inl e \<Rightarrow> Inl e
           | Inr (fv, sc') \<Rightarrow> Inr (fv, m\<lparr>context_map := um_replace cid sc' (context_map m)\<rparr>)))"

definition take_intptr ::
  "int \<Rightarrow> int \<Rightarrow> 'w ParContextManager \<Rightarrow>
     par_error + (('w, address) future \<times> 'w ParContextManager)" where
  "take_intptr sid cid m =
     (case map_of (context_map m) cid of
        None \<Rightarrow> Inl OutOfRange
      | Some sc \<Rightarrow>
          (case getIntptrFuture sid sc of
             Inl e \<Rightarrow> Inl e
           | Inr (fv, sc') \<Rightarrow> Inr (fv, m\<lparr>context_map := um_replace cid sc' (context_map m)\<rparr>)))"

definition take_floatptr ::
  "int \<Rightarrow> int \<Rightarrow> 'w ParContextManager \<Rightarrow>
     par_error + (('w, address) future \<times> 'w ParContextManager)" where
  "take_floatptr sid cid m =
     (case map_of (context_map m) cid of
        None \<Rightarrow> Inl OutOfRange
      | Some sc \<Rightarrow>
          (case getFloatptrFuture sid sc of
             Inl e \<Rightarrow> Inl e
           | Inr (fv, sc') \<Rightarrow> Inr (fv, m\<lparr>context_map := um_replace cid sc' (context_map m)\<rparr>)))"

definition take_void ::
  "int \<Rightarrow> int \<Rightarrow> 'w ParContextManager \<Rightarrow>
     par_error + (('w, unit) future \<times> 'w ParContextManager)" where
  "take_void sid cid m =
     (case map_of (context_map m) cid of
        None \<Rightarrow> Inl OutOfRange
      | Some sc \<Rightarrow>
          (case getVoidFuture sid sc of
             Inl e \<Rightarrow> Inl e
           | Inr (fv, sc') \<Rightarrow> Inr (fv, m\<lparr>context_map := um_replace cid sc' (context_map m)\<rparr>)))"

definition release :: "'w ParContextManager \<Rightarrow> 'w ParContextManager" where
  "release m = m\<lparr>thread_count := thread_count m - 1\<rparr>"

definition recon_int ::
  "int64 \<Rightarrow> int \<Rightarrow> int \<Rightarrow> int \<Rightarrow> int \<Rightarrow> 'w ParContextManager \<Rightarrow> 'w \<Rightarrow>
     par_error + (int64 \<times> 'w ParContextManager \<times> 'w)" where
  "recon_int original known sid max_id cid m w =
     (case take_int sid cid m of
        Inl e \<Rightarrow> Inl e
      | Inr (fv, m) \<Rightarrow>
          (case future_get fv w of
             (v, w) \<Rightarrow> if is_deferred fv then Inr (v, m, w) else Inr (v, release m, w)))"

definition recon_float ::
  "double \<Rightarrow> int \<Rightarrow> int \<Rightarrow> int \<Rightarrow> int \<Rightarrow> 'w ParContextManager \<Rightarrow> 'w \<Rightarrow>
     par_error + (double \<times> 'w ParContextManager \<times> 'w)" where
  "recon_float original known sid max_id cid m w =
     (case take_float sid cid m of
        Inl e \<Rightarrow> Inl e
      | Inr (fv, m) \<Rightarrow>
          (case future_get fv w of
             (v, w) \<Rightarrow> if is_deferred fv then Inr (v, m, w) else Inr (v, release m, w)))"

definition recon_intptr ::
  "address \<Rightarrow> int \<Rightarrow> int \<Rightarrow> int \<Rightarrow> int \<Rightarrow> 'w ParContextManager \<Rightarrow> 'w \<Rightarrow>
     par_error + (address \<times> 'w ParContextManager \<times> 'w)" where
  "recon_intptr original known sid max_id cid m w =
     (case take_intptr sid cid m of
        Inl e \<Rightarrow> Inl e
      | Inr (fv, m) \<Rightarrow>
          (case future_get fv w of
             (v, w) \<Rightarrow> if is_deferred fv then Inr (v, m, w) else Inr (v, release m, w)))"

definition recon_floatptr ::
  "address \<Rightarrow> int \<Rightarrow> int \<Rightarrow> int \<Rightarrow> int \<Rightarrow> 'w ParContextManager \<Rightarrow> 'w \<Rightarrow>
     par_error + (address \<times> 'w ParContextManager \<times> 'w)" where
  "recon_floatptr original known sid max_id cid m w =
     (case take_floatptr sid cid m of
        Inl e \<Rightarrow> Inl e
      | Inr (fv, m) \<Rightarrow>
          (case future_get fv w of
             (v, w) \<Rightarrow> if is_deferred fv then Inr (v, m, w) else Inr (v, release m, w)))"

definition recon_void ::
  "int \<Rightarrow> int \<Rightarrow> int \<Rightarrow> 'w ParContextManager \<Rightarrow> 'w \<Rightarrow>
     par_error + (unit \<times> 'w ParContextManager \<times> 'w)" where
  "recon_void sid max_id cid m w =
     (case take_void sid cid m of
        Inl e \<Rightarrow> Inl e
      | Inr (fv, m) \<Rightarrow>
          (case future_get fv w of
             (v, w) \<Rightarrow> if is_deferred fv then Inr (v, m, w) else Inr (v, release m, w)))"

end
