(* ===== verification/Par_Futures.thy ===== *)
theory Par_Futures
  imports Par_Context
begin

section \<open>The contract of the five kinds of futures\<close>

text \<open>
  The methods of \<^verbatim>\<open>parContextManager.cpp\<close> exist five times, once per result type. The locale
  \<open>future_map\<close> states what one of the five maps of a context promises, and \<open>future_kind\<close> adds the
  manager's methods on that map. Everything about scheduling and reconciling is proved once there
  and interpreted on the definitions of each kind.
\<close>

subsection \<open>Replacing a context\<close>

lemma map_of_um_replace [simp]:
  "map_of (um_replace k v m) k' =
     (if k' = k \<and> map_of m k \<noteq> None then Some v else map_of m k')"
  by (induction m) (auto simp: um_replace_def)

lemma map_fst_um_replace [simp]: "map fst (um_replace k v m) = map fst m"
  by (induction m) (auto simp: um_replace_def)

lemma um_wf_um_replace [simp]: "um_wf (um_replace k v m) = um_wf m"
  by (simp add: um_wf_def)

lemma um_replace_twice [simp]: "um_replace k v (um_replace k u m) = um_replace k v m"
  by (induction m) (auto simp: um_replace_def)

lemma um_replace_Cons [simp]:
  "um_replace k v ((k', v') # m) = (k', if k' = k then v else v') # um_replace k v m"
  by (simp add: um_replace_def)

lemma um_erase_Cons [simp]:
  "um_erase k ((k', v') # m) = (if k' = k then um_erase k m else (k', v') # um_erase k m)"
  by (simp add: um_erase_def)

lemma um_erase_absent: "map_of m k = None \<Longrightarrow> um_erase k m = m"
  by (simp add: um_erase_def map_of_eq_None_iff filter_id_conv) force

lemma um_wf_Cons [simp]: "um_wf ((k, v) # m) \<longleftrightarrow> map_of m k = None \<and> um_wf m"
  by (simp add: um_wf_def map_of_eq_None_iff)

lemma um_replace_absent: "map_of m k = None \<Longrightarrow> um_replace k v m = m"
  by (induction m) (auto simp: um_replace_def split: if_splits)

lemma um_replace_same [simp]: "um_wf m \<Longrightarrow> map_of m k = Some v \<Longrightarrow> um_replace k v m = m"
proof (induction m)
  case (Cons p m)
  then show ?case
    by (cases p) (auto simp: um_replace_def um_wf_def image_iff intro!: map_idI split: if_splits)
qed (simp add: um_replace_def)

lemma um_erase_insert [simp]: "map_of m k = None \<Longrightarrow> um_erase k (um_insert k v m) = m"
  by (auto simp: um_erase_def um_insert_def map_of_eq_None_iff filter_id_conv)

lemma um_erase_insert_other:
  "k \<noteq> k' \<Longrightarrow> um_erase k (um_insert k' v m) = um_insert k' v (um_erase k m)"
  by (simp add: um_insert_def) (simp add: um_erase_def)

subsection \<open>Counting threads\<close>

text \<open>A future counts as a thread until it is reconciled, whether or not it has finished.\<close>

definition async_count :: "(int, ('w, 'a) future) umap \<Rightarrow> nat" where
  "async_count m = length (filter (\<lambda>p. \<not> is_deferred (snd p)) m)"

definition ctx_async :: "'w StatementContext \<Rightarrow> nat" where
  "ctx_async sc = async_count (int_future_id_map sc) + async_count (float_future_id_map sc) +
     async_count (intptr_future_id_map sc) + async_count (floatptr_future_id_map sc) +
     async_count (void_future_id_map sc)"

definition mgr_async :: "'w ParContextManager \<Rightarrow> nat" where
  "mgr_async m = sum_list (map (\<lambda>p. ctx_async (snd p)) (context_map m))"

definition ctx_wf :: "'w StatementContext \<Rightarrow> bool" where
  "ctx_wf sc \<longleftrightarrow> um_wf (int_future_id_map sc) \<and> um_wf (float_future_id_map sc) \<and>
     um_wf (intptr_future_id_map sc) \<and> um_wf (floatptr_future_id_map sc) \<and>
     um_wf (void_future_id_map sc)"

definition mgr_wf :: "'w ParContextManager \<Rightarrow> bool" where
  "mgr_wf m \<longleftrightarrow> um_wf (context_map m) \<and> (\<forall>p \<in> set (context_map m). ctx_wf (snd p)) \<and>
     (\<forall>c \<in> fst ` set (context_map m). 0 \<le> c \<and> c < next_cid m) \<and>
     2 \<le> max_threads m \<and> max_threads m \<le> 4 \<and>
     0 \<le> next_cid m \<and> next_cid m < 2 ^ 63"

definition weight :: "('w, 'a) future \<Rightarrow> nat" where
  "weight f = (if is_deferred f then 0 else 1)"

lemma async_count_Nil [simp]: "async_count [] = 0"
  by (simp add: async_count_def)

lemma async_count_insert [simp]:
  "map_of m k = None \<Longrightarrow> async_count (um_insert k f m) = async_count m + weight f"
  by (simp add: async_count_def um_insert_def weight_def)

lemma async_count_Cons [simp]: "async_count ((k, f) # m) = weight f + async_count m"
  by (simp add: async_count_def weight_def)

lemma async_count_erase:
  "um_wf m \<Longrightarrow> map_of m k = Some f \<Longrightarrow> async_count (um_erase k m) + weight f = async_count m"
  by (induction m) (auto simp: um_erase_absent split: if_splits)

lemma sum_list_um_replace:
  "um_wf m \<Longrightarrow> map_of m k = Some v \<Longrightarrow>
     sum_list (map (\<lambda>p. g (snd p)) (um_replace k u m)) + g v =
     sum_list (map (\<lambda>p. g (snd p)) m) + (g u :: nat)"
  by (induction m) (auto simp: um_replace_absent split: if_splits)

lemma mgr_async_replace:
  assumes "um_wf (context_map m)" and "map_of (context_map m) cid = Some sc"
  shows "mgr_async (m\<lparr>context_map := um_replace cid sc' (context_map m)\<rparr>) + ctx_async sc =
         mgr_async m + ctx_async sc'"
  using sum_list_um_replace [OF assms, of ctx_async sc'] by (simp add: mgr_async_def)

lemma mgr_wf_ctx: "mgr_wf m \<Longrightarrow> map_of (context_map m) cid = Some sc \<Longrightarrow> ctx_wf sc"
  by (force simp: mgr_wf_def dest: map_of_SomeD)

lemma set_um_replace: "set (um_replace k v m) \<subseteq> insert (k, v) (set m)"
  by (auto simp: um_replace_def split: if_splits)

lemma mgr_wf_replace:
  assumes "mgr_wf m" and "ctx_wf sc'"
  shows "mgr_wf (m\<lparr>context_map := um_replace cid sc' (context_map m)\<rparr>)"
proof -
  have "fst ` set (um_replace cid sc' (context_map m)) = fst ` set (context_map m)"
    by (metis list.set_map map_fst_um_replace)
  then show ?thesis
    using assms set_um_replace [of cid sc' "context_map m"] by (auto simp: mgr_wf_def)
qed

lemma count_launch_simps [simp]:
  "context_map (count_launch m) = context_map m"
  "max_threads (count_launch m) = max_threads m"
  "next_cid (count_launch m) = next_cid m"
  "thread_count (count_launch m) =
     thread_count m + (if thread_count m < max_threads m then 1 else 0)"
  by (auto simp: count_launch_def)

lemma release_simps [simp]:
  "context_map (release m) = context_map m"
  "max_threads (release m) = max_threads m"
  "next_cid (release m) = next_cid m"
  "thread_count (release m) = thread_count m - 1"
  by (simp_all add: release_def)

lemma launch_release [simp]:
  "thread_count m < max_threads m \<Longrightarrow> release (count_launch m) = m"
  "\<not> thread_count m < max_threads m \<Longrightarrow> count_launch m = m"
  by (simp_all add: release_def count_launch_def)

lemma is_deferred_async [simp]:
  "is_deferred (std_async (launch_policy m) s) \<longleftrightarrow> \<not> thread_count m < max_threads m"
  by (simp add: std_async_def launch_policy_def)

lemma future_get_async [simp]: "future_get (std_async p s) w = s w"
  by (cases p) (simp_all add: std_async_def)

lemma mgr_wf_threads [simp]:
  "mgr_wf (count_launch m) = mgr_wf m"
  "mgr_wf (release m) = mgr_wf m"
  by (simp_all add: mgr_wf_def)

lemma mgr_async_threads [simp]:
  "mgr_async (count_launch m) = mgr_async m"
  "mgr_async (release m) = mgr_async m"
  by (simp_all add: mgr_async_def)

subsection \<open>Groups of statements\<close>

text \<open>
  What the compiled code does with a group: schedule the statements under the ids
  \<open>i, i + 1, \<dots>\<close> of one context, and later reconcile the same ids in the same order.
\<close>

fun sched_all ::
  "('s \<Rightarrow> int \<Rightarrow> int \<Rightarrow> 'm \<Rightarrow> 'e + 'm) \<Rightarrow> int \<Rightarrow> 's list \<Rightarrow> int \<Rightarrow> 'm \<Rightarrow> 'e + 'm" where
  "sched_all sched i [] cid m = Inr m"
| "sched_all sched i (s # ss) cid m =
     (case sched s i cid m of Inl e \<Rightarrow> Inl e | Inr m' \<Rightarrow> sched_all sched (i + 1) ss cid m')"

fun recon_all ::
  "(int \<Rightarrow> int \<Rightarrow> 'm \<Rightarrow> 'w \<Rightarrow> 'e + ('a \<times> 'm \<times> 'w)) \<Rightarrow> int \<Rightarrow> nat \<Rightarrow> int \<Rightarrow> 'm \<Rightarrow> 'w \<Rightarrow>
     'e + ('a list \<times> 'm \<times> 'w)" where
  "recon_all recon i 0 cid m w = Inr ([], m, w)"
| "recon_all recon i (Suc n) cid m w =
     (case recon i cid m w of
        Inl e \<Rightarrow> Inl e
      | Inr (v, m', w') \<Rightarrow>
          (case recon_all recon (i + 1) n cid m' w' of
             Inl e \<Rightarrow> Inl e
           | Inr (vs, m'', w'') \<Rightarrow> Inr (v # vs, m'', w'')))"

text \<open>The sequential meaning of the group: one statement after the other.\<close>

fun run_seq :: "('w \<Rightarrow> 'a \<times> 'w) list \<Rightarrow> 'w \<Rightarrow> 'a list \<times> 'w" where
  "run_seq [] w = ([], w)"
| "run_seq (s # ss) w = (let (v, w') = s w; (vs, w'') = run_seq ss w' in (v # vs, w''))"

subsection \<open>One map of a context\<close>

locale future_map =
  fixes sel :: "'w StatementContext \<Rightarrow> (int, ('w, 'a) future) umap"
    and upd :: "((int, ('w, 'a) future) umap \<Rightarrow> (int, ('w, 'a) future) umap) \<Rightarrow>
                'w StatementContext \<Rightarrow> 'w StatementContext"
    and add :: "('w, 'a) future \<Rightarrow> int \<Rightarrow> 'w StatementContext \<Rightarrow> par_error + 'w StatementContext"
    and get :: "int \<Rightarrow> 'w StatementContext \<Rightarrow> par_error + (('w, 'a) future \<times> 'w StatementContext)"
  assumes sel_upd: "sel (upd h sc) = h (sel sc)"
    and upd_upd: "upd h (upd g sc) = upd (\<lambda>x. h (g x)) sc"
    and upd_id: "upd (\<lambda>x. x) sc = sc"
    and upd_cong: "h (sel sc) = g (sel sc) \<Longrightarrow> upd h sc = upd g sc"
    and add_new: "map_of (sel sc) i = None \<Longrightarrow> add fu i sc = Inr (upd (um_insert i fu) sc)"
    and add_dup: "map_of (sel sc) i = Some fu' \<Longrightarrow> add fu i sc = Inl StatementIdExists"
    and get_hit: "map_of (sel sc) i = Some fu \<Longrightarrow> get i sc = Inr (fu, upd (um_erase i) sc)"
    and get_miss: "map_of (sel sc) i = None \<Longrightarrow> get i sc = Inl OutOfRange"
    and async_upd:
      "ctx_async (upd h sc) + async_count (sel sc) = ctx_async sc + async_count (h (sel sc))"
    and wf_sel: "ctx_wf sc \<Longrightarrow> um_wf (sel sc)"
    and wf_upd: "ctx_wf sc \<Longrightarrow> um_wf (h (sel sc)) \<Longrightarrow> ctx_wf (upd h sc)"
    and sel_empty: "sel StatementContext = []"
begin

lemma add_cases:
  assumes "add fu i sc = Inr sc'"
  shows "map_of (sel sc) i = None" and "sc' = upd (um_insert i fu) sc"
  using assms by (cases "map_of (sel sc) i"; auto simp: add_new add_dup)+

lemma get_cases:
  assumes "get i sc = Inr (fu, sc')"
  shows "map_of (sel sc) i = Some fu" and "sc' = upd (um_erase i) sc"
  using assms by (cases "map_of (sel sc) i"; auto simp: get_hit get_miss)+

lemma get_after_add:
  assumes "add fu i sc = Inr sc'"
  shows "get i sc' = Inr (fu, sc)"
proof -
  note new = add_cases [OF assms]
  have "upd (um_erase i) sc' = sc"
    using new upd_cong [of "\<lambda>x. um_erase i (um_insert i fu x)" sc "\<lambda>x. x"]
    by (simp add: upd_upd upd_id)
  with new show ?thesis by (simp add: get_hit sel_upd)
qed

lemma get_add_commute:
  assumes "i \<noteq> j" and "add fu j sc = Inr sc'" and "get i sc = Inr (fu', sc1)"
  shows "\<exists>sc2. get i sc' = Inr (fu', sc2) \<and> add fu j sc1 = Inr sc2"
proof -
  note a = add_cases [OF assms(2)] and g = get_cases [OF assms(3)]
  have "upd (um_erase i) (upd (um_insert j fu) sc) = upd (um_insert j fu) (upd (um_erase i) sc)"
    unfolding upd_upd using assms(1) by (intro upd_cong) (simp add: um_erase_insert_other)
  then show ?thesis
    using assms(1) a g by (simp add: get_hit add_new sel_upd)
qed

lemma add_async:
  assumes "add fu i sc = Inr sc'" shows "ctx_async sc' = ctx_async sc + weight fu"
  using add_cases [OF assms] async_upd [of "um_insert i fu" sc] by simp

lemma get_async:
  assumes "get i sc = Inr (fu, sc')" and "ctx_wf sc"
  shows "ctx_async sc = ctx_async sc' + weight fu"
  using get_cases [OF assms(1)] async_upd [of "um_erase i" sc] wf_sel [OF assms(2)]
    async_count_erase [of "sel sc" i fu] by simp

lemma add_wf: "add fu i sc = Inr sc' \<Longrightarrow> ctx_wf sc \<Longrightarrow> ctx_wf sc'"
  by (auto dest!: add_cases intro!: wf_upd um_wf_insert wf_sel)

lemma get_wf: "get i sc = Inr (fu, sc') \<Longrightarrow> ctx_wf sc \<Longrightarrow> ctx_wf sc'"
  by (auto dest!: get_cases intro!: wf_upd um_wf_erase wf_sel)

end

subsection \<open>The manager's methods on one map\<close>

locale future_kind = future_map sel upd add get
  for sel :: "'w StatementContext \<Rightarrow> (int, ('w, 'a) future) umap"
    and upd :: "((int, ('w, 'a) future) umap \<Rightarrow> (int, ('w, 'a) future) umap) \<Rightarrow>
                'w StatementContext \<Rightarrow> 'w StatementContext"
    and add :: "('w, 'a) future \<Rightarrow> int \<Rightarrow> 'w StatementContext \<Rightarrow> par_error + 'w StatementContext"
    and get :: "int \<Rightarrow> 'w StatementContext \<Rightarrow> par_error + (('w, 'a) future \<times> 'w StatementContext)" +
  fixes sched :: "('w \<Rightarrow> 'a \<times> 'w) \<Rightarrow> int \<Rightarrow> int \<Rightarrow> 'w ParContextManager \<Rightarrow>
                  par_error + 'w ParContextManager"
    and tk :: "int \<Rightarrow> int \<Rightarrow> 'w ParContextManager \<Rightarrow>
                 par_error + (('w, 'a) future \<times> 'w ParContextManager)"
    and recon :: "'p \<Rightarrow> int \<Rightarrow> int \<Rightarrow> 'w ParContextManager \<Rightarrow> 'w \<Rightarrow>
                  par_error + ('a \<times> 'w ParContextManager \<times> 'w)"
  assumes sched_no_context: "map_of (context_map m) cid = None \<Longrightarrow> sched s i cid m = Inl OutOfRange"
    and sched_context: "map_of (context_map m) cid = Some sc \<Longrightarrow> sched s i cid m =
          map_sum id (\<lambda>sc'. (count_launch m)\<lparr>context_map := um_replace cid sc' (context_map m)\<rparr>)
            (add (std_async (launch_policy m) s) i sc)"
    and take_no_context: "map_of (context_map m) cid = None \<Longrightarrow> tk i cid m = Inl OutOfRange"
    and take_context: "map_of (context_map m) cid = Some sc \<Longrightarrow> tk i cid m =
          map_sum id (\<lambda>(f, sc'). (f, m\<lparr>context_map := um_replace cid sc' (context_map m)\<rparr>))
            (get i sc)"
    and recon_eq: "recon p i cid m w =
          (case tk i cid m of
             Inl e \<Rightarrow> Inl e
           | Inr (f, m1) \<Rightarrow>
               (case future_get f w of
                  (v, w') \<Rightarrow> Inr (v, if is_deferred f then m1 else release m1, w')))"
begin

lemma sched_cases:
  assumes "sched s i cid m = Inr m'"
  obtains sc sc' where "map_of (context_map m) cid = Some sc"
    and "add (std_async (launch_policy m) s) i sc = Inr sc'"
    and "m' = (count_launch m)\<lparr>context_map := um_replace cid sc' (context_map m)\<rparr>"
proof (cases "map_of (context_map m) cid")
  case (Some sc)
  with assms that show ?thesis
    by (cases "add (std_async (launch_policy m) s) i sc") (auto simp: sched_context)
qed (use assms in \<open>simp add: sched_no_context\<close>)

lemma take_cases:
  assumes "tk i cid m = Inr (f, m')"
  obtains sc sc' where "map_of (context_map m) cid = Some sc" and "get i sc = Inr (f, sc')"
    and "m' = m\<lparr>context_map := um_replace cid sc' (context_map m)\<rparr>"
proof (cases "map_of (context_map m) cid")
  case (Some sc)
  with assms that show ?thesis
    by (cases "get i sc") (auto simp: take_context)
qed (use assms in \<open>simp add: take_no_context\<close>)

lemma take_after_sched:
  assumes "um_wf (context_map m)" and "sched s i cid m = Inr m'"
  shows "tk i cid m' = Inr (std_async (launch_policy m) s, count_launch m)"
  using assms(2)
proof (cases rule: sched_cases)
  case (1 sc sc')
  then have "get i sc' = Inr (std_async (launch_policy m) s, sc)"
    by (intro get_after_add)
  with 1 assms(1) show ?thesis
    by (subst take_context [of _ _ sc']) simp_all
qed

lemma recon_after_sched:
  assumes "um_wf (context_map m)" and "sched s i cid m = Inr m'"
  shows "recon p i cid m' w = Inr (fst (s w), m, snd (s w))"
  using take_after_sched [OF assms] by (simp add: recon_eq split: prod.split)

lemma sched_duplicate:
  assumes "sched s i cid m = Inr m'"
  shows "sched s' i cid m' = Inl StatementIdExists"
  using assms
proof (cases rule: sched_cases)
  case (1 sc sc')
  then show ?thesis
    using add_cases [OF 1(2)] by (simp add: sched_context [of _ _ sc'] sel_upd add_dup)
qed

lemma recon_missing:
  assumes "map_of (context_map m) cid = Some sc" and "map_of (sel sc) i = None"
  shows "recon p i cid m w = Inl OutOfRange"
  using assms by (simp add: recon_eq take_context [of _ _ sc] get_miss)

lemma recon_no_context: "map_of (context_map m) cid = None \<Longrightarrow> recon p i cid m w = Inl OutOfRange"
  by (simp add: recon_eq take_no_context)

lemma sched_succeeds:
  assumes "map_of (context_map m) cid = Some sc" and "map_of (sel sc) i = None"
  shows "\<exists>m'. sched s i cid m = Inr m'"
  using assms by (simp add: sched_context add_new)

lemma sched_wf: "sched s i cid m = Inr m' \<Longrightarrow> mgr_wf m \<Longrightarrow> mgr_wf m'"
  by (erule sched_cases) (auto dest: mgr_wf_ctx intro: mgr_wf_replace [of "count_launch m" for m, simplified] add_wf)

lemma take_wf: "tk i cid m = Inr (f, m') \<Longrightarrow> mgr_wf m \<Longrightarrow> mgr_wf m'"
  by (erule take_cases) (auto dest: mgr_wf_ctx intro: mgr_wf_replace get_wf)

lemma sched_async:
  assumes "sched s i cid m = Inr m'" and "mgr_wf m"
  shows "mgr_async m' = mgr_async m + weight (std_async (launch_policy m) s)"
  using assms(1)
proof (cases rule: sched_cases)
  case (1 sc sc')
  then show ?thesis
    using mgr_async_replace [of "count_launch m" cid sc sc'] add_async [OF 1(2)] assms(2)
    by (simp add: mgr_wf_def)
qed

lemma take_async:
  assumes "tk i cid m = Inr (f, m')" and "mgr_wf m"
  shows "mgr_async m = mgr_async m' + weight f"
  using assms(1)
proof (cases rule: take_cases)
  case (1 sc sc')
  then show ?thesis
    using mgr_async_replace [of m cid sc sc'] get_async [OF 1(2)] mgr_wf_ctx [OF assms(2) 1(1)] assms(2)
    by (simp add: mgr_wf_def)
qed

lemma sched_threads:
  "sched s i cid m = Inr m' \<Longrightarrow> thread_count m' = thread_count (count_launch m) \<and>
     max_threads m' = max_threads m \<and> next_cid m' = next_cid m"
  by (erule sched_cases) simp

lemma take_threads:
  "tk i cid m = Inr (f, m') \<Longrightarrow> thread_count m' = thread_count m \<and>
     max_threads m' = max_threads m \<and> next_cid m' = next_cid m"
  by (erule take_cases) simp

lemma take_sched_commute:
  assumes "um_wf (context_map m)" and "i \<noteq> j" and "sched s j cid m = Inr m'"
    and "tk i cid m = Inr (f, m1)"
  shows "\<exists>m2. tk i cid m' = Inr (f, m2) \<and> sched s j cid m1 = Inr m2"
  using assms(3)
proof (cases rule: sched_cases)
  case (1 sc sc')
  with assms(4) obtain sc1 where get: "get i sc = Inr (f, sc1)"
    and m1: "m1 = m\<lparr>context_map := um_replace cid sc1 (context_map m)\<rparr>"
    by (auto elim: take_cases)
  obtain sc2 where "get i sc' = Inr (f, sc2)"
    and "add (std_async (launch_policy m) s) j sc1 = Inr sc2"
    using get_add_commute [OF assms(2) 1(2) get] by blast
  moreover have "launch_policy m1 = launch_policy m"
    by (simp add: m1 launch_policy_def)
  ultimately show ?thesis
    using 1 by (simp add: m1 take_context [of _ _ sc'] sched_context [of _ _ sc1] count_launch_def)
qed

lemma take_sched_all_commute:
  assumes "um_wf (context_map m)" and "i < j" and "sched_all sched j ss cid m = Inr m'"
    and "tk i cid m = Inr (f, m1)"
  shows "\<exists>m2. tk i cid m' = Inr (f, m2) \<and> sched_all sched j ss cid m1 = Inr m2"
  using assms
proof (induction ss arbitrary: j m m1)
  case (Cons s ss)
  then obtain m3 where s: "sched s j cid m = Inr m3"
    and ss: "sched_all sched (j + 1) ss cid m3 = Inr m'"
    by (auto split: sum.splits)
  obtain m4 where m4: "tk i cid m3 = Inr (f, m4)" and "sched s j cid m1 = Inr m4"
    using take_sched_commute [OF Cons.prems(1) _ s Cons.prems(4)] Cons.prems(2) by auto
  moreover have "um_wf (context_map m3)"
    using s Cons.prems(1) by (auto elim: sched_cases)
  ultimately show ?case
    using Cons.IH [OF _ _ ss m4] Cons.prems(2) by simp
qed simp

lemma recon_release:
  assumes "recon p i cid m w = Inr (v, m', w')"
  shows "recon p i cid (release m) w = Inr (v, release m', w')"
proof -
  obtain f m1 where t: "tk i cid m = Inr (f, m1)"
    using assms by (auto simp: recon_eq split: sum.splits)
  then have "tk i cid (release m) = Inr (f, release m1)"
    by (elim take_cases) (simp add: take_context release_def)
  then show ?thesis
    using assms t by (auto simp: recon_eq split: prod.splits)
qed

lemma recon_all_release:
  "recon_all (recon p) i n cid m w = Inr (vs, m', w') \<Longrightarrow>
   recon_all (recon p) i n cid (release m) w = Inr (vs, release m', w')"
  by (induction n arbitrary: i m w vs) (auto simp: recon_release split: sum.splits)

lemma recon_all_after_sched_all:
  assumes "um_wf (context_map m)" and "sched_all sched i ss cid m = Inr m'"
  shows "recon_all (recon p) i (length ss) cid m' w =
           Inr (fst (run_seq ss w), m, snd (run_seq ss w))"
  using assms
proof (induction ss arbitrary: i m m' w)
  case (Cons s ss)
  then obtain m1 where s: "sched s i cid m = Inr m1"
    and ss: "sched_all sched (i + 1) ss cid m1 = Inr m'"
    by (auto split: sum.splits)
  have "um_wf (context_map m1)"
    using s Cons.prems(1) by (auto elim: sched_cases)
  then obtain m2 where m2: "tk i cid m' = Inr (std_async (launch_policy m) s, m2)"
      "sched_all sched (i + 1) ss cid (count_launch m) = Inr m2"
    using take_sched_all_commute [OF _ _ ss take_after_sched [OF Cons.prems(1) s]] by auto
  have IH: "recon_all (recon p) (i + 1) (length ss) cid m2 (snd (s w)) =
      Inr (fst (run_seq ss (snd (s w))), count_launch m, snd (run_seq ss (snd (s w))))"
    using Cons.IH [OF _ m2(2)] Cons.prems(1) by simp
  have "recon p i cid m' w =
      Inr (fst (s w), if thread_count m < max_threads m then release m2 else m2, snd (s w))"
    using m2(1) by (simp add: recon_eq split: prod.split)
  then show ?case
    using IH recon_all_release [OF IH] by (simp add: split_beta Let_def)
qed simp

lemma sched_all_succeeds:
  assumes "map_of (context_map m) cid = Some sc" and "\<forall>j\<ge>i. map_of (sel sc) j = None"
  shows "\<exists>m'. sched_all sched i ss cid m = Inr m'"
  using assms
proof (induction ss arbitrary: i m sc)
  case (Cons s ss)
  obtain m1 where s: "sched s i cid m = Inr m1"
    using sched_succeeds [OF Cons.prems(1), of i] Cons.prems(2) by auto
  then obtain sc1 where "map_of (context_map m1) cid = Some sc1"
      "add (std_async (launch_policy m) s) i sc = Inr sc1"
    using Cons.prems(1) by (auto elim: sched_cases)
  then show ?case
    using Cons.IH [of m1 sc1 "i + 1"] Cons.prems(2) s
    by (auto dest!: add_cases simp: sel_upd)
qed simp

end

subsection \<open>The five kinds\<close>

text \<open>Each kind's definitions satisfy the contract.\<close>


interpretation intk: future_kind int_future_id_map int_future_id_map_update
  addIntFuture getIntFuture sched_int take_int "\<lambda>(orig, known, mx) i cid. recon_int orig known i mx cid"
  by unfold_locales
    (auto simp: addIntFuture_def getIntFuture_def sched_int_def take_int_def recon_int_def
       StatementContext_def ctx_async_def ctx_wf_def Let_def split: sum.splits prod.splits)

interpretation floatk: future_kind float_future_id_map float_future_id_map_update
  addFloatFuture getFloatFuture sched_float take_float "\<lambda>(orig, known, mx) i cid. recon_float orig known i mx cid"
  by unfold_locales
    (auto simp: addFloatFuture_def getFloatFuture_def sched_float_def take_float_def recon_float_def
       StatementContext_def ctx_async_def ctx_wf_def Let_def split: sum.splits prod.splits)

interpretation intptrk: future_kind intptr_future_id_map intptr_future_id_map_update
  addIntptrFuture getIntptrFuture sched_intptr take_intptr "\<lambda>(orig, known, mx) i cid. recon_intptr orig known i mx cid"
  by unfold_locales
    (auto simp: addIntptrFuture_def getIntptrFuture_def sched_intptr_def take_intptr_def recon_intptr_def
       StatementContext_def ctx_async_def ctx_wf_def Let_def split: sum.splits prod.splits)

interpretation floatptrk: future_kind floatptr_future_id_map floatptr_future_id_map_update
  addFloatptrFuture getFloatptrFuture sched_floatptr take_floatptr "\<lambda>(orig, known, mx) i cid. recon_floatptr orig known i mx cid"
  by unfold_locales
    (auto simp: addFloatptrFuture_def getFloatptrFuture_def sched_floatptr_def take_floatptr_def recon_floatptr_def
       StatementContext_def ctx_async_def ctx_wf_def Let_def split: sum.splits prod.splits)

interpretation voidk: future_kind void_future_id_map void_future_id_map_update
  addVoidFuture getVoidFuture sched_void take_void "\<lambda>mx i cid. recon_void i mx cid"
  by unfold_locales
    (auto simp: addVoidFuture_def getVoidFuture_def sched_void_def take_void_def recon_void_def
       StatementContext_def ctx_async_def ctx_wf_def Let_def split: sum.splits prod.splits)

end

