(* ===== verification/Par_System.thy ===== *)
theory Par_System
  imports Par_Futures
begin

section \<open>The runtime under interleaving (parContextManager.cpp, lib.cpp)\<close>

text \<open>
  The functions of \<^verbatim>\<open>lib.cpp\<close> that compiled code calls, and the system they run in: threads that
  finish whenever they like, and any number of reconciliations in progress, each between its two
  critical sections. A step is one critical section, one statement run to its end, or one
  return of \<open>future::get\<close>.
\<close>

subsection \<open>The library's entry points\<close>

text \<open>
  A scheduled function is called with its environment; the casts of the wrappers choose the
  result type.
\<close>

definition fork_sched_int ::
  "('e \<Rightarrow> 'w \<Rightarrow> int64 \<times> 'w) \<Rightarrow> 'e \<Rightarrow> int \<Rightarrow> int \<Rightarrow> 'w ParContextManager \<Rightarrow>
     par_error + 'w ParContextManager" where
  "fork_sched_int func env sid cid m = sched_int (func env) sid cid m"

definition fork_sched_float ::
  "('e \<Rightarrow> 'w \<Rightarrow> double \<times> 'w) \<Rightarrow> 'e \<Rightarrow> int \<Rightarrow> int \<Rightarrow> 'w ParContextManager \<Rightarrow>
     par_error + 'w ParContextManager" where
  "fork_sched_float func env sid cid m = sched_float (func env) sid cid m"

definition fork_sched_intptr ::
  "('e \<Rightarrow> 'w \<Rightarrow> address \<times> 'w) \<Rightarrow> 'e \<Rightarrow> int \<Rightarrow> int \<Rightarrow> 'w ParContextManager \<Rightarrow>
     par_error + 'w ParContextManager" where
  "fork_sched_intptr func env sid cid m = sched_intptr (func env) sid cid m"

definition fork_sched_floatptr ::
  "('e \<Rightarrow> 'w \<Rightarrow> address \<times> 'w) \<Rightarrow> 'e \<Rightarrow> int \<Rightarrow> int \<Rightarrow> 'w ParContextManager \<Rightarrow>
     par_error + 'w ParContextManager" where
  "fork_sched_floatptr func env sid cid m = sched_floatptr (func env) sid cid m"

definition fork_sched_void ::
  "('e \<Rightarrow> 'w \<Rightarrow> unit \<times> 'w) \<Rightarrow> 'e \<Rightarrow> int \<Rightarrow> int \<Rightarrow> 'w ParContextManager \<Rightarrow>
     par_error + 'w ParContextManager" where
  "fork_sched_void func env sid cid m = sched_void (func env) sid cid m"

subsection \<open>Tasks and values of any kind\<close>

datatype kind = KInt | KFloat | KIntptr | KFloatptr | KVoid

datatype val = VInt int64 | VFloat double | VIntptr address | VFloatptr address | VVoid

datatype 'w task =
    TInt "'w \<Rightarrow> int64 \<times> 'w"
  | TFloat "'w \<Rightarrow> double \<times> 'w"
  | TIntptr "'w \<Rightarrow> address \<times> 'w"
  | TFloatptr "'w \<Rightarrow> address \<times> 'w"
  | TVoid "'w \<Rightarrow> unit \<times> 'w"

fun task_kind :: "'w task \<Rightarrow> kind" where
  "task_kind (TInt s) = KInt"
| "task_kind (TFloat s) = KFloat"
| "task_kind (TIntptr s) = KIntptr"
| "task_kind (TFloatptr s) = KFloatptr"
| "task_kind (TVoid s) = KVoid"

fun task_run :: "'w task \<Rightarrow> 'w \<Rightarrow> val \<times> 'w" where
  "task_run (TInt s) w = apfst VInt (s w)"
| "task_run (TFloat s) w = apfst VFloat (s w)"
| "task_run (TIntptr s) w = apfst VIntptr (s w)"
| "task_run (TFloatptr s) w = apfst VFloatptr (s w)"
| "task_run (TVoid s) w = apfst (\<lambda>_. VVoid) (s w)"

fun sched :: "'w task \<Rightarrow> int \<Rightarrow> int \<Rightarrow> 'w ParContextManager \<Rightarrow> par_error + 'w ParContextManager" where
  "sched (TInt s) i cid m = sched_int s i cid m"
| "sched (TFloat s) i cid m = sched_float s i cid m"
| "sched (TIntptr s) i cid m = sched_intptr s i cid m"
| "sched (TFloatptr s) i cid m = sched_floatptr s i cid m"
| "sched (TVoid s) i cid m = sched_void s i cid m"

definition tag :: "('a \<Rightarrow> val) \<Rightarrow> par_error + (('w, 'a) future \<times> 'w ParContextManager) \<Rightarrow>
    par_error + (('w, val) future \<times> 'w ParContextManager)" where
  "tag c r = map_sum (\<lambda>e. e) (\<lambda>(f, m). (map_future c f, m)) r"

fun take_future :: "kind \<Rightarrow> int \<Rightarrow> int \<Rightarrow> 'w ParContextManager \<Rightarrow>
    par_error + (('w, val) future \<times> 'w ParContextManager)" where
  "take_future KInt i cid m = tag VInt (take_int i cid m)"
| "take_future KFloat i cid m = tag VFloat (take_float i cid m)"
| "take_future KIntptr i cid m = tag VIntptr (take_intptr i cid m)"
| "take_future KFloatptr i cid m = tag VFloatptr (take_floatptr i cid m)"
| "take_future KVoid i cid m = tag (\<lambda>_. VVoid) (take_void i cid m)"

text \<open>
  A thread finishes: its statement runs and the future becomes ready.
\<close>

definition finish_map ::
  "int \<Rightarrow> (int, ('w, 'a) future) umap \<Rightarrow> 'w \<Rightarrow> ((int, ('w, 'a) future) umap \<times> 'w) option" where
  "finish_map i fm w =
     (case map_of fm i of
        Some (Running s) \<Rightarrow> (case s w of (v, w') \<Rightarrow> Some (um_replace i (Ready v) fm, w'))
      | _ \<Rightarrow> None)"

fun finish_ctx ::
  "kind \<Rightarrow> int \<Rightarrow> 'w StatementContext \<Rightarrow> 'w \<Rightarrow> ('w StatementContext \<times> 'w) option" where
  "finish_ctx KInt i sc w = map_option (\<lambda>(fm, w'). (sc\<lparr>int_future_id_map := fm\<rparr>, w'))
     (finish_map i (int_future_id_map sc) w)"
| "finish_ctx KFloat i sc w = map_option (\<lambda>(fm, w'). (sc\<lparr>float_future_id_map := fm\<rparr>, w'))
     (finish_map i (float_future_id_map sc) w)"
| "finish_ctx KIntptr i sc w = map_option (\<lambda>(fm, w'). (sc\<lparr>intptr_future_id_map := fm\<rparr>, w'))
     (finish_map i (intptr_future_id_map sc) w)"
| "finish_ctx KFloatptr i sc w = map_option (\<lambda>(fm, w'). (sc\<lparr>floatptr_future_id_map := fm\<rparr>, w'))
     (finish_map i (floatptr_future_id_map sc) w)"
| "finish_ctx KVoid i sc w = map_option (\<lambda>(fm, w'). (sc\<lparr>void_future_id_map := fm\<rparr>, w'))
     (finish_map i (void_future_id_map sc) w)"

definition finish_thread ::
  "kind \<Rightarrow> int \<Rightarrow> int \<Rightarrow> 'w ParContextManager \<Rightarrow> 'w \<Rightarrow> ('w ParContextManager \<times> 'w) option" where
  "finish_thread k i cid m w = do {
     sc \<leftarrow> map_of (context_map m) cid;
     (sc', w') \<leftarrow> finish_ctx k i sc w;
     Some (m\<lparr>context_map := um_replace cid sc' (context_map m)\<rparr>, w')
   }"

definition ctx_running :: "'w StatementContext \<Rightarrow> bool" where
  "ctx_running sc \<longleftrightarrow>
     (\<exists>p \<in> set (int_future_id_map sc). is_running (snd p)) \<or>
     (\<exists>p \<in> set (float_future_id_map sc). is_running (snd p)) \<or>
     (\<exists>p \<in> set (intptr_future_id_map sc). is_running (snd p)) \<or>
     (\<exists>p \<in> set (floatptr_future_id_map sc). is_running (snd p)) \<or>
     (\<exists>p \<in> set (void_future_id_map sc). is_running (snd p))"

subsection \<open>The system\<close>

text \<open>
  \<open>taken\<close> are the futures of reconciliations between their critical sections, \<open>pending\<close> counts
  those that have their value and have not yet given back their thread, \<open>leaked\<close> counts threads
  whose future was destroyed with its context, \<open>results\<close> collects the values in the order in
  which \<open>get\<close> returned them.
\<close>

record 'w sys =
  mgr :: "'w ParContextManager"
  mem :: 'w
  taken :: "('w, val) future list"
  pending :: nat
  leaked :: nat
  results :: "val list"

definition sys_init :: "nat \<Rightarrow> 'w \<Rightarrow> 'w sys" where
  "sys_init dth w = \<lparr>mgr = ParContextManager dth, mem = w, taken = [], pending = 0,
     leaked = 0, results = []\<rparr>"

datatype 'w event =
    EMake int
  | ESched "'w task" int int
  | EFinish kind int int
  | ETake kind int int
  | EFinishTaken nat
  | EGet nat val
  | ERelease
  | EDestroy int

text \<open>
  \<open>destroy_context\<close> destroys the context's futures, and the destructor of a future made by
  \<open>std::async\<close> waits for its thread: the step needs that none is running.
\<close>

inductive par_step :: "'w sys \<Rightarrow> 'w event \<Rightarrow> 'w sys \<Rightarrow> bool" where
  make: "make_context (mgr s) = Inr (cid, m) \<Longrightarrow> par_step s (EMake cid) (s\<lparr>mgr := m\<rparr>)"
| sched: "sched t i cid (mgr s) = Inr m \<Longrightarrow> par_step s (ESched t i cid) (s\<lparr>mgr := m\<rparr>)"
| finish: "finish_thread k i cid (mgr s) (mem s) = Some (m, w) \<Longrightarrow>
     par_step s (EFinish k i cid) (s\<lparr>mgr := m, mem := w\<rparr>)"
| take: "take_future k i cid (mgr s) = Inr (f, m) \<Longrightarrow>
     par_step s (ETake k i cid) (s\<lparr>mgr := m, taken := f # taken s\<rparr>)"
| finish_taken: "n < length (taken s) \<Longrightarrow> taken s ! n = Running c \<Longrightarrow> c (mem s) = (v, w) \<Longrightarrow>
     par_step s (EFinishTaken n) (s\<lparr>taken := (taken s)[n := Ready v], mem := w\<rparr>)"
| get: "n < length (taken s) \<Longrightarrow> \<not> is_running (taken s ! n) \<Longrightarrow>
     future_get (taken s ! n) (mem s) = (v, w) \<Longrightarrow>
     par_step s (EGet n v) (s\<lparr>mem := w, results := results s @ [v],
       taken := take n (taken s) @ drop (Suc n) (taken s),
       pending := pending s + weight (taken s ! n)\<rparr>)"
| release: "0 < pending s \<Longrightarrow>
     par_step s ERelease (s\<lparr>mgr := release (mgr s), pending := pending s - 1\<rparr>)"
| destroy: "destroy_context cid (mgr s) = Inr m \<Longrightarrow> map_of (context_map (mgr s)) cid = Some sc \<Longrightarrow>
     \<not> ctx_running sc \<Longrightarrow>
     par_step s (EDestroy cid) (s\<lparr>mgr := m, leaked := leaked s + ctx_async sc\<rparr>)"

inductive_cases par_step_destroyE: "par_step s (EDestroy cid) s'"
inductive_simps par_step_release: "par_step s ERelease s'"

inductive par_steps :: "'w sys \<Rightarrow> 'w event list \<Rightarrow> 'w sys \<Rightarrow> bool" where
  none: "par_steps s [] s"
| more: "par_step s e s' \<Longrightarrow> par_steps s' es s'' \<Longrightarrow> par_steps s (e # es) s''"

subsection \<open>The contract for tagged tasks\<close>

lemma weight_map_future [simp]: "weight (map_future c f) = weight f"
  by (cases f) (simp_all add: weight_def)

lemma is_running_map_future [simp]: "is_running (map_future c f) = is_running f"
  by (cases f) simp_all

lemma tag_cases:
  assumes "tag c r = Inr (f, m)"
  obtains g where "r = Inr (g, m)" and "f = map_future c g"
  using assms by (cases r) (auto simp: tag_def)

lemma weight_async [simp]:
  "weight (std_async (launch_policy m) t) = (if thread_count m < max_threads m then 1 else 0)"
  by (simp add: weight_def)

lemma sched_facts:
  assumes "sched t i cid m = Inr m'" and "mgr_wf m"
  shows "mgr_wf m' \<and> max_threads m' = max_threads m \<and>
    thread_count m' = thread_count m + (if thread_count m < max_threads m then 1 else 0) \<and>
    mgr_async m' = mgr_async m + (if thread_count m < max_threads m then 1 else 0)"
  using assms
  by (cases t)
    (auto dest: intk.sched_wf floatk.sched_wf intptrk.sched_wf floatptrk.sched_wf voidk.sched_wf
       intk.sched_threads floatk.sched_threads intptrk.sched_threads floatptrk.sched_threads
       voidk.sched_threads intk.sched_async floatk.sched_async intptrk.sched_async
       floatptrk.sched_async voidk.sched_async)

lemma take_facts:
  assumes "take_future k i cid m = Inr (f, m')" and "mgr_wf m"
  shows "mgr_wf m' \<and> max_threads m' = max_threads m \<and> thread_count m' = thread_count m \<and>
    mgr_async m = mgr_async m' + weight f"
  using assms
  by (cases k)
    (auto elim!: tag_cases
       dest: intk.take_wf floatk.take_wf intptrk.take_wf floatptrk.take_wf voidk.take_wf
       intk.take_threads floatk.take_threads intptrk.take_threads floatptrk.take_threads
       voidk.take_threads intk.take_async floatk.take_async intptrk.take_async
       floatptrk.take_async voidk.take_async)

lemma finish_map_facts:
  assumes "finish_map i fm w = Some (fm', w')"
  shows "um_wf fm' = um_wf fm" and "um_wf fm \<Longrightarrow> async_count fm' = async_count fm"
proof -
  obtain s v where s: "map_of fm i = Some (Running s)" and fm': "fm' = um_replace i (Ready v) fm"
    using assms by (auto simp: finish_map_def split: option.splits future.splits prod.splits)
  have "async_count x = sum_list (map (\<lambda>p. weight (snd p)) x)" for x :: "(int, ('a, 'b) future) umap"
    by (induction x) auto
  then show "um_wf fm \<Longrightarrow> async_count fm' = async_count fm"
    using sum_list_um_replace [of fm i "Running s" weight "Ready v"] s fm' by (simp add: weight_def)
  show "um_wf fm' = um_wf fm" by (simp add: fm')
qed

lemma finish_ctx_facts:
  assumes "finish_ctx k i sc w = Some (sc', w')" and "ctx_wf sc"
  shows "ctx_wf sc' \<and> ctx_async sc' = ctx_async sc"
  using assms by (cases k) (auto simp: ctx_wf_def ctx_async_def finish_map_facts)

lemma finish_thread_facts:
  assumes "finish_thread k i cid m w = Some (m', w')" and wf: "mgr_wf m"
  shows "mgr_wf m' \<and> max_threads m' = max_threads m \<and> thread_count m' = thread_count m \<and>
    mgr_async m' = mgr_async m"
proof -
  obtain sc sc' where sc: "map_of (context_map m) cid = Some sc"
    and f: "finish_ctx k i sc w = Some (sc', w')"
    and m': "m' = m\<lparr>context_map := um_replace cid sc' (context_map m)\<rparr>"
    using assms(1) by (auto simp: finish_thread_def bind_eq_Some_conv)
  have facts: "ctx_wf sc'" "ctx_async sc' = ctx_async sc"
    using finish_ctx_facts [OF f mgr_wf_ctx [OF wf sc]] by auto
  have "um_wf (context_map m)" using wf by (simp add: mgr_wf_def)
  then have "mgr_async m' = mgr_async m"
    using mgr_async_replace [of m cid sc sc'] sc facts m' by simp
  then show ?thesis
    using mgr_wf_replace [OF wf facts(1), of cid] m' by simp
qed

lemma ctx_wf_empty [simp]: "ctx_wf StatementContext" "ctx_async StatementContext = 0"
  by (simp_all add: ctx_wf_def ctx_async_def StatementContext_def)

lemma make_context_facts:
  assumes "make_context m = Inr (cid, m')" and "mgr_wf m"
  shows "mgr_wf m' \<and> max_threads m' = max_threads m \<and> thread_count m' = thread_count m \<and>
    mgr_async m' = mgr_async m \<and> map_of (context_map m) cid = None \<and>
    map_of (context_map m') cid = Some StatementContext"
proof -
  have m': "cid = next_cid m" "next_cid m \<noteq> 2 ^ 63 - 1"
     "m' = m\<lparr>next_cid := next_cid m + 1,
             context_map := um_insert (next_cid m) StatementContext (context_map m)\<rparr>"
    using assms(1) by (auto simp: make_context_def split: if_splits)
  have new: "map_of (context_map m) (next_cid m) = None"
    using assms(2) by (auto simp: mgr_wf_def map_of_eq_None_iff)
  then have cm: "context_map m' = context_map m @ [(cid, StatementContext)]"
    by (simp add: m' um_insert_def)
  have "um_wf (context_map m')"
    using assms(2) by (simp add: m' mgr_wf_def)
  then show ?thesis
    using assms(2) m' cm new by (auto simp: mgr_wf_def mgr_async_def map_add_def)
qed

lemma sum_list_um_erase:
  "um_wf m \<Longrightarrow> map_of m k = Some v \<Longrightarrow>
     sum_list (map (\<lambda>p. g (snd p)) m) =
     sum_list (map (\<lambda>p. g (snd p)) (um_erase k m)) + (g v :: nat)"
  by (induction m) (auto simp: um_erase_absent split: if_splits)

lemma destroy_context_facts:
  assumes "destroy_context cid m = Inr m'" and "map_of (context_map m) cid = Some sc"
    and "mgr_wf m"
  shows "mgr_wf m' \<and> max_threads m' = max_threads m \<and> thread_count m' = thread_count m \<and>
    mgr_async m = mgr_async m' + ctx_async sc"
proof -
  have m': "m' = m\<lparr>context_map := um_erase cid (context_map m)\<rparr>"
    using assms(1) by (auto simp: destroy_context_def split: if_splits)
  have "um_wf (um_erase cid (context_map m))"
    using assms(3) by (simp add: mgr_wf_def)
  moreover have "set (um_erase cid (context_map m)) \<subseteq> set (context_map m)"
    by (auto simp: um_erase_def)
  ultimately show ?thesis
    using assms(2,3) m' sum_list_um_erase [of "context_map m" cid sc ctx_async]
    by (auto simp: mgr_wf_def mgr_async_def)
qed

subsection \<open>The invariant of the system\<close>

definition taken_async :: "('w, val) future list \<Rightarrow> nat" where
  "taken_async fs = sum_list (map weight fs)"

definition sys_inv :: "'w sys \<Rightarrow> bool" where
  "sys_inv s \<longleftrightarrow> mgr_wf (mgr s) \<and>
     thread_count (mgr s) = int (mgr_async (mgr s) + taken_async (taken s) + pending s + leaked s) \<and>
     thread_count (mgr s) \<le> max_threads (mgr s)"

lemma taken_async_update [simp]:
  "n < length fs \<Longrightarrow> weight f = weight (fs ! n) \<Longrightarrow> taken_async (fs[n := f]) = taken_async fs"
proof (induction fs arbitrary: n)
  case (Cons a fs)
  then show ?case by (cases n) (auto simp: taken_async_def)
qed simp

lemma taken_async_remove:
  "n < length fs \<Longrightarrow> taken_async (take n fs @ drop (Suc n) fs) + weight (fs ! n) = taken_async fs"
  by (subst (4) id_take_nth_drop [of n fs]) (simp_all add: taken_async_def)

lemma sys_inv_init: "sys_inv (sys_init dth w)"
  by (simp add: sys_inv_def sys_init_def ParContextManager_def mgr_wf_def mgr_async_def
      taken_async_def set_max_threads_def)

lemma sys_inv_step: "par_step s e s' \<Longrightarrow> sys_inv s \<Longrightarrow> sys_inv s'"
proof (induction rule: par_step.induct)
  case (make s cid m)
  then show ?case using make_context_facts [OF make.hyps] by (simp add: sys_inv_def)
next
  case (sched t i cid s m)
  then show ?case using sched_facts [OF sched.hyps] by (auto simp: sys_inv_def)
next
  case (finish k i cid s m w)
  then show ?case using finish_thread_facts [OF finish.hyps] by (simp add: sys_inv_def)
next
  case (take k i cid s f m)
  then show ?case using take_facts [OF take.hyps] by (simp add: sys_inv_def taken_async_def)
next
  case (finish_taken n s c v w)
  then show ?case by (simp add: sys_inv_def weight_def)
next
  case (get n s v w)
  then show ?case using taken_async_remove [OF get.hyps(1)] by (simp add: sys_inv_def)
next
  case (release s)
  then show ?case by (simp add: sys_inv_def of_nat_diff)
next
  case (destroy cid s m sc)
  then show ?case using destroy_context_facts [OF destroy.hyps(1,2)] by (simp add: sys_inv_def)
qed

lemma sys_inv_steps: "par_steps s es s' \<Longrightarrow> sys_inv s \<Longrightarrow> sys_inv s'"
  by (induction rule: par_steps.induct) (auto intro: sys_inv_step)

end
