(* ===== verification/Par_Spec.thy ===== *)
theory Par_Spec
  imports Par_System
begin

section \<open>What the runtime promises: one table of futures\<close>

text \<open>
  The abstract runtime has a set of live contexts and a single table from (context, kind, id) to
  futures, instead of a map of contexts of five maps. The manager's methods implement its
  operations, errors included, on every well-formed manager.
\<close>

record 'w spec =
  live :: "int set"
  futs :: "int \<times> kind \<times> int \<Rightarrow> ('w, val) future option"
  used :: int
  cap :: int
  fresh :: int

definition spec_make :: "'w spec \<Rightarrow> par_error + (int \<times> 'w spec)" where
  "spec_make a =
     (if fresh a = 2 ^ 63 - 1 then Inl CidOverflow
      else Inr (fresh a, a\<lparr>live := insert (fresh a) (live a), fresh := fresh a + 1\<rparr>))"

definition spec_destroy :: "int \<Rightarrow> 'w spec \<Rightarrow> par_error + 'w spec" where
  "spec_destroy cid a =
     (if cid \<notin> live a then Inl NoSuchContext
      else Inr (a\<lparr>live := live a - {cid},
                  futs := (\<lambda>(c, k, i). if c = cid then None else futs a (c, k, i))\<rparr>))"

definition spec_sched :: "'w task \<Rightarrow> int \<Rightarrow> int \<Rightarrow> 'w spec \<Rightarrow> par_error + 'w spec" where
  "spec_sched t i cid a =
     (if cid \<notin> live a then Inl OutOfRange
      else if futs a (cid, task_kind t, i) \<noteq> None then Inl StatementIdExists
      else if used a < cap a
      then Inr (a\<lparr>futs := (futs a)((cid, task_kind t, i) \<mapsto> Running (task_run t)), used := used a + 1\<rparr>)
      else Inr (a\<lparr>futs := (futs a)((cid, task_kind t, i) \<mapsto> Deferred (task_run t))\<rparr>))"

definition spec_take :: "kind \<Rightarrow> int \<Rightarrow> int \<Rightarrow> 'w spec \<Rightarrow> par_error + (('w, val) future \<times> 'w spec)" where
  "spec_take k i cid a =
     (case futs a (cid, k, i) of
        None \<Rightarrow> Inl OutOfRange
      | Some f \<Rightarrow> Inr (f, a\<lparr>futs := (futs a)((cid, k, i) := None)\<rparr>))"

definition spec_finish :: "kind \<Rightarrow> int \<Rightarrow> int \<Rightarrow> 'w spec \<Rightarrow> 'w \<Rightarrow> ('w spec \<times> 'w) option" where
  "spec_finish k i cid a w =
     (case futs a (cid, k, i) of
        Some (Running s) \<Rightarrow>
          (case s w of (v, w') \<Rightarrow> Some (a\<lparr>futs := (futs a)((cid, k, i) \<mapsto> Ready v)\<rparr>, w'))
      | _ \<Rightarrow> None)"

subsection \<open>The abstraction\<close>

fun lookup_ctx :: "kind \<Rightarrow> int \<Rightarrow> 'w StatementContext \<Rightarrow> ('w, val) future option" where
  "lookup_ctx KInt i sc = map_option (map_future VInt) (map_of (int_future_id_map sc) i)"
| "lookup_ctx KFloat i sc = map_option (map_future VFloat) (map_of (float_future_id_map sc) i)"
| "lookup_ctx KIntptr i sc = map_option (map_future VIntptr) (map_of (intptr_future_id_map sc) i)"
| "lookup_ctx KFloatptr i sc =
     map_option (map_future VFloatptr) (map_of (floatptr_future_id_map sc) i)"
| "lookup_ctx KVoid i sc = map_option (map_future (\<lambda>_. VVoid)) (map_of (void_future_id_map sc) i)"

definition abs_mgr :: "'w ParContextManager \<Rightarrow> 'w spec" where
  "abs_mgr m = \<lparr>live = dom (map_of (context_map m)),
     futs = (\<lambda>(c, k, i). case map_of (context_map m) c of None \<Rightarrow> None | Some sc \<Rightarrow> lookup_ctx k i sc),
     used = thread_count m, cap = max_threads m, fresh = next_cid m\<rparr>"

lemma abs_mgr_simps [simp]:
  "live (abs_mgr m) = dom (map_of (context_map m))"
  "used (abs_mgr m) = thread_count m"
  "cap (abs_mgr m) = max_threads m"
  "fresh (abs_mgr m) = next_cid m"
  "futs (abs_mgr m) (c, k, i) =
     (case map_of (context_map m) c of None \<Rightarrow> None | Some sc \<Rightarrow> lookup_ctx k i sc)"
  by (simp_all add: abs_mgr_def)

lemma spec_eqI:
  fixes a b :: "'w spec"
  assumes "live a = live b" "\<And>c k i. futs a (c, k, i) = futs b (c, k, i)"
    "used a = used b" "cap a = cap b" "fresh a = fresh b"
  shows "a = b"
proof -
  have "futs a = futs b" using assms(2) by (intro ext) auto
  then show ?thesis using assms by (intro spec.equality) auto
qed

lemma dom_um_replace [simp]: "dom (map_of (um_replace k v m)) = dom (map_of m)"
  by (auto simp: dom_def)

lemma lookup_ctx_empty [simp]: "lookup_ctx k i StatementContext = None"
  by (cases k) (simp_all add: StatementContext_def)

text \<open>Replacing one context by one that differs at a single key.\<close>

lemma abs_mgr_replace:
  assumes "map_of (context_map m) cid = Some sc"
    and "\<And>k' j. lookup_ctx k' j sc' = ((\<lambda>(k', j). lookup_ctx k' j sc)((k, i) := r)) (k', j)"
  shows "abs_mgr (m\<lparr>context_map := um_replace cid sc' (context_map m)\<rparr>) =
    (abs_mgr m)\<lparr>futs := (futs (abs_mgr m))((cid, k, i) := r)\<rparr>"
  using assms by (intro spec_eqI) auto

lemma map_future_async:
  "map_future c (std_async (launch_policy m) s) =
     (if thread_count m < max_threads m then Running (\<lambda>w. apfst c (s w))
      else Deferred (\<lambda>w. apfst c (s w)))"
  by (auto simp: std_async_def launch_policy_def apfst_def map_prod_def comp_def)

lemma abs_count_launch:
  "abs_mgr (count_launch m) =
     (if thread_count m < max_threads m then (abs_mgr m)\<lparr>used := thread_count m + 1\<rparr>
      else abs_mgr m)"
  by (auto intro!: spec_eqI)

subsection \<open>Refinement\<close>

text \<open>
  The shape shared by the five kinds: a schedule that adds at one free key of its own map.
\<close>

lemma sched_refines_kind:
  assumes some: "\<And>sc. map_of (context_map m) cid = Some sc \<Longrightarrow> lookup_ctx (task_kind t) i sc = None \<Longrightarrow>
      \<exists>sc'. sched t i cid m = Inr ((count_launch m)\<lparr>context_map := um_replace cid sc' (context_map m)\<rparr>) \<and>
        (\<forall>k' j. lookup_ctx k' j sc' = ((\<lambda>(k', j). lookup_ctx k' j sc)((task_kind t, i) \<mapsto>
           (if thread_count m < max_threads m then Running (task_run t) else Deferred (task_run t)))) (k', j))"
    and dup: "\<And>sc. map_of (context_map m) cid = Some sc \<Longrightarrow> lookup_ctx (task_kind t) i sc \<noteq> None \<Longrightarrow>
      sched t i cid m = Inl StatementIdExists"
    and none: "map_of (context_map m) cid = None \<Longrightarrow> sched t i cid m = Inl OutOfRange"
  shows "map_sum id abs_mgr (sched t i cid m) = spec_sched t i cid (abs_mgr m)"
proof (cases "map_of (context_map m) cid")
  case (Some sc)
  show ?thesis
  proof (cases "lookup_ctx (task_kind t) i sc")
    case None
    then obtain sc' where sc': "sched t i cid m =
        Inr ((count_launch m)\<lparr>context_map := um_replace cid sc' (context_map (count_launch m))\<rparr>)"
      "\<And>k' j. lookup_ctx k' j sc' = ((\<lambda>(k', j). lookup_ctx k' j sc)((task_kind t, i) \<mapsto>
         (if thread_count m < max_threads m then Running (task_run t) else Deferred (task_run t)))) (k', j)"
      using some [OF Some] by auto
    have "map_of (context_map (count_launch m)) cid = Some sc" using Some by simp
    from abs_mgr_replace [OF this sc'(2)] show ?thesis
      using Some None by (auto simp: sc'(1) spec_sched_def abs_count_launch dom_def intro!: spec_eqI)
  next
    case (Some f)
    with \<open>map_of (context_map m) cid = Some sc\<close> show ?thesis
      using dup [of sc] by (auto simp: spec_sched_def)
  qed
qed (use none in \<open>auto simp: spec_sched_def dom_def\<close>)

lemma lookup_ctx_upd:
  "lookup_ctx k j (sc\<lparr>int_future_id_map := fm1\<rparr>) =
     (if k = KInt then map_option (map_future VInt) (map_of fm1 j) else lookup_ctx k j sc)"
  "lookup_ctx k j (sc\<lparr>float_future_id_map := fm2\<rparr>) =
     (if k = KFloat then map_option (map_future VFloat) (map_of fm2 j) else lookup_ctx k j sc)"
  "lookup_ctx k j (sc\<lparr>intptr_future_id_map := fm3\<rparr>) =
     (if k = KIntptr then map_option (map_future VIntptr) (map_of fm3 j) else lookup_ctx k j sc)"
  "lookup_ctx k j (sc\<lparr>floatptr_future_id_map := fm4\<rparr>) =
     (if k = KFloatptr then map_option (map_future VFloatptr) (map_of fm4 j) else lookup_ctx k j sc)"
  "lookup_ctx k j (sc\<lparr>void_future_id_map := fm5\<rparr>) =
     (if k = KVoid then map_option (map_future (\<lambda>_. VVoid)) (map_of fm5 j) else lookup_ctx k j sc)"
  by (cases k; simp)+

lemmas add_defs = addIntFuture_def addFloatFuture_def addIntptrFuture_def addFloatptrFuture_def
  addVoidFuture_def
lemmas get_defs = getIntFuture_def getFloatFuture_def getIntptrFuture_def getFloatptrFuture_def
  getVoidFuture_def
lemmas sched_defs = sched_int_def sched_float_def sched_intptr_def sched_floatptr_def sched_void_def
lemmas take_defs = take_int_def take_float_def take_intptr_def take_floatptr_def take_void_def

lemma task_run_funs:
  "task_run (TInt s) = (\<lambda>w. apfst VInt (s w))"
  "task_run (TFloat s1) = (\<lambda>w. apfst VFloat (s1 w))"
  "task_run (TIntptr s2) = (\<lambda>w. apfst VIntptr (s2 w))"
  "task_run (TFloatptr s3) = (\<lambda>w. apfst VFloatptr (s3 w))"
  "task_run (TVoid s4) = (\<lambda>w. apfst (\<lambda>_. VVoid) (s4 w))"
  by auto

fun ctx_add :: "'w task \<Rightarrow> launch \<Rightarrow> int \<Rightarrow> 'w StatementContext \<Rightarrow> 'w StatementContext" where
  "ctx_add (TInt s) p i sc =
     sc\<lparr>int_future_id_map := um_insert i (std_async p s) (int_future_id_map sc)\<rparr>"
| "ctx_add (TFloat s) p i sc =
     sc\<lparr>float_future_id_map := um_insert i (std_async p s) (float_future_id_map sc)\<rparr>"
| "ctx_add (TIntptr s) p i sc =
     sc\<lparr>intptr_future_id_map := um_insert i (std_async p s) (intptr_future_id_map sc)\<rparr>"
| "ctx_add (TFloatptr s) p i sc =
     sc\<lparr>floatptr_future_id_map := um_insert i (std_async p s) (floatptr_future_id_map sc)\<rparr>"
| "ctx_add (TVoid s) p i sc =
     sc\<lparr>void_future_id_map := um_insert i (std_async p s) (void_future_id_map sc)\<rparr>"

lemma lookup_ctx_add:
  assumes "lookup_ctx (task_kind t) i sc = None"
  shows "lookup_ctx k' j (ctx_add t (launch_policy m) i sc) =
    ((\<lambda>(k', j). lookup_ctx k' j sc)((task_kind t, i) \<mapsto>
       (if thread_count m < max_threads m then Running (task_run t) else Deferred (task_run t)))) (k', j)"
  using assms by (cases t) (simp_all add: lookup_ctx_upd map_future_async task_run_funs)

lemma sched_add:
  assumes "map_of (context_map m) cid = Some sc" and "lookup_ctx (task_kind t) i sc = None"
  shows "sched t i cid m = Inr ((count_launch m)
    \<lparr>context_map := um_replace cid (ctx_add t (launch_policy m) i sc) (context_map m)\<rparr>)"
  using assms by (cases t) (simp_all add: sched_defs add_defs)

lemma sched_refines: "map_sum id abs_mgr (sched t i cid m) = spec_sched t i cid (abs_mgr m)"
proof (rule sched_refines_kind)
  fix sc assume "map_of (context_map m) cid = Some sc" "lookup_ctx (task_kind t) i sc = None"
  then show "\<exists>sc'. sched t i cid m = Inr ((count_launch m)\<lparr>context_map := um_replace cid sc' (context_map m)\<rparr>) \<and>
        (\<forall>k' j. lookup_ctx k' j sc' = ((\<lambda>(k', j). lookup_ctx k' j sc)((task_kind t, i) \<mapsto>
           (if thread_count m < max_threads m then Running (task_run t) else Deferred (task_run t)))) (k', j))"
    using sched_add lookup_ctx_add by blast
next
  fix sc assume "map_of (context_map m) cid = Some sc" "lookup_ctx (task_kind t) i sc \<noteq> None"
  then show "sched t i cid m = Inl StatementIdExists"
    by (cases t) (auto simp: sched_defs add_defs)
next
  assume "map_of (context_map m) cid = None"
  then show "sched t i cid m = Inl OutOfRange"
    by (cases t) (simp_all add: sched_defs)
qed

lemma take_refines:
  "map_sum id (\<lambda>(f, m'). (f, abs_mgr m')) (take_future k i cid m) = spec_take k i cid (abs_mgr m)"
proof (cases "map_of (context_map m) cid")
  case (Some sc)
  show ?thesis
  proof (cases "lookup_ctx k i sc")
    case None
    with Some show ?thesis
      by (cases k) (auto simp: spec_take_def take_defs get_defs tag_def)
  next
    case (Some f)
    then obtain sc' where sc': "take_future k i cid m =
        Inr (f, m\<lparr>context_map := um_replace cid sc' (context_map m)\<rparr>)"
      "\<And>k' j. lookup_ctx k' j sc' = ((\<lambda>(k', j). lookup_ctx k' j sc)((k, i) := None)) (k', j)"
      using \<open>map_of (context_map m) cid = Some sc\<close>
      by (cases k) (auto simp: take_defs get_defs tag_def lookup_ctx_upd)
    from abs_mgr_replace [OF \<open>map_of (context_map m) cid = Some sc\<close> sc'(2)]
    show ?thesis
      using Some \<open>map_of (context_map m) cid = Some sc\<close> by (simp add: sc'(1) spec_take_def)
  qed
next
  case None
  then show ?thesis
    by (cases k) (auto simp: spec_take_def take_defs tag_def)
qed

lemma make_refines:
  assumes "mgr_wf m"
  shows "map_sum id (\<lambda>(c, m'). (c, abs_mgr m')) (make_context m) = spec_make (abs_mgr m)"
proof -
  have "map_of (context_map m) (next_cid m) = None"
    using assms by (auto simp: mgr_wf_def map_of_eq_None_iff)
  then show ?thesis
    by (auto simp: make_context_def spec_make_def split: option.splits intro!: spec_eqI)
qed

lemma destroy_refines: "map_sum id abs_mgr (destroy_context cid m) = spec_destroy cid (abs_mgr m)"
  by (auto simp: destroy_context_def spec_destroy_def dom_def um_count_def intro!: spec_eqI
      split: if_splits)

lemma finish_refines:
  "map_option (\<lambda>(m', w'). (abs_mgr m', w')) (finish_thread k i cid m w) =
     spec_finish k i cid (abs_mgr m) w"
proof (cases "map_of (context_map m) cid")
  case (Some sc)
  have hit: "lookup_ctx k i sc = Some (Running s) \<Longrightarrow> s w = (v, w') \<Longrightarrow>
    \<exists>sc'. finish_ctx k i sc w = Some (sc', w') \<and>
      (\<forall>k' j. lookup_ctx k' j sc' = ((\<lambda>(k', j). lookup_ctx k' j sc)((k, i) \<mapsto> Ready v)) (k', j))"
    for s v w'
    by (cases k)
      (auto simp: finish_map_def lookup_ctx_upd map_prod_def split: future.splits prod.splits)
  have miss: "\<nexists>s. lookup_ctx k i sc = Some (Running s) \<Longrightarrow> finish_ctx k i sc w = None"
    by (cases k) (auto simp: finish_map_def split: future.splits option.splits)
  show ?thesis
  proof (cases "\<exists>s. lookup_ctx k i sc = Some (Running s)")
    case True
    then obtain s where s: "lookup_ctx k i sc = Some (Running s)" by blast
    obtain v w' where vw: "s w = (v, w')" by fastforce
    obtain sc' where sc': "finish_ctx k i sc w = Some (sc', w')"
      "\<And>k' j. lookup_ctx k' j sc' = ((\<lambda>(k', j). lookup_ctx k' j sc)((k, i) \<mapsto> Ready v)) (k', j)"
      using hit [OF s vw] by blast
    show ?thesis
      using abs_mgr_replace [OF Some sc'(2)] Some s vw sc'(1)
      by (simp add: finish_thread_def spec_finish_def)
  next
    case False
    then show ?thesis
      using miss Some
      by (auto simp: finish_thread_def spec_finish_def split: option.splits future.splits)
  qed
qed (simp add: finish_thread_def spec_finish_def)

end
