(* ===== verification/Par_Properties.thy ===== *)
theory Par_Properties
  imports Par_Spec
begin

section \<open>Properties of the runtime\<close>

text \<open>
  The theorems about \<^verbatim>\<open>parContextManager.cpp\<close>: scheduling and reconciling single statements and
  whole groups, the accounting of threads under every interleaving, progress of reconciliation,
  and what happens to a context that is destroyed too early.
\<close>

subsection \<open>Facts about steps\<close>

definition gives :: "('w, val) future \<Rightarrow> val \<Rightarrow> bool" where
  "gives f v \<longleftrightarrow> (\<forall>w. future_get f w = (v, w))"

definition offers :: "int \<Rightarrow> kind \<Rightarrow> int \<Rightarrow> val \<Rightarrow> 'w sys \<Rightarrow> bool" where
  "offers cid k i v s \<longleftrightarrow> (\<exists>f. futs (abs_mgr (mgr s)) (cid, k, i) = Some f \<and> gives f v)"

definition pure_task :: "'w task \<Rightarrow> val \<Rightarrow> bool" where
  "pure_task t v \<longleftrightarrow> (\<forall>w. task_run t w = (v, w))"

lemma abs_sched: "sched t i cid m = Inr m' \<Longrightarrow> spec_sched t i cid (abs_mgr m) = Inr (abs_mgr m')"
  using sched_refines [of t i cid m] by simp

lemma abs_take:
  "take_future k i cid m = Inr (f, m') \<Longrightarrow> spec_take k i cid (abs_mgr m) = Inr (f, abs_mgr m')"
  using take_refines [of k i cid m] by simp

lemma abs_make:
  "make_context m = Inr (c, m') \<Longrightarrow> mgr_wf m \<Longrightarrow> spec_make (abs_mgr m) = Inr (c, abs_mgr m')"
  using make_refines [of m] by simp

lemma abs_destroy: "destroy_context c m = Inr m' \<Longrightarrow> spec_destroy c (abs_mgr m) = Inr (abs_mgr m')"
  using destroy_refines [of c m] by simp

lemma abs_finish:
  "finish_thread k i cid m w = Some (m', w') \<Longrightarrow>
     spec_finish k i cid (abs_mgr m) w = Some (abs_mgr m', w')"
  using finish_refines [of k i cid m w] by simp

text \<open>The effect of each method on the table of futures.\<close>

lemma futs_sched:
  assumes "sched t i cid m = Inr m'"
  obtains f where "futs (abs_mgr m) (cid, task_kind t, i) = None"
    and "f = Running (task_run t) \<or> f = Deferred (task_run t)"
    and "futs (abs_mgr m') = (futs (abs_mgr m))((cid, task_kind t, i) \<mapsto> f)"
  using abs_sched [OF assms]
  by (auto simp: spec_sched_def simp del: abs_mgr_simps(5) split: if_splits
      dest!: arg_cong [of _ _ futs]) (metis that)+

lemma futs_sched_deferred:
  assumes "sched t i cid m = Inr m'" and "\<not> thread_count m < max_threads m"
  shows "futs (abs_mgr m') (cid, task_kind t, i) = Some (Deferred (task_run t))"
  using abs_sched [OF assms(1)] assms(2)
  by (auto simp: spec_sched_def simp del: abs_mgr_simps(5) split: if_splits
      dest!: arg_cong [of _ _ futs]) (metis fun_upd_same)

lemma futs_live: "futs (abs_mgr m) (c, k, i) = Some f \<Longrightarrow> c \<in> live (abs_mgr m)"
  by (auto split: option.splits)

lemma futs_take:
  assumes "take_future k i cid m = Inr (f, m')"
  shows "futs (abs_mgr m) (cid, k, i) = Some f"
    and "futs (abs_mgr m') = (futs (abs_mgr m))((cid, k, i) := None)"
  using abs_take [OF assms]
  by (auto simp: spec_take_def simp del: abs_mgr_simps(5) split: option.splits
      dest!: arg_cong [of _ _ futs])

lemma futs_make:
  assumes "make_context m = Inr (c, m')" and "mgr_wf m"
  shows "futs (abs_mgr m') = futs (abs_mgr m)"
  using abs_make [OF assms]
  by (auto simp: spec_make_def simp del: abs_mgr_simps(5) split: if_splits
      dest!: arg_cong [of _ _ futs])

lemma futs_destroy:
  assumes "destroy_context c m = Inr m'"
  shows "futs (abs_mgr m') = (\<lambda>(c', k, i). if c' = c then None else futs (abs_mgr m) (c', k, i))"
  using abs_destroy [OF assms]
  by (auto simp: spec_destroy_def simp del: abs_mgr_simps(5) split: if_splits
      dest!: arg_cong [of _ _ futs])

lemma futs_finish:
  assumes "finish_thread k i cid m w = Some (m', w')"
  obtains c v where "futs (abs_mgr m) (cid, k, i) = Some (Running c)" and "c w = (v, w')"
    and "futs (abs_mgr m') = (futs (abs_mgr m))((cid, k, i) \<mapsto> Ready v)"
  using abs_finish [OF assms]
  by (auto simp: spec_finish_def simp del: abs_mgr_simps(5)
      split: option.splits future.splits prod.splits dest!: arg_cong [of _ _ futs])

lemma abs_release [simp]: "futs (abs_mgr (release m)) = futs (abs_mgr m)"
  by (simp add: abs_mgr_def)

lemma gives_Running: "gives (Running c) v \<Longrightarrow> c w = (v', w') \<Longrightarrow> v' = v"
  by (metis future_get.simps(2) gives_def prod.inject)

lemma gives_Ready [simp]: "gives (Ready u) v \<longleftrightarrow> u = v"
  by (auto simp: gives_def)

declare abs_mgr_simps(5) [simp del]

lemma offers_step:
  assumes "par_step s e s'" and "sys_inv s" and "offers cid k i v s"
    and "e \<noteq> ETake k i cid" and "e \<noteq> EDestroy cid"
  shows "offers cid k i v s'"
  using assms
proof (induction rule: par_step.induct)
  case (make s c m)
  then show ?case using futs_make [OF make.hyps] by (simp add: offers_def sys_inv_def)
next
  case (sched t j c s m)
  then show ?case by (auto simp: offers_def elim!: futs_sched)
next
  case (finish k' j c s m w)
  then show ?case by (auto simp: offers_def elim!: futs_finish) (metis gives_Running)
next
  case (take k' j c s f m)
  then show ?case by (auto simp: offers_def futs_take(2) [OF take.hyps])
next
  case (destroy c s m sc)
  then show ?case by (auto simp: offers_def futs_destroy [OF destroy.hyps(1)])
qed (simp_all add: offers_def)

lemma offers_steps:
  "par_steps s es s' \<Longrightarrow> sys_inv s \<Longrightarrow> offers cid k i v s \<Longrightarrow>
   ETake k i cid \<notin> set es \<Longrightarrow> EDestroy cid \<notin> set es \<Longrightarrow> offers cid k i v s'"
  by (induction rule: par_steps.induct) (auto intro: offers_step sys_inv_step)

lemma sched_offers:
  assumes "par_step s (ESched t i cid) s'" and "pure_task t v"
  shows "offers cid (task_kind t) i v s'"
proof -
  obtain m where m: "sched t i cid (mgr s) = Inr m" and s': "s' = s\<lparr>mgr := m\<rparr>"
    using assms(1) by (auto elim: par_step.cases)
  show ?thesis
    by (rule futs_sched [OF m]) (use assms(2) in \<open>auto simp: offers_def gives_def pure_task_def s'\<close>)
qed

lemma take_offered:
  assumes "offers cid k i v s"
  shows "\<exists>f m. take_future k i cid (mgr s) = Inr (f, m) \<and> gives f v"
proof -
  obtain f where f: "futs (abs_mgr (mgr s)) (cid, k, i) = Some f" "gives f v"
    using assms by (auto simp: offers_def)
  then show ?thesis
    using take_refines [of k i cid "mgr s"]
    by (cases "take_future k i cid (mgr s)") (auto simp: spec_take_def)
qed

lemma par_steps_append:
  "par_steps s es s' \<Longrightarrow> par_steps s' es' s'' \<Longrightarrow> par_steps s (es @ es') s''"
  by (induction rule: par_steps.induct) (auto intro: par_steps.intros)

subsection \<open>Draining reconciliations\<close>

lemma drain_pending:
  "\<exists>es s'. par_steps s es s' \<and> taken s' = taken s \<and> pending s' = 0 \<and>
     mgr s' = (mgr s)\<lparr>thread_count := thread_count (mgr s) - int (pending s)\<rparr> \<and>
     results s' = results s"
proof (induction "pending s" arbitrary: s)
  case 0
  then show ?case by (intro exI [of _ "[]"] exI [of _ s]) (simp add: par_steps.none)
next
  case (Suc n)
  let ?s = "s\<lparr>mgr := release (mgr s), pending := pending s - 1\<rparr>"
  have step: "par_step s ERelease ?s" using Suc.hyps(2) by (intro par_step.release) simp
  have "n = pending ?s" and "thread_count (mgr s) - 1 - int n = thread_count (mgr s) - int (pending s)"
    using Suc.hyps(2) by (auto simp flip: Suc.hyps(2))
  with Suc.hyps(1) [of ?s] obtain es s' where "par_steps ?s es s'"
    "taken s' = taken s" "pending s' = 0" "results s' = results s"
    "mgr s' = (mgr s)\<lparr>thread_count := thread_count (mgr s) - int (pending s)\<rparr>"
    by (auto simp: release_def)
  with step show ?case by (blast intro: par_steps.more)
qed

lemma get_settled:
  assumes "taken s = f # fs" and "\<not> is_running f"
  shows "\<exists>s' v. par_step s (EGet 0 v) s' \<and> taken s' = fs \<and> mgr s' = mgr s \<and>
    pending s' = pending s + weight f \<and> results s' = results s @ [v]"
proof -
  obtain v w where "future_get f (mem s) = (v, w)" by fastforce
  then have "par_step s (EGet 0 v) (s\<lparr>mem := w, results := results s @ [v],
      taken := take 0 (taken s) @ drop (Suc 0) (taken s),
      pending := pending s + weight (taken s ! 0)\<rparr>)"
    using assms by (intro par_step.get) auto
  then show ?thesis
    using assms(1) by - (rule exI, rule exI, rule conjI, assumption, simp)
qed

lemma get_hd:
  assumes "taken s = f # fs"
  shows "\<exists>es s' v. par_steps s es s' \<and> taken s' = fs \<and> mgr s' = mgr s \<and>
    pending s' = pending s + weight f \<and> results s' = results s @ [v]"
proof (cases f)
  case (Running c)
  obtain v w where vw: "c (mem s) = (v, w)" by fastforce
  let ?s1 = "s\<lparr>taken := Ready v # fs, mem := w\<rparr>"
  have "par_step s (EFinishTaken 0) ?s1"
    using par_step.finish_taken [where c = c, of 0 s v w] assms Running vw by simp
  moreover obtain s' u where "par_step ?s1 (EGet 0 u) s'" "taken s' = fs" "mgr s' = mgr s"
      "pending s' = pending s + weight f" "results s' = results s @ [u]"
    using get_settled [of ?s1 "Ready v" fs] Running by (auto simp: weight_def)
  ultimately show ?thesis by (blast intro: par_steps.intros)
qed (use get_settled [OF assms] in \<open>auto intro: par_steps.intros dest!: par_steps.more [OF _ par_steps.none]\<close>)

lemma drain_taken:
  "\<exists>es s'. par_steps s es s' \<and> taken s' = [] \<and> mgr s' = mgr s \<and>
     pending s' = pending s + taken_async (taken s) \<and>
     length (results s') = length (results s) + length (taken s)"
proof (induction "taken s" arbitrary: s)
  case Nil
  then show ?case
    by (intro exI [of _ "[]"] exI [of _ s]) (simp add: par_steps.none taken_async_def)
next
  case (Cons f fs)
  obtain es s1 v where s1: "par_steps s es s1" "taken s1 = fs" "mgr s1 = mgr s"
    "pending s1 = pending s + weight f" "results s1 = results s @ [v]"
    using get_hd [of s f fs] Cons.hyps(2) by auto
  obtain es' s' where s': "par_steps s1 es' s'" "taken s' = []" "mgr s' = mgr s1"
     "pending s' = pending s1 + taken_async fs" "length (results s') = length (results s1) + length fs"
    using Cons.hyps(1) [of s1] s1(2) by auto
  have "taken_async (taken s) = weight f + taken_async fs" "length (taken s) = Suc (length fs)"
    using Cons.hyps(2) by (simp_all add: taken_async_def flip: Cons.hyps(2))
  then show ?case
    using par_steps_append [OF s1(1) s'(1)] s1 s' by (intro exI conjI) auto
qed

subsection \<open>Leaked threads\<close>

lemma max_threads_step: "par_step s e s' \<Longrightarrow> sys_inv s \<Longrightarrow> max_threads (mgr s') = max_threads (mgr s)"
proof (induction rule: par_step.induct)
  case (make s cid m)
  then show ?case using make_context_facts [OF make.hyps] by (simp add: sys_inv_def)
next
  case (sched t i cid s m)
  then show ?case using sched_facts [OF sched.hyps] by (simp add: sys_inv_def)
next
  case (finish k i cid s m w)
  then show ?case using finish_thread_facts [OF finish.hyps] by (simp add: sys_inv_def)
next
  case (take k i cid s f m)
  then show ?case using take_facts [OF take.hyps] by (simp add: sys_inv_def)
next
  case (destroy cid s m sc)
  then show ?case using destroy_context_facts [OF destroy.hyps(1,2)] by (simp add: sys_inv_def)
qed simp_all

lemma max_threads_steps:
  "par_steps s es s' \<Longrightarrow> sys_inv s \<Longrightarrow> max_threads (mgr s') = max_threads (mgr s)"
  by (induction rule: par_steps.induct) (auto simp: sys_inv_step max_threads_step)

lemma leaked_step: "par_step s e s' \<Longrightarrow> leaked s \<le> leaked s'"
  by (induction rule: par_step.induct) simp_all

lemma leaked_steps: "par_steps s es s' \<Longrightarrow> leaked s \<le> leaked s'"
  by (induction rule: par_steps.induct) (auto dest: leaked_step)

lemmas reach_inv = sys_inv_steps [OF _ sys_inv_init]

text \<open>
  A small run of the system used by the witnesses: a context, two statements on two threads that
  both finish.
\<close>

definition demo_task :: "nat task" where
  "demo_task = TInt (\<lambda>w. (7, w))"

definition demo :: "nat sys" where
  "demo = \<lparr>mgr = \<lparr>context_map = [(0, StatementContext
        \<lparr>int_future_id_map := [(0, Ready 7), (1, Ready 7)]\<rparr>)],
      thread_count = 2, max_threads = 2, next_cid = 1\<rparr>,
    mem = 0, taken = [], pending = 0, leaked = 0, results = []\<rparr>"

definition demo_events :: "nat event list" where
  "demo_events = [EMake 0, ESched demo_task 0 0, ESched demo_task 1 0, EFinish KInt 0 0, EFinish KInt 1 0]"

lemma par_steps_Cons: "(\<exists>s'. par_step s e s' \<and> par_steps s' es s'') \<Longrightarrow> par_steps s (e # es) s''"
  by (blast intro: par_steps.more)

inductive_simps par_step_make [simp]: "par_step s (EMake cid) s'"
inductive_simps par_step_sched [simp]: "par_step s (ESched t i cid) s'"
inductive_simps par_step_finish [simp]: "par_step s (EFinish k i cid) s'"
inductive_simps par_step_take [simp]: "par_step s (ETake k i cid) s'"
inductive_simps par_step_destroy [simp]: "par_step s (EDestroy cid) s'"
inductive_simps par_steps_Nil [simp]: "par_steps s [] s'"
inductive_simps par_steps_more [simp]: "par_steps s (e # es) s'"

lemmas run_defs = sys_init_def ParContextManager_def set_max_threads_def make_context_def
  StatementContext_def um_insert_def um_replace_def um_erase_def um_count_def sched_defs add_defs
  get_defs take_defs launch_policy_def count_launch_def std_async_def finish_thread_def
  finish_map_def destroy_context_def ctx_running_def ctx_async_def async_count_def tag_def

lemma demo_run: "par_steps (sys_init 2 0) demo_events demo"
  by (simp add: demo_events_def demo_def demo_task_def run_defs)

definition leak_state :: "nat sys" where
  "leak_state = \<lparr>mgr = \<lparr>context_map = [], thread_count = 2, max_threads = 2, next_cid = 1\<rparr>,
    mem = 0, taken = [], pending = 0, leaked = 2, results = []\<rparr>"

lemma leak_run: "par_steps (sys_init 2 0) (demo_events @ [EDestroy 0]) leak_state"
  by (simp add: demo_events_def leak_state_def demo_task_def run_defs)

subsection \<open>Claims\<close>

text \<open>
  Claim C5. In every state the runtime can reach, under every
  interleaving, the manager's \<open>thread_count\<close> is exactly the number of started threads that have
  not been given back (in a context, taken by a reconciliation, waiting to be released, or lost
  with a destroyed context), it is never negative, and it never exceeds \<open>max_threads\<close>, which is
  the hardware concurrency clamped to between 2 and 4.
\<close>

theorem runtime_thread_accounting:
  assumes "par_steps (sys_init dth w) es s"
  shows "thread_count (mgr s) =
      int (mgr_async (mgr s) + taken_async (taken s) + pending s + leaked s)
    \<and> 0 \<le> thread_count (mgr s) \<and> thread_count (mgr s) \<le> max_threads (mgr s)
    \<and> max_threads (mgr s) = max 2 (min 4 (int dth))"
  using reach_inv [OF assms] max_threads_steps [OF assms sys_inv_init]
  by (auto simp: sys_inv_def sys_init_def ParContextManager_def set_max_threads_def)

theorem runtime_thread_accounting_witness:
  "thread_count (mgr demo) = 2 \<and>
   int (mgr_async (mgr demo) + taken_async (taken demo) + pending demo + leaked demo) = 2"
  using runtime_thread_accounting [OF demo_run] by (simp add: demo_def)



text \<open>
  Claim C4. The value of a parallel statement does not depend on
  the schedule. If a statement that always computes \<open>v\<close> (and leaves memory alone) is scheduled
  under an id of a context, then after any further steps of any threads, as long as the id has not
  been reconciled and its context not destroyed, reconciling the id is possible and delivers a
  future whose value is \<open>v\<close>, whichever launch policy was chosen and whether or not its thread has
  finished.
\<close>

theorem parallel_value_deterministic:
  assumes "par_steps (sys_init dth w) es0 s0" and "par_step s0 (ESched t i cid) s1"
    and "pure_task t v" and "par_steps s1 es s"
    and "ETake (task_kind t) i cid \<notin> set es" and "EDestroy cid \<notin> set es"
  shows "\<exists>f m. take_future (task_kind t) i cid (mgr s) = Inr (f, m) \<and> (\<forall>w. future_get f w = (v, w))"
proof -
  have "sys_inv s1"
    using sys_inv_step [OF assms(2) reach_inv [OF assms(1)]] .
  then have "offers cid (task_kind t) i v s"
    using offers_steps [OF assms(4) _ sched_offers [OF assms(2,3)]] assms(5,6) by blast
  then show ?thesis using take_offered by (auto simp: gives_def)
qed

theorem parallel_value_deterministic_witness:
  "\<exists>f m. take_future KInt 0 0 (mgr demo) = Inr (f, m) \<and> (\<forall>w. future_get f w = (VInt 7, w))"
proof -
  let ?c = "\<lambda>fm n. \<lparr>mgr = \<lparr>context_map = [(0, StatementContext\<lparr>int_future_id_map := fm\<rparr>)],
      thread_count = n, max_threads = 2, next_cid = 1\<rparr>,
    mem = 0 :: nat, taken = [], pending = 0, leaked = 0, results = []\<rparr>"
  have 1: "par_steps (sys_init 2 0) [EMake 0] (?c [] 0)"
    by (simp add: run_defs)
  have 2: "par_step (?c [] 0) (ESched demo_task 0 0) (?c [(0, Running (\<lambda>w. (7, w)))] 1)"
    by (simp add: demo_task_def run_defs)
  have 3: "par_steps (?c [(0, Running (\<lambda>w. (7, w)))] 1)
      [ESched demo_task 1 0, EFinish KInt 0 0, EFinish KInt 1 0] demo"
    by (simp add: demo_def demo_task_def run_defs)
  have 4: "pure_task demo_task (VInt 7)"
    by (simp add: pure_task_def demo_task_def)
  show ?thesis
    using parallel_value_deterministic [OF 1 2 4 3] by (simp add: demo_task_def)
qed

text \<open>
  Claim C6. A group of statements is total and gives back what it takes. In a
  context fresh from \<open>make_context\<close>, scheduling any list of statements of one kind under the ids
  0, 1, 2, \<dots> succeeds, and reconciling those ids in order succeeds too, returns the values of the
  statements run one after the other (whatever \<open>original\<close>, \<open>known\<close> and \<open>max\<close> are, and however many
  of the statements were deferred), and restores the manager exactly as it was, thread count
  included. This holds for each of the five kinds of statements.
\<close>

theorem group_roundtrip:
  assumes "mgr_wf m" and "make_context m = Inr (cid, m1)"
  shows "(\<exists>m2. sched_all sched_int 0 ints cid m1 = Inr m2 \<and>
        recon_all (\<lambda>i c. recon_int int_orig known i mx c) 0 (length ints) cid m2 w =
          Inr (fst (run_seq ints w), m1, snd (run_seq ints w)))
    \<and> (\<exists>m2. sched_all sched_float 0 floats cid m1 = Inr m2 \<and>
        recon_all (\<lambda>i c. recon_float float_orig known i mx c) 0 (length floats) cid m2 w =
          Inr (fst (run_seq floats w), m1, snd (run_seq floats w)))
    \<and> (\<exists>m2. sched_all sched_intptr 0 intptrs cid m1 = Inr m2 \<and>
        recon_all (\<lambda>i c. recon_intptr intptr_orig known i mx c) 0 (length intptrs) cid m2 w =
          Inr (fst (run_seq intptrs w), m1, snd (run_seq intptrs w)))
    \<and> (\<exists>m2. sched_all sched_floatptr 0 floatptrs cid m1 = Inr m2 \<and>
        recon_all (\<lambda>i c. recon_floatptr floatptr_orig known i mx c) 0 (length floatptrs) cid m2 w =
          Inr (fst (run_seq floatptrs w), m1, snd (run_seq floatptrs w)))
    \<and> (\<exists>m2. sched_all sched_void 0 voids cid m1 = Inr m2 \<and>
        recon_all (\<lambda>i c. recon_void i mx c) 0 (length voids) cid m2 w =
          Inr (fst (run_seq voids w), m1, snd (run_seq voids w)))"
proof -
  have sc: "map_of (context_map m1) cid = Some StatementContext" and wf: "um_wf (context_map m1)"
    using make_context_facts [OF assms(2,1)] by (auto simp: mgr_wf_def)
  have group: "(\<exists>m2. A = Inr m2) \<Longrightarrow> (\<And>m2. A = Inr m2 \<Longrightarrow> R m2) \<Longrightarrow> \<exists>m2. A = Inr m2 \<and> R m2"
    for A :: "par_error + 'a ParContextManager" and R
    by blast
  show ?thesis
  proof (intro conjI)
    show "(\<exists>m2. sched_all sched_int 0 ints cid m1 = Inr m2 \<and>
        recon_all (\<lambda>i c. recon_int int_orig known i mx c) 0 (length ints) cid m2 w =
          Inr (fst (run_seq ints w), m1, snd (run_seq ints w)))"
      using intk.sched_all_succeeds [OF sc, of 0 ints] intk.recon_all_after_sched_all [OF wf, of 0 ints cid _ "(int_orig, known, mx)" w]
      by (intro group) (auto simp: intk.sel_empty)
    show "(\<exists>m2. sched_all sched_float 0 floats cid m1 = Inr m2 \<and>
        recon_all (\<lambda>i c. recon_float float_orig known i mx c) 0 (length floats) cid m2 w =
          Inr (fst (run_seq floats w), m1, snd (run_seq floats w)))"
      using floatk.sched_all_succeeds [OF sc, of 0 floats] floatk.recon_all_after_sched_all [OF wf, of 0 floats cid _ "(float_orig, known, mx)" w]
      by (intro group) (auto simp: floatk.sel_empty)
    show "(\<exists>m2. sched_all sched_intptr 0 intptrs cid m1 = Inr m2 \<and>
        recon_all (\<lambda>i c. recon_intptr intptr_orig known i mx c) 0 (length intptrs) cid m2 w =
          Inr (fst (run_seq intptrs w), m1, snd (run_seq intptrs w)))"
      using intptrk.sched_all_succeeds [OF sc, of 0 intptrs] intptrk.recon_all_after_sched_all [OF wf, of 0 intptrs cid _ "(intptr_orig, known, mx)" w]
      by (intro group) (auto simp: intptrk.sel_empty)
    show "(\<exists>m2. sched_all sched_floatptr 0 floatptrs cid m1 = Inr m2 \<and>
        recon_all (\<lambda>i c. recon_floatptr floatptr_orig known i mx c) 0 (length floatptrs) cid m2 w =
          Inr (fst (run_seq floatptrs w), m1, snd (run_seq floatptrs w)))"
      using floatptrk.sched_all_succeeds [OF sc, of 0 floatptrs] floatptrk.recon_all_after_sched_all [OF wf, of 0 floatptrs cid _ "(floatptr_orig, known, mx)" w]
      by (intro group) (auto simp: floatptrk.sel_empty)
    show "(\<exists>m2. sched_all sched_void 0 voids cid m1 = Inr m2 \<and>
        recon_all (\<lambda>i c. recon_void i mx c) 0 (length voids) cid m2 w =
          Inr (fst (run_seq voids w), m1, snd (run_seq voids w)))"
      using voidk.sched_all_succeeds [OF sc, of 0 voids] voidk.recon_all_after_sched_all [OF wf, of 0 voids cid _ "mx" w]
      by (intro group) (auto simp: voidk.sel_empty)
  qed
qed

theorem group_roundtrip_witness:
  "\<exists>m2. sched_all sched_int 0 [\<lambda>w. (w, w + 1), \<lambda>w. (w, w + 1), \<lambda>w. (w, w + 1)] 0
        \<lparr>context_map = [(0, StatementContext)], thread_count = 0, max_threads = 2, next_cid = 1\<rparr> = Inr m2 \<and>
      recon_all (\<lambda>i c. recon_int 0 1 i 2 c) 0 3 0 m2 (5 :: int64) =
        Inr ([5, 6, 7], \<lparr>context_map = [(0, StatementContext)], thread_count = 0, max_threads = 2, next_cid = 1\<rparr>, 8)"
proof -
  let ?m = "ParContextManager 1 :: int64 ParContextManager"
  have wf: "mgr_wf ?m"
    using sys_inv_init [of 1 "0 :: int64"] by (simp add: sys_inv_def sys_init_def)
  have mk: "make_context ?m = Inr (0, \<lparr>context_map = [(0, StatementContext)], thread_count = 0,
      max_threads = 2, next_cid = 1\<rparr>)"
    by (simp add: make_context_def ParContextManager_def set_max_threads_def um_insert_def)
  show ?thesis
    using group_roundtrip [OF wf mk, THEN conjunct1, of "[\<lambda>w. (w, w + 1), \<lambda>w. (w, w + 1), \<lambda>w. (w, w + 1)]" 0 1 2 5]
    by (simp add: numeral_3_eq_3)
qed

text \<open>
  Claim C17. The manager with its map of contexts of five maps each
  implements the abstract runtime with one table of futures: on a well-formed manager, making and
  destroying contexts, scheduling a task of any kind, taking a future and a thread's finishing
  commute with the abstraction, and fail with the same error exactly when the abstract operation
  does.
\<close>

theorem runtime_refines_table:
  assumes "mgr_wf m"
  shows "map_sum id (\<lambda>(c, m'). (c, abs_mgr m')) (make_context m) = spec_make (abs_mgr m)
    \<and> map_sum id abs_mgr (destroy_context cid m) = spec_destroy cid (abs_mgr m)
    \<and> map_sum id abs_mgr (sched t i cid m) = spec_sched t i cid (abs_mgr m)
    \<and> map_sum id (\<lambda>(f, m'). (f, abs_mgr m')) (take_future k i cid m) = spec_take k i cid (abs_mgr m)
    \<and> map_option (\<lambda>(m', w'). (abs_mgr m', w')) (finish_thread k i cid m w) =
        spec_finish k i cid (abs_mgr m) w"
  by (intro conjI make_refines [OF assms] destroy_refines sched_refines take_refines finish_refines)

theorem runtime_refines_table_witness:
  "map_sum id abs_mgr (sched demo_task 0 5 (mgr demo)) = Inl OutOfRange \<and>
   map_sum id abs_mgr (sched demo_task 0 0 (mgr demo)) = Inl StatementIdExists"
proof -
  have wf: "mgr_wf (mgr demo)"
    using reach_inv [OF demo_run] by (simp add: sys_inv_def)
  show ?thesis
    using runtime_refines_table [OF wf, of 5 demo_task 0, THEN conjunct2, THEN conjunct2, THEN conjunct1]
      runtime_refines_table [OF wf, of 0 demo_task 0, THEN conjunct2, THEN conjunct2, THEN conjunct1]
    by (simp add: spec_sched_def demo_def demo_task_def StatementContext_def abs_mgr_def)
qed

text \<open>
  Claim C23. Misuse of the runtime is always an error and never silently
  accepted: a second statement under the same id and kind, a second reconciliation of an id, a
  second destruction of a context, and scheduling into or reconciling from a destroyed context.
\<close>

theorem runtime_misuse_detected:
  shows "(\<forall>m'. sched t i cid m = Inr m' \<and> task_kind t' = task_kind t \<longrightarrow>
            sched t' i cid m' = Inl StatementIdExists)
    \<and> (\<forall>f m'. take_future k i cid m = Inr (f, m') \<longrightarrow> take_future k i cid m' = Inl OutOfRange)
    \<and> (\<forall>m'. destroy_context cid m = Inr m' \<longrightarrow> destroy_context cid m' = Inl NoSuchContext \<and>
            sched t i cid m' = Inl OutOfRange \<and> take_future k i cid m' = Inl OutOfRange)"
proof (intro conjI allI impI)
  fix m' assume a: "sched t i cid m = Inr m' \<and> task_kind t' = task_kind t"
  then obtain f where f: "futs (abs_mgr m') (cid, task_kind t', i) = Some f"
    by (auto elim!: futs_sched)
  with futs_live [OF f] show "sched t' i cid m' = Inl StatementIdExists"
    using sched_refines [of t' i cid m']
    by (cases "sched t' i cid m'") (simp_all add: spec_sched_def)
next
  fix f m' assume "take_future k i cid m = Inr (f, m')"
  then show "take_future k i cid m' = Inl OutOfRange"
    using take_refines [of k i cid m'] futs_take(2) [of k i cid m f m']
    by (cases "take_future k i cid m'") (auto simp: spec_take_def)
next
  fix m' assume d: "destroy_context cid m = Inr m'"
  then have none: "map_of (context_map m') cid = None"
    by (auto simp: destroy_context_def split: if_splits)
  then show "destroy_context cid m' = Inl NoSuchContext"
    by (simp add: destroy_context_def)
  show "sched t i cid m' = Inl OutOfRange"
    using none by (cases t) (simp_all add: sched_defs)
  show "take_future k i cid m' = Inl OutOfRange"
    using none by (cases k) (simp_all add: take_defs tag_def)
qed

theorem runtime_misuse_detected_witness:
  "destroy_context 0 (mgr leak_state) = Inl NoSuchContext \<and>
   sched demo_task 0 0 (mgr leak_state) = Inl OutOfRange"
proof -
  have "destroy_context 0 (mgr demo) = Inr (mgr leak_state)"
    by (simp add: demo_def leak_state_def run_defs)
  then show ?thesis
    using runtime_misuse_detected [of demo_task 0 0 "mgr demo" demo_task KInt] by blast
qed

text \<open>
  Claim C24. A context destroyed before its statements are
  reconciled loses their threads for good: \<open>destroy_context\<close> does not decrease \<open>thread_count\<close>.
  Once as many threads as \<open>max_threads\<close> are lost, every statement scheduled from then on, in any
  context and after any further steps, is deferred, so that the program has no parallelism left.
\<close>

theorem leaked_threads_are_permanent:
  assumes "par_steps (sys_init dth w) es0 s" and "int (leaked s) = max_threads (mgr s)"
    and "par_steps s es s'" and "sched t i cid (mgr s') = Inr m"
  shows "thread_count m = thread_count (mgr s') \<and>
    futs (abs_mgr m) (cid, task_kind t, i) = Some (Deferred (task_run t))"
proof -
  have inv: "sys_inv s" and inv': "sys_inv s'"
    using reach_inv [OF assms(1)] sys_inv_steps [OF assms(3)] by auto
  have "max_threads (mgr s') = max_threads (mgr s)" and "leaked s \<le> leaked s'"
    using max_threads_steps [OF assms(3) inv] leaked_steps [OF assms(3)] by auto
  then have "\<not> thread_count (mgr s') < max_threads (mgr s')"
    using assms(2) inv' by (simp add: sys_inv_def)
  then show ?thesis
    using futs_sched_deferred [OF assms(4)] sched_facts [OF assms(4)] inv' by (auto simp: sys_inv_def)
qed

theorem leaked_threads_are_permanent_witness:
  "\<exists>m. sched demo_task 0 1 (mgr (leak_state\<lparr>mgr := (mgr leak_state)
          \<lparr>context_map := [(1, StatementContext)], next_cid := 2\<rparr>\<rparr>)) = Inr m \<and>
     futs (abs_mgr m) (1, KInt, 0) = Some (Deferred (task_run demo_task))"
proof -
  let ?s = "leak_state\<lparr>mgr := (mgr leak_state)\<lparr>context_map := [(1, StatementContext)], next_cid := 2\<rparr>\<rparr>"
  have full: "int (leaked leak_state) = max_threads (mgr leak_state)"
    by (simp add: leak_state_def)
  have mk: "par_steps leak_state [EMake 1] ?s"
    by (simp add: leak_state_def run_defs)
  obtain m where m: "sched demo_task 0 1 (mgr ?s) = Inr m"
    by (simp add: leak_state_def demo_task_def run_defs)
  show ?thesis
    using leaked_threads_are_permanent [OF leak_run full mk m] m by (auto simp: demo_task_def)
qed

end
