(* ===== verification/Fork_Lib.thy ===== *)
theory Fork_Lib
  imports Par_Properties
begin

section \<open>The standard library of compiled programs (lib.cpp)\<close>

text \<open>
  Output, allocation and the entry points for parallelism. The process-wide objects of \<^verbatim>\<open>lib.cpp\<close>
  are one state: what was printed, the heap of the C library and the manager. The C library's
  allocator is a parameter; each function holds its mutex for its whole body, so it is one step.
\<close>

datatype lib_output = OutInt int | OutFloat double

record ('h, 'w) lib =
  printed :: "lib_output list"
  cheap :: 'h
  manager :: "'w ParContextManager"

text \<open>The C library: \<open>malloc\<close>, \<open>calloc\<close> and \<open>free\<close>; sizes are \<open>size_t\<close>.\<close>

record 'h allocator =
  c_malloc :: "int64 \<Rightarrow> 'h \<Rightarrow> address \<times> 'h"
  c_calloc :: "int64 \<Rightarrow> int64 \<Rightarrow> 'h \<Rightarrow> address \<times> 'h"
  c_free :: "address \<Rightarrow> 'h \<Rightarrow> 'h"

subsection \<open>Output\<close>

text \<open>\<open>(int)i\<close> keeps the low 32 bits.\<close>

definition int_cast :: "int64 \<Rightarrow> 32 word" where
  "int_cast i = ucast i"

definition print_int :: "int64 \<Rightarrow> ('h, 'w) lib \<Rightarrow> ('h, 'w) lib" where
  "print_int i l = l\<lparr>printed := printed l @ [OutInt (sint (int_cast i))]\<rparr>"

definition print_float :: "double \<Rightarrow> ('h, 'w) lib \<Rightarrow> ('h, 'w) lib" where
  "print_float d l = l\<lparr>printed := printed l @ [OutFloat d]\<rparr>"

subsection \<open>Allocation\<close>

definition malloc_int :: "'h allocator \<Rightarrow> int64 \<Rightarrow> ('h, 'w) lib \<Rightarrow> address \<times> ('h, 'w) lib" where
  "malloc_int C s l = (let (p, h) = c_malloc C (s * 8) (cheap l) in (p, l\<lparr>cheap := h\<rparr>))"

definition malloc_float :: "'h allocator \<Rightarrow> int64 \<Rightarrow> ('h, 'w) lib \<Rightarrow> address \<times> ('h, 'w) lib" where
  "malloc_float C s l = (let (p, h) = c_malloc C (s * 8) (cheap l) in (p, l\<lparr>cheap := h\<rparr>))"

definition calloc_int :: "'h allocator \<Rightarrow> int64 \<Rightarrow> ('h, 'w) lib \<Rightarrow> address \<times> ('h, 'w) lib" where
  "calloc_int C s l = (let (p, h) = c_calloc C s 8 (cheap l) in (p, l\<lparr>cheap := h\<rparr>))"

definition calloc_float :: "'h allocator \<Rightarrow> int64 \<Rightarrow> ('h, 'w) lib \<Rightarrow> address \<times> ('h, 'w) lib" where
  "calloc_float C s l = (let (p, h) = c_calloc C s 8 (cheap l) in (p, l\<lparr>cheap := h\<rparr>))"

definition free_int :: "'h allocator \<Rightarrow> address \<Rightarrow> ('h, 'w) lib \<Rightarrow> ('h, 'w) lib" where
  "free_int C p l = l\<lparr>cheap := c_free C p (cheap l)\<rparr>"

definition free_float :: "'h allocator \<Rightarrow> address \<Rightarrow> ('h, 'w) lib \<Rightarrow> ('h, 'w) lib" where
  "free_float C p l = l\<lparr>cheap := c_free C p (cheap l)\<rparr>"

subsection \<open>Parallelism\<close>

definition lib_make_context :: "('h, 'w) lib \<Rightarrow> par_error + (int \<times> ('h, 'w) lib)" where
  "lib_make_context l = map_sum id (\<lambda>(c, m). (c, l\<lparr>manager := m\<rparr>)) (make_context (manager l))"

definition lib_destroy_context :: "int \<Rightarrow> ('h, 'w) lib \<Rightarrow> par_error + ('h, 'w) lib" where
  "lib_destroy_context cid l = map_sum id (\<lambda>m. l\<lparr>manager := m\<rparr>) (destroy_context cid (manager l))"

definition lib_recon_int ::
  "int64 \<Rightarrow> int \<Rightarrow> int \<Rightarrow> int \<Rightarrow> int \<Rightarrow> ('h, 'w) lib \<Rightarrow> 'w \<Rightarrow> par_error + (int64 \<times> ('h, 'w) lib \<times> 'w)" where
  "lib_recon_int original known sid mx cid l w =
     map_sum id (\<lambda>(v, m, w). (v, l\<lparr>manager := m\<rparr>, w)) (recon_int original known sid mx cid (manager l) w)"

definition lib_recon_float ::
  "double \<Rightarrow> int \<Rightarrow> int \<Rightarrow> int \<Rightarrow> int \<Rightarrow> ('h, 'w) lib \<Rightarrow> 'w \<Rightarrow> par_error + (double \<times> ('h, 'w) lib \<times> 'w)" where
  "lib_recon_float original known sid mx cid l w =
     map_sum id (\<lambda>(v, m, w). (v, l\<lparr>manager := m\<rparr>, w)) (recon_float original known sid mx cid (manager l) w)"

definition lib_recon_intptr ::
  "address \<Rightarrow> int \<Rightarrow> int \<Rightarrow> int \<Rightarrow> int \<Rightarrow> ('h, 'w) lib \<Rightarrow> 'w \<Rightarrow> par_error + (address \<times> ('h, 'w) lib \<times> 'w)" where
  "lib_recon_intptr original known sid mx cid l w =
     map_sum id (\<lambda>(v, m, w). (v, l\<lparr>manager := m\<rparr>, w)) (recon_intptr original known sid mx cid (manager l) w)"

definition lib_recon_floatptr ::
  "address \<Rightarrow> int \<Rightarrow> int \<Rightarrow> int \<Rightarrow> int \<Rightarrow> ('h, 'w) lib \<Rightarrow> 'w \<Rightarrow> par_error + (address \<times> ('h, 'w) lib \<times> 'w)" where
  "lib_recon_floatptr original known sid mx cid l w =
     map_sum id (\<lambda>(v, m, w). (v, l\<lparr>manager := m\<rparr>, w)) (recon_floatptr original known sid mx cid (manager l) w)"

definition lib_recon_void ::
  "int \<Rightarrow> int \<Rightarrow> int \<Rightarrow> ('h, 'w) lib \<Rightarrow> 'w \<Rightarrow> par_error + (unit \<times> ('h, 'w) lib \<times> 'w)" where
  "lib_recon_void sid mx cid l w =
     map_sum id (\<lambda>(v, m, w). (v, l\<lparr>manager := m\<rparr>, w)) (recon_void sid mx cid (manager l) w)"

subsection \<open>Claims\<close>

lemma sint_int_cast: "sint (int_cast i) = signed_take_bit 31 (sint i)"
  unfolding int_cast_def signed_ucast_eq sint_uint [of i] by simp


lemma two_64_zero: "(18446744073709551616 :: int64) = 0"
  by (rule word_uint_eqI) simp

lemma uint_times_8: "uint (s :: int64) < 2 ^ 61 \<Longrightarrow> uint (s * 8) = 8 * uint s"
  by (simp add: uint_word_ariths)



end
