(* ===== verification/Bench.thy ===== *)
theory Bench
  imports Fork_Prelude
begin

section \<open>The C++ benchmark programs (Bench/C++)\<close>

text \<open>
  The two programs that the language is measured against: a random binary tree (\<^verbatim>\<open>Node.cpp\<close>) and
  the computation of pi by counting grid points in a circle (\<^verbatim>\<open>regMonteCarlo.cpp\<close>). The random
  generator, the test \<open>< 0.5\<close> and the floating-point operations are parameters: nothing below
  depends on what they compute. An access outside of an array is \<open>None\<close>.
\<close>

subsection \<open>The binary tree\<close>

datatype bnode = Node double "bnode option" "bnode option"

definition new_Node :: bnode where
  "new_Node = Node 0 None None"

text \<open>\<open>gen\<close> draws a number, \<open>half\<close> is the test for less than one half.\<close>

fun insert_into_tree ::
  "('g \<Rightarrow> double \<times> 'g) \<Rightarrow> (double \<Rightarrow> bool) \<Rightarrow> bnode \<Rightarrow> bnode \<Rightarrow> 'g \<Rightarrow> bnode \<times> 'g" where
  "insert_into_tree gen half new (Node v (Some l) (Some r)) g =
     (let (d, g) = gen g in
      if half d then (let (l', g) = insert_into_tree gen half new l g in (Node v (Some l') (Some r), g))
      else (let (r', g) = insert_into_tree gen half new r g in (Node v (Some l) (Some r'), g)))"
| "insert_into_tree gen half new (Node v (Some l) None) g = (Node v (Some l) (Some new), g)"
| "insert_into_tree gen half new (Node v None (Some r)) g = (Node v (Some new) (Some r), g)"
| "insert_into_tree gen half new (Node v None None) g =
     (let (d, g) = gen g in
      if half d then (Node v (Some new) None, g) else (Node v None (Some new), g))"

fun populate :: "('g \<Rightarrow> double \<times> 'g) \<Rightarrow> bnode \<Rightarrow> 'g \<Rightarrow> bnode \<times> 'g" where
  "populate gen (Node v l r) g =
     (let (d, g) = gen g;
          (l', g) = (case l of None \<Rightarrow> (None, g) | Some n \<Rightarrow> apfst Some (populate gen n g));
          (r', g) = (case r of None \<Rightarrow> (None, g) | Some n \<Rightarrow> apfst Some (populate gen n g))
      in (Node d l' r', g))"

fun tree_size :: "bnode \<Rightarrow> nat" where
  "tree_size (Node v l r) =
     1 + (case l of None \<Rightarrow> 0 | Some n \<Rightarrow> tree_size n) + (case r of None \<Rightarrow> 0 | Some n \<Rightarrow> tree_size n)"

text \<open>\<open>pow_pi\<close> is one round of the work done at a node; it is repeated \<open>WORK_COST\<close> times.\<close>

fun do_work :: "(double \<Rightarrow> double) \<Rightarrow> nat \<Rightarrow> bnode \<Rightarrow> bnode" where
  "do_work pow_pi cost (Node v l r) =
     Node ((pow_pi ^^ cost) v) (map_option (do_work pow_pi cost) l) (map_option (do_work pow_pi cost) r)"

fun grow :: "('g \<Rightarrow> double \<times> 'g) \<Rightarrow> (double \<Rightarrow> bool) \<Rightarrow> nat \<Rightarrow> bnode \<Rightarrow> 'g \<Rightarrow> bnode \<times> 'g" where
  "grow gen half 0 root g = (root, g)"
| "grow gen half (Suc n) root g =
     (let (root, g) = insert_into_tree gen half new_Node root g in grow gen half n root g)"

definition build_tree_of_size ::
  "('g \<Rightarrow> double \<times> 'g) \<Rightarrow> (double \<Rightarrow> bool) \<Rightarrow> int \<Rightarrow> 'g \<Rightarrow> bnode option \<times> 'g" where
  "build_tree_of_size gen half sz g =
     (if sz < 1 then (None, g) else apfst Some (grow gen half (nat (sz - 1)) new_Node g))"

subsection \<open>Counting points\<close>

definition bench_mod :: "int \<Rightarrow> int \<Rightarrow> int" where
  "bench_mod x y = (let m = (if x div y < 0 \<and> x mod y \<noteq> 0 then x div y + 1 else x div y) in x - m * y)"

text \<open>\<open>scale n\<close> is \<open>delta * n\<close>.\<close>

fun init_coords :: "(nat \<Rightarrow> double) \<Rightarrow> double list \<Rightarrow> nat \<Rightarrow> double list option" where
  "init_coords scale coords 0 = Some coords"
| "init_coords scale coords (Suc n) =
     (if n < length coords then init_coords scale (coords[n := scale n]) n else None)"

text \<open>\<open>dist x y\<close> is the distance of the point (x, y) from the centre.\<close>

fun compute_distances_from_center_sub ::
  "(double \<Rightarrow> double \<Rightarrow> double) \<Rightarrow> double list \<Rightarrow> double \<Rightarrow> double list \<Rightarrow> nat \<Rightarrow> nat \<Rightarrow> double list option" where
  "compute_distances_from_center_sub dist ds x ys 0 offset = Some ds"
| "compute_distances_from_center_sub dist ds x ys (Suc n) offset =
     (if n < length ys \<and> offset < length ds
      then compute_distances_from_center_sub dist (ds[offset := dist x (ys ! n)]) x ys n (offset + 1)
      else None)"

fun compute_distances_from_center ::
  "(double \<Rightarrow> double \<Rightarrow> double) \<Rightarrow> double list \<Rightarrow> double list \<Rightarrow> double list \<Rightarrow> nat \<Rightarrow> nat \<Rightarrow> nat \<Rightarrow>
     double list option" where
  "compute_distances_from_center dist ds xs ys 0 ny callcount = Some ds"
| "compute_distances_from_center dist ds xs ys (Suc nx) ny callcount =
     (if nx < length xs then do {
        ds \<leftarrow> compute_distances_from_center_sub dist ds (xs ! nx) ys ny (ny * callcount);
        compute_distances_from_center dist ds xs ys nx ny (callcount + 1)
      }
      else None)"

function count_less_than_one_half :: "(double \<Rightarrow> bool) \<Rightarrow> double list \<Rightarrow> int \<Rightarrow> int \<Rightarrow> int option" where
  "count_less_than_one_half half ds start end' =
     (if start > end' then Some 0
      else if start < 0 \<or> nat start \<ge> length ds then None
      else do {
        c \<leftarrow> count_less_than_one_half half ds (start + 1) end';
        Some (if half (ds ! nat start) then c + 1 else c)
      })"
  by auto
termination
  by (relation "measure (\<lambda>(h, ds, s, e). nat (e + 1 - s))") auto

declare count_less_than_one_half.simps [simp del]

subsection \<open>Claims\<close>

lemma size_insert: "tree_size (fst (insert_into_tree gen half new t g)) = tree_size t + tree_size new"
  by (induction gen half new t g rule: insert_into_tree.induct) (auto simp: Let_def split: prod.splits)

lemma size_grow: "tree_size (fst (grow gen half n t g)) = tree_size t + n"
proof (induction n arbitrary: t g)
  case (Suc n)
  then show ?case
    using size_insert [of gen half new_Node t g] by (auto simp: new_Node_def split: prod.splits)
qed simp

lemma size_populate: "tree_size (fst (populate gen t g)) = tree_size t"
proof (induction t arbitrary: g)
  case (Node v l r)
  have l: "l = Some n \<Longrightarrow> tree_size (fst (populate gen n g)) = tree_size n"
    and r: "r = Some n \<Longrightarrow> tree_size (fst (populate gen n g)) = tree_size n" for n g
    using Node by auto
  show ?case
    using l r by (cases l; cases r) (simp_all add: Let_def split_beta)
qed

lemma size_do_work: "tree_size (do_work f c t) = tree_size t"
  by (induction t) (auto split: option.splits)

text \<open>
  Claim C39. Whatever the random generator draws, the benchmark's tree builder
  returns a tree with exactly the requested number of nodes, or no tree for a request below one;
  filling the tree with values and working on it keep its size.
\<close>

theorem bench_tree_size:
  "(case fst (build_tree_of_size gen half sz g) of
      None \<Rightarrow> sz < 1
    | Some t \<Rightarrow> int (tree_size t) = sz \<and>
        int (tree_size (do_work f cost (fst (populate gen t g')))) = sz)"
  using size_grow [of gen half "nat (sz - 1)" new_Node g]
  by (auto simp: build_tree_of_size_def size_do_work size_populate new_Node_def split: prod.splits)

lemma take_Suc_update: "n < length xs \<Longrightarrow> take (Suc n) (xs[n := v]) = take n xs @ [v]"
  by (simp add: take_Suc_conv_app_nth)

lemma init_coords_result:
  "n \<le> length cs \<Longrightarrow> init_coords scale cs n = Some (map scale [0..<n] @ drop n cs)"
proof (induction n arbitrary: cs)
  case (Suc n)
  then show ?case by (simp add: drop_update_swap Cons_nth_drop_Suc [symmetric])
qed simp

lemma sub_result:
  assumes "n \<le> length ys" and "k + n \<le> length ds"
  shows "compute_distances_from_center_sub dist ds x ys n k =
    Some (take k ds @ map (dist x) (rev (take n ys)) @ drop (k + n) ds)"
  using assms
proof (induction n arbitrary: k ds)
  case (Suc n)
  then have "compute_distances_from_center_sub dist ds x ys (Suc n) k =
      Some (take (k + 1) (ds[k := dist x (ys ! n)]) @ map (dist x) (rev (take n ys)) @
        drop (k + 1 + n) (ds[k := dist x (ys ! n)]))"
    by simp
  then show ?case
    using Suc.prems by (simp add: take_Suc_update take_Suc_conv_app_nth)
qed simp

lemma grid_result:
  assumes "nx \<le> length xs" and "ny \<le> length ys" and "ny * (c + nx) \<le> length ds"
  shows "compute_distances_from_center dist ds xs ys nx ny c =
    Some (take (ny * c) ds @ concat (map (\<lambda>x. map (dist x) (rev (take ny ys))) (rev (take nx xs))) @
      drop (ny * (c + nx)) ds)"
  using assms
proof (induction nx arbitrary: c ds)
  case (Suc nx)
  let ?row = "map (dist (xs ! nx)) (rev (take ny ys))"
  let ?ds = "take (ny * c) ds @ ?row @ drop (ny * c + ny) ds"
  have bounds: "ny * c + ny \<le> length ds"
    using Suc.prems(3) by (simp add: algebra_simps)
  then have sub: "compute_distances_from_center_sub dist ds (xs ! nx) ys ny (ny * c) = Some ?ds"
    using sub_result [OF Suc.prems(2), of "ny * c" ds] by simp
  have len: "length ?ds = length ds" and row: "length ?row = ny"
    using bounds Suc.prems(2) by auto
  have "take (ny * (c + 1)) ?ds = take (ny * c) ds @ ?row"
    using bounds row by (simp add: algebra_simps min_def)
  moreover have "drop (ny * (c + 1 + nx)) ?ds = drop (ny * (c + Suc nx)) ds"
    using bounds row by (simp add: algebra_simps min_def)
  ultimately show ?case
    using Suc.IH [of "c + 1" ?ds] Suc.prems sub len
    by (simp add: take_Suc_conv_app_nth)
qed simp

text \<open>
  Claim C40. With arrays of the right sizes no access is out of range: \<open>init_coords\<close>
  sets every coordinate, and \<open>compute_distances_from_center\<close> fills the whole array of distances,
  row by row from the last x coordinate to the first and within a row from the last y coordinate to
  the first, each entry exactly once and nothing else.
\<close>

theorem bench_grid_filled:
  assumes "length xs = nx" and "length ys = ny" and "length ds = nx * ny"
  shows "init_coords scale xs nx = Some (map scale [0..<nx]) \<and>
    compute_distances_from_center dist ds xs ys nx ny 0 =
      Some (concat (map (\<lambda>x. map (dist x) (rev ys)) (rev xs)))"
  using assms init_coords_result [of nx xs scale] grid_result [of nx xs ny ys 0 ds dist]
  by (simp add: mult.commute)

theorem bench_grid_filled_witness:
  "compute_distances_from_center (+) [0, 0, 0, 0] [1, 2] [10, 20] 2 2 0 = Some [22, 12, 21, 11]"
  using bench_grid_filled [of "[1, 2]" 2 "[10, 20]" 2 "[0, 0, 0, 0]" "\<lambda>_. 0" "(+)"] by simp

lemma count_result:
  assumes "0 \<le> start" and "end' < int (length ds)"
  shows "count_less_than_one_half half ds start end' =
    Some (int (length (filter half (take (nat (end' + 1 - start)) (drop (nat start) ds)))))"
  using assms
proof (induction half ds start end' rule: count_less_than_one_half.induct)
  case (1 half ds start end')
  show ?case
  proof (cases "start > end'")
    case False
    then have split: "drop (nat start) ds = ds ! nat start # drop (nat (start + 1)) ds"
      using 1 by (simp add: Cons_nth_drop_Suc [symmetric] nat_add_distrib)
    have n: "nat (end' + 1 - start) = Suc (nat (end' + 1 - (start + 1)))"
      using False by simp
    show ?thesis
      using 1 False split n by (subst count_less_than_one_half.simps) auto
  qed (simp add: count_less_than_one_half.simps)
qed

text \<open>
  The recursive counter, called on a whole array, terminates without
  an access out of range and returns the number of entries that pass the test.
\<close>

theorem bench_count_correct:
  "count_less_than_one_half half ds 0 (int (length ds) - 1) = Some (int (length (filter half ds)))"
  using count_result [of 0 "int (length ds) - 1" ds half] by simp

end
